(* ===== verification/Prelude.thy ===== *)
theory Prelude
  imports Main "HOL-Library.Word"
begin

section \<open>Prelude: integers, Rust strings and slices\<close>

text \<open>
  What every component shares: names for the machine integers the Rust code uses, the
  conversions its \<open>as\<close> casts perform, the part of Rust's \<open>str\<close> API that the
  parsers call, and indexed writes into a slice that panic out of range.

  A Rust string is a list of Unicode scalar values (\<open>rstr\<close>, each value a \<open>nat\<close>), because
  \<open>split_whitespace\<close> splits at Unicode white space; \<open>lit\<close> turns an ASCII literal into
  one.  \<open>str::len\<close> counts UTF-8 bytes, so it is \<open>utf8_len\<close> and not \<open>length\<close>.
\<close>

subsection \<open>Machine integers\<close>

text \<open>
  \<open>usize\<close> is 64 bits wide (the program is x86-64 only).  Signed types share the word type of
  their width; \<open>sint\<close> reads them.  The workspace sets no Cargo profile, so overflow wraps in
  a release build; arithmetic on words is that arithmetic.
\<close>

type_synonym u8 = "8 word"
type_synonym u32 = "32 word"
type_synonym u64 = "64 word"
type_synonym usize = "64 word"
type_synonym i32 = "32 word"
type_synonym i64 = "64 word"

text \<open>Rust's \<open>x as u64\<close> from a 32-bit type: sign extension from \<open>i32\<close>, zero extension
  from \<open>u32\<close>; and the truncating cast back.\<close>

definition i32_as_u64 :: "i32 \<Rightarrow> u64" where
  "i32_as_u64 x = scast x"

definition u32_as_u64 :: "u32 \<Rightarrow> u64" where
  "u32_as_u64 x = ucast x"

definition u64_as_i32 :: "u64 \<Rightarrow> i32" where
  "u64_as_i32 x = ucast x"

named_theorems cast_simps \<open>casts between 32-bit and 64-bit integers\<close>

lemma u64_as_i32_of_i32 [simp, cast_simps]: "u64_as_i32 (i32_as_u64 x) = x"
  by (simp add: i32_as_u64_def u64_as_i32_def bit_eq_iff bit_simps)

lemma u64_as_i32_of_u32 [simp, cast_simps]: "u64_as_i32 (u32_as_u64 x) = x"
  by (simp add: u32_as_u64_def u64_as_i32_def bit_eq_iff bit_simps)

text \<open>A 64-bit value survives the trip through \<open>c_int\<close> exactly when it fits in one.\<close>

definition fits_i32 :: "i64 \<Rightarrow> bool" where
  "fits_i32 r \<longleftrightarrow> - (2 ^ 31) \<le> sint r \<and> sint r < 2 ^ 31"

text \<open>An index below a word's value survives the trip through the word type.\<close>

lemma unat_of_nat_below [simp]:
  fixes x :: "'a::len word"
  assumes "i < unat x"
  shows "unat (of_nat i :: 'a word) = i"
proof -
  have "i < 2 ^ LENGTH('a)" using assms unsigned_less [of x, where 'a = nat] by (rule order.strict_trans)
  then show ?thesis by (simp add: unat_of_nat)
qed

subsection \<open>Slices\<close>

text \<open>\<open>mem[i] = b\<close> on a slice: \<open>None\<close> is the panic on an index out of range.\<close>

definition slice_set :: "'a list \<Rightarrow> nat \<Rightarrow> 'a \<Rightarrow> 'a list option" where
  "slice_set xs i x = (if i < length xs then Some (xs[i := x]) else None)"

lemma slice_set_eq_Some [simp]:
  "slice_set xs i x = Some ys \<longleftrightarrow> i < length xs \<and> ys = xs[i := x]"
  by (auto simp: slice_set_def)

lemma slice_set_eq_None [simp]: "slice_set xs i x = None \<longleftrightarrow> length xs \<le> i"
  by (auto simp: slice_set_def)

subsection \<open>Strings\<close>

type_synonym rstr = "nat list"

definition lit :: "string \<Rightarrow> rstr" where
  "lit s = map of_char s"

lemma lit_simps [simp]: "lit [] = []" "lit (c # cs) = of_char c # lit cs"
  by (simp_all add: lit_def)

text \<open>\<open>char::is_whitespace\<close>: the code points with the Unicode property White\_Space.\<close>

definition is_whitespace :: "nat \<Rightarrow> bool" where
  "is_whitespace c \<longleftrightarrow>
     (9 \<le> c \<and> c \<le> 13) \<or> c = 32 \<or> c = 133 \<or> c = 160 \<or> c = 5760 \<or>
     (8192 \<le> c \<and> c \<le> 8202) \<or> c = 8232 \<or> c = 8233 \<or> c = 8239 \<or> c = 8287 \<or> c = 12288"

definition utf8_width :: "nat \<Rightarrow> nat" where
  "utf8_width c = (if c < 128 then 1 else if c < 2048 then 2 else if c < 65536 then 3 else 4)"

definition utf8_len :: "rstr \<Rightarrow> nat" where
  "utf8_len s = sum_list (map utf8_width s)"

text \<open>\<open>str::split\<close>: the pieces between separators, empty pieces included.\<close>

fun split_on :: "('a \<Rightarrow> bool) \<Rightarrow> 'a list \<Rightarrow> 'a list list" where
  "split_on p [] = [[]]"
| "split_on p (x # xs) =
     (if p x then [] # split_on p xs
      else (case split_on p xs of [] \<Rightarrow> [[x]] | y # ys \<Rightarrow> (x # y) # ys))"

text \<open>\<open>str::split_whitespace\<close> is \<open>split(char::is_whitespace)\<close> without the empty pieces.\<close>

definition split_whitespace :: "rstr \<Rightarrow> rstr list" where
  "split_whitespace s = filter (\<lambda>w. w \<noteq> []) (split_on is_whitespace s)"

text \<open>\<open>[..].join(sep)\<close>.\<close>

fun join :: "'a list \<Rightarrow> 'a list list \<Rightarrow> 'a list" where
  "join sep [] = []"
| "join sep [w] = w"
| "join sep (w # v # vs) = w @ sep @ join sep (v # vs)"

text \<open>\<open>str::contains\<close> with a string pattern.\<close>

fun starts_with_list :: "'a list \<Rightarrow> 'a list \<Rightarrow> bool" where
  "starts_with_list xs [] \<longleftrightarrow> True"
| "starts_with_list [] (p # ps) \<longleftrightarrow> False"
| "starts_with_list (x # xs) (p # ps) \<longleftrightarrow> x = p \<and> starts_with_list xs ps"

fun contains_str :: "'a list \<Rightarrow> 'a list \<Rightarrow> bool" where
  "contains_str [] p \<longleftrightarrow> starts_with_list [] p"
| "contains_str (x # xs) p \<longleftrightarrow> starts_with_list (x # xs) p \<or> contains_str xs p"

lemma starts_with_list_iff: "starts_with_list xs ps \<longleftrightarrow> take (length ps) xs = ps"
  by (induction xs ps rule: starts_with_list.induct) auto

lemma starts_with_list_self [simp]: "starts_with_list xs xs"
  by (simp add: starts_with_list_iff)

lemma starts_with_list_append [simp]: "starts_with_list (ps @ xs) ps"
  by (simp add: starts_with_list_iff)

lemma split_on_not_Nil [simp]: "split_on p xs \<noteq> []"
  by (cases xs) (auto split: list.splits)

lemma split_on_none [simp]: "\<forall>x\<in>set xs. \<not> p x \<Longrightarrow> split_on p xs = [xs]"
  by (induction xs) auto

lemma split_on_sep:
  "\<forall>x\<in>set xs. \<not> p x \<Longrightarrow> p y \<Longrightarrow> split_on p (xs @ y # ys) = xs # split_on p ys"
  by (induction xs) auto

lemma split_whitespace_word:
  "w \<noteq> [] \<Longrightarrow> \<forall>c\<in>set w. \<not> is_whitespace c \<Longrightarrow> split_whitespace w = [w]"
  by (simp add: split_whitespace_def)

lemma split_whitespace_cons:
  "w \<noteq> [] \<Longrightarrow> \<forall>c\<in>set w. \<not> is_whitespace c \<Longrightarrow> is_whitespace y \<Longrightarrow>
   split_whitespace (w @ y # ys) = w # split_whitespace ys"
  by (simp add: split_whitespace_def split_on_sep)

lemma split_whitespace_skip [simp]:
  "is_whitespace y \<Longrightarrow> split_whitespace (y # ys) = split_whitespace ys"
  by (simp add: split_whitespace_def)

lemma split_whitespace_skips [simp]:
  "split_whitespace (replicate n 32 @ ys) = split_whitespace ys"
  by (induction n) (auto simp: is_whitespace_def)

lemma split_whitespace_Nil [simp]: "split_whitespace [] = []"
  by (simp add: split_whitespace_def)

lemma split_on_pieces: "w \<in> set (split_on p xs) \<Longrightarrow> x \<in> set w \<Longrightarrow> \<not> p x"
  by (induction xs arbitrary: w) (fastforce split: if_splits list.splits)+

lemma split_whitespace_words:
  "w \<in> set (split_whitespace s) \<Longrightarrow> w \<noteq> [] \<and> (\<forall>c\<in>set w. \<not> is_whitespace c)"
  by (auto simp: split_whitespace_def dest: split_on_pieces)

subsection \<open>Numbers in strings\<close>

text \<open>\<open>char::to_digit(radix)\<close>, and \<open>u64::from_str_radix\<close> / \<open>str::parse\<close> as the code
  uses them: an error of any kind (empty, bad digit, overflow) is turned into \<open>None\<close> by \<open>.ok()?\<close>.
  A single leading \<open>+\<close> is accepted, as the library does.\<close>

definition to_digit :: "nat \<Rightarrow> nat \<Rightarrow> nat option" where
  "to_digit radix c =
     (let d = (if 48 \<le> c \<and> c \<le> 57 then Some (c - 48)
               else if 97 \<le> c \<and> c \<le> 122 then Some (c - 87)
               else if 65 \<le> c \<and> c \<le> 90 then Some (c - 55) else None)
      in case d of None \<Rightarrow> None | Some v \<Rightarrow> if v < radix then Some v else None)"

fun digits_value :: "nat \<Rightarrow> nat \<Rightarrow> rstr \<Rightarrow> nat option" where
  "digits_value radix n [] = Some n"
| "digits_value radix n (c # cs) =
     (case to_digit radix c of
        None \<Rightarrow> None
      | Some d \<Rightarrow> if n * radix + d < 2 ^ 64 then digits_value radix (n * radix + d) cs else None)"

definition from_str_radix :: "nat \<Rightarrow> rstr \<Rightarrow> u64 option" where
  "from_str_radix radix s = map_option of_nat
     (case s of
        [] \<Rightarrow> None
      | [c] \<Rightarrow> if c = 43 \<or> c = 45 then None else digits_value radix 0 s
      | c # cs \<Rightarrow> if c = 43 then digits_value radix 0 cs else digits_value radix 0 s)"

text \<open>The printer of the matching format, for the round trips: lower-case digits, most
  significant first.\<close>

definition digit_char :: "nat \<Rightarrow> nat" where
  "digit_char d = (if d < 10 then 48 + d else 87 + d)"

function show_radix :: "nat \<Rightarrow> nat \<Rightarrow> rstr" where
  "show_radix r n = (if r < 2 \<or> n < r then [digit_char n] else show_radix r (n div r) @ [digit_char (n mod r)])"
  by pat_completeness auto
termination
proof (relation "measure snd", goal_cases)
  case (2 r n)
  then have "n div r < n" by (intro div_less_dividend) auto
  then show ?case by simp
qed simp

declare show_radix.simps [simp del]

lemma to_digit_digit_char [simp]: "d < r \<Longrightarrow> r \<le> 16 \<Longrightarrow> to_digit r (digit_char d) = Some d"
  by (auto simp: to_digit_def digit_char_def Let_def)

lemma digit_char_class:
  "d < 16 \<Longrightarrow> digit_char d \<noteq> 43 \<and> digit_char d \<noteq> 45 \<and> \<not> is_whitespace (digit_char d)"
  by (auto simp: digit_char_def is_whitespace_def)

lemma digits_value_append:
  "digits_value r n (xs @ ys) = (case digits_value r n xs of None \<Rightarrow> None | Some m \<Rightarrow> digits_value r m ys)"
  by (induction r n xs rule: digits_value.induct) (auto split: option.splits)

lemma digits_value_show:
  "2 \<le> r \<Longrightarrow> r \<le> 16 \<Longrightarrow> n < 2 ^ 64 \<Longrightarrow> digits_value r 0 (show_radix r n) = Some n"
proof (induction r n rule: show_radix.induct)
  case (1 r n)
  show ?case
  proof (cases "n < r")
    case True
    with 1 show ?thesis by (simp add: show_radix.simps [of r n])
  next
    case False
    have "n div r \<le> n" by simp
    with 1 have "n div r < 2 ^ 64" by linarith
    with 1 False have "digits_value r 0 (show_radix r (n div r)) = Some (n div r)" by simp
    with 1 False show ?thesis
      by (simp add: show_radix.simps [of r n] digits_value_append)
  qed
qed

lemma digits_value_zeros [simp]: "2 \<le> r \<Longrightarrow> digits_value r 0 (replicate k 48 @ xs) = digits_value r 0 xs"
  by (induction k) (auto simp: to_digit_def)

lemma show_radix_not_Nil [simp]: "show_radix r n \<noteq> []"
  by (simp add: show_radix.simps [of r n])

lemma show_radix_chars:
  "2 \<le> r \<Longrightarrow> r \<le> 16 \<Longrightarrow> c \<in> set (show_radix r n) \<Longrightarrow> c \<noteq> 43 \<and> c \<noteq> 45 \<and> \<not> is_whitespace c"
proof (induction r n rule: show_radix.induct)
  case (1 r n)
  then show ?case
    using digit_char_class [of n] digit_char_class [of "n mod r"] mod_less_divisor [of r n]
    by (cases "n < r") (auto simp: show_radix.simps [of r n] simp del: mod_less_divisor)
qed

lemma from_str_radix_show:
  assumes "2 \<le> r" "r \<le> 16"
  shows "from_str_radix r (replicate k 48 @ show_radix r (unat x)) = Some x"
proof -
  let ?s = "replicate k 48 @ show_radix r (unat x)"
  have v: "digits_value r 0 ?s = Some (unat x)"
    using assms digits_value_show [of r "unat x"] unsigned_less [of x] by simp
  have "c \<noteq> 43 \<and> c \<noteq> 45" if "c \<in> set ?s" for c
    using that assms show_radix_chars [of r c] by (auto split: if_splits)
  moreover obtain c cs where s: "?s = c # cs" by (cases ?s) auto
  ultimately have "c \<noteq> 43 \<and> c \<noteq> 45" by (metis list.set_intros(1))
  with s v show ?thesis
    unfolding from_str_radix_def s by (auto split: list.splits)
qed

end
