(* ===== verification/ProcMaps.thy ===== *)
theory ProcMaps
  imports Prelude
begin

section \<open>The memory map parser (\<open>zpoline\_rewriter/src/maps.rs\<close>)\<close>

text \<open>
  \<open>MemoryRegion\<close>, its accessors, \<open>parse_maps_line\<close> and \<open>parse_maps_file\<close>.  Opening and
  reading the file are library input; the file is given as what \<open>reader.lines()\<close> yields: for
  every line the decoded string, or the I/O error (a line that is not UTF-8 is such an error).
  The lemmas show that the parser inverts the format of \<^verbatim>\<open>proc(5)\<close>, what it rejects, and what
  \<open>parse_maps_file\<close> keeps of a file.
\<close>

subsection \<open>Data and accessors\<close>

record memory_region =
  mr_start :: usize
  mr_end :: usize
  readable :: bool
  writable :: bool
  executable :: bool
  is_private :: bool
  mr_offset :: u64
  device :: rstr
  inode :: u64
  pathname :: "rstr option"

definition is_executable :: "memory_region \<Rightarrow> bool" where
  "is_executable r = executable r"

definition is_writable :: "memory_region \<Rightarrow> bool" where
  "is_writable r = writable r"

text \<open>\<open>self.end - self.start\<close>, wrapping as \<open>usize\<close> subtraction does in a release build.\<close>

definition region_size :: "memory_region \<Rightarrow> usize" where
  "region_size r = mr_end r - mr_start r"

subsection \<open>One line\<close>

text \<open>Each \<open>return None\<close> and \<open>?\<close> of the source is a \<open>None\<close> here, in the source's order.\<close>

definition parse_maps_line :: "rstr \<Rightarrow> memory_region option" where
  "parse_maps_line line =
     (let parts = split_whitespace line in
      if parts = [] then None
      else let addr_parts = split_on (\<lambda>c. c = 45) (parts ! 0) in
      if length addr_parts \<noteq> 2 then None
      else case from_str_radix 16 (addr_parts ! 0) of None \<Rightarrow> None | Some start \<Rightarrow>
           case from_str_radix 16 (addr_parts ! 1) of None \<Rightarrow> None | Some end' \<Rightarrow>
      if length parts < 5 then None
      else let perms = parts ! 1 in
      if utf8_len perms \<noteq> 4 then None
      else if length perms < 4 then None
      else let r = (perms ! 0 = 114); w = (perms ! 1 = 119);
               x = (perms ! 2 = 120); p = (perms ! 3 = 112) in
           case from_str_radix 16 (parts ! 2) of None \<Rightarrow> None | Some offset \<Rightarrow>
           case from_str_radix 10 (parts ! 4) of None \<Rightarrow> None | Some ino \<Rightarrow>
      Some \<lparr>mr_start = start, mr_end = end', readable = r, writable = w, executable = x,
            is_private = p, mr_offset = offset, device = parts ! 3, inode = ino,
            pathname = (if length parts > 5 then Some (join [32] (drop 5 parts)) else None)\<rparr>)"

lemmas parse_eval = split_whitespace_def is_whitespace_def from_str_radix_def to_digit_def
  utf8_len_def utf8_width_def Let_def

subsection \<open>A whole file\<close>

text \<open>The loop over \<open>reader.lines()\<close>: the first read error is returned (\<open>line?\<close>), a line that
  does not parse is skipped.\<close>

fun parse_lines :: "('e + rstr) list \<Rightarrow> memory_region list \<Rightarrow> 'e + memory_region list" where
  "parse_lines [] regions = Inr regions"
| "parse_lines (Inl e # ls) regions = Inl e"
| "parse_lines (Inr l # ls) regions =
     (case parse_maps_line l of
        Some region \<Rightarrow> parse_lines ls (regions @ [region])
      | None \<Rightarrow> parse_lines ls regions)"

text \<open>\<open>File::open(path)?\<close> is the argument: its error, or the lines of the file.\<close>

definition parse_maps_file :: "('e + ('e + rstr) list) \<Rightarrow> 'e + memory_region list" where
  "parse_maps_file opened =
     (case opened of Inl e \<Rightarrow> Inl e | Inr ls \<Rightarrow> parse_lines ls [])"

definition parse_proc_maps :: "(rstr \<Rightarrow> 'e + ('e + rstr) list) \<Rightarrow> 'e + memory_region list" where
  "parse_proc_maps open_file = parse_maps_file (open_file (lit ''/proc/self/maps''))"

subsection \<open>The format, and the round trip\<close>

text \<open>
  What \<^verbatim>\<open>proc(5)\<close> prints for a mapping: addresses and offset in hexadecimal, zero padded
  (\<open>pad\<close> zeros), the four permission characters, the device, the inode in decimal, then at
  least one blank and the path.  An anonymous mapping ends in blanks.
\<close>

definition perm_chars :: "memory_region \<Rightarrow> rstr" where
  "perm_chars r =
     [if readable r then 114 else 45, if writable r then 119 else 45,
      if executable r then 120 else 45, if is_private r then 112 else 115]"

definition hex :: "nat \<Rightarrow> u64 \<Rightarrow> rstr" where
  "hex pad x = replicate pad 48 @ show_radix 16 (unat x)"

definition format_maps_line :: "nat \<Rightarrow> nat \<Rightarrow> memory_region \<Rightarrow> rstr" where
  "format_maps_line pad k r =
     (hex pad (mr_start r) @ 45 # hex pad (mr_end r)) @ 32 # perm_chars r @ 32 #
     hex pad (mr_offset r) @ 32 # device r @ 32 # show_radix 10 (unat (inode r)) @ 32 #
     replicate k 32 @ (case pathname r of None \<Rightarrow> [] | Some p \<Rightarrow> p)"

definition is_word :: "rstr \<Rightarrow> bool" where
  "is_word w \<longleftrightarrow> w \<noteq> [] \<and> (\<forall>c\<in>set w. \<not> is_whitespace c)"

text \<open>What a region must satisfy to be printable: the device is one word, and the path is a
  non-empty sequence of words with single blanks between them.\<close>

definition printable_region :: "memory_region \<Rightarrow> bool" where
  "printable_region r \<longleftrightarrow> is_word (device r) \<and>
     (case pathname r of None \<Rightarrow> True | Some p \<Rightarrow> p \<noteq> [] \<and> join [32] (split_whitespace p) = p)"

lemma is_word_hex [simp]: "is_word (hex pad x)"
  by (auto simp: is_word_def hex_def is_whitespace_def dest!: show_radix_chars [rotated 2] split: if_splits)

lemma is_word_show [simp]: "2 \<le> r \<Longrightarrow> r \<le> 16 \<Longrightarrow> is_word (show_radix r n)"
  by (auto simp: is_word_def dest: show_radix_chars)

lemma is_word_perm_chars [simp]: "is_word (perm_chars r)"
  by (auto simp: is_word_def perm_chars_def is_whitespace_def)

lemma is_word_append [simp]:
  "is_word v \<Longrightarrow> is_word w \<Longrightarrow> is_word (v @ 45 # w)"
  by (auto simp: is_word_def is_whitespace_def)

lemma split_words [simp]: "is_word w \<Longrightarrow> split_whitespace (w @ 32 # ys) = w # split_whitespace ys"
  unfolding is_word_def by (intro split_whitespace_cons) (auto simp: is_whitespace_def)

lemma split_address_word [simp]:
  "split_whitespace (hex p x @ 45 # hex q y @ 32 # ys) = (hex p x @ 45 # hex q y) # split_whitespace ys"
  using split_words [of "hex p x @ 45 # hex q y" ys] by simp

lemma split_blanks [simp]: "split_whitespace (replicate k 32) = []"
  using split_whitespace_skips [of k "[]"] by simp

lemma split_join:
  "\<forall>w\<in>set ws. is_word w \<Longrightarrow> split_whitespace (join [32] ws) = ws"
  by (induction "[32] :: rstr" ws rule: join.induct) (auto simp: is_word_def split_whitespace_word)

lemma join_Nil_iff: "\<forall>w\<in>set ws. is_word w \<Longrightarrow> join [32] ws = [] \<longleftrightarrow> ws = []"
  by (induction "[32] :: rstr" ws rule: join.induct) (auto simp: is_word_def)

lemma hex_no_dash: "\<forall>c\<in>set (hex pad x). c \<noteq> 45"
  by (auto simp: hex_def dest: show_radix_chars [rotated 2] split: if_splits)

lemma split_address [simp]:
  "split_on (\<lambda>c. c = 45) (hex pad x @ 45 # hex pad y) = [hex pad x, hex pad y]"
  using hex_no_dash [of pad x] hex_no_dash [of pad y] by (subst split_on_sep) auto

lemma from_str_radix_hex [simp]: "from_str_radix 16 (hex pad x) = Some x"
  by (simp add: hex_def from_str_radix_show)

lemma from_str_radix_dec [simp]: "from_str_radix 10 (show_radix 10 (unat x)) = Some x"
  using from_str_radix_show [of 10 0 x] by simp

lemma perm_chars_fields [simp]:
  "utf8_len (perm_chars r) = 4" "length (perm_chars r) = 4"
  "perm_chars r ! 0 = 114 \<longleftrightarrow> readable r" "perm_chars r ! Suc 0 = 119 \<longleftrightarrow> writable r"
  "perm_chars r ! 2 = 120 \<longleftrightarrow> executable r" "perm_chars r ! 3 = 112 \<longleftrightarrow> is_private r"
  by (auto simp: perm_chars_def utf8_len_def utf8_width_def)

lemma format_words:
  assumes "printable_region r"
  shows "split_whitespace (format_maps_line pad k r) =
    [hex pad (mr_start r) @ 45 # hex pad (mr_end r), perm_chars r, hex pad (mr_offset r),
     device r, show_radix 10 (unat (inode r))] @
    (case pathname r of None \<Rightarrow> [] | Some p \<Rightarrow> split_whitespace p)"
  using assms by (simp add: format_maps_line_def printable_region_def split: option.splits)

lemma parse_format:
  assumes "printable_region r"
  shows "parse_maps_line (format_maps_line pad k r) = Some r"
proof (cases "pathname r")
  case None
  with assms show ?thesis
    by (simp add: parse_maps_line_def format_words)
next
  case (Some p)
  with assms have "p \<noteq> []" "join [32] (split_whitespace p) = p"
    by (auto simp: printable_region_def)
  moreover from this have "split_whitespace p \<noteq> []" by auto
  ultimately show ?thesis
    using assms Some by (simp add: parse_maps_line_def format_words)
qed

text \<open>What the parser returns is printable, so parsing is a normalisation: printing what was
  parsed and parsing again changes nothing.\<close>

lemma parse_maps_line_SomeE:
  assumes "parse_maps_line line = Some r"
  obtains "5 \<le> length (split_whitespace line)" "device r = split_whitespace line ! 3"
    "pathname r = (if length (split_whitespace line) > 5
                   then Some (join [32] (drop 5 (split_whitespace line))) else None)"
  using assms by (auto simp: parse_maps_line_def Let_def split: if_splits option.splits)

lemma parse_printable:
  assumes "parse_maps_line line = Some r"
  shows "printable_region r"
proof -
  let ?parts = "split_whitespace line"
  have words: "\<forall>w\<in>set ?parts. is_word w"
    by (auto simp: is_word_def dest: split_whitespace_words)
  then have tail: "\<forall>w\<in>set (drop 5 ?parts). is_word w"
    by (auto dest: in_set_dropD)
  from assms show ?thesis
    by (rule parse_maps_line_SomeE)
      (use words tail in \<open>auto simp: printable_region_def split_join join_Nil_iff\<close>)
qed

subsection \<open>Properties\<close>

text \<open>
  C40: \<open>parse\_maps\_line\<close> inverts the \<^verbatim>\<open>/proc/self/maps\<close> format: for every region whose
  device is a word and whose path is blank-normalised, any zero padding of the numbers and any
  run of blanks before the path, every field (addresses, the four permissions, offset, device,
  inode, path) is read back exactly.
\<close>

theorem parse_maps_line_roundtrip:
  assumes "printable_region r"
  shows "parse_maps_line (format_maps_line pad k r) = Some r"
  using assms by (rule parse_format)

theorem parse_maps_line_roundtrip_witness:
  "let r = \<lparr>mr_start = 0x7f8b4c000000, mr_end = 0x7f8b4c021000, readable = True,
            writable = False, executable = True, is_private = True, mr_offset = 0x1000,
            device = lit ''08:01'', inode = 1234, pathname = Some (lit ''/lib/my lib.so'')\<rparr>
   in printable_region r \<and> parse_maps_line (format_maps_line 4 19 r) = Some r"
proof -
  let ?r = "\<lparr>mr_start = 0x7f8b4c000000, mr_end = 0x7f8b4c021000, readable = True,
            writable = False, executable = True, is_private = True, mr_offset = 0x1000,
            device = lit ''08:01'', inode = 1234, pathname = Some (lit ''/lib/my lib.so'')\<rparr>"
  have "printable_region ?r"
    by (simp add: printable_region_def is_word_def split_whitespace_def is_whitespace_def)
  then show ?thesis
    using parse_maps_line_roundtrip [of ?r 4 19] by (simp add: Let_def)
qed

text \<open>
  Parsing is a normalisation: whatever line the parser accepts, printing the region it
  returned in the \<^verbatim>\<open>/proc/self/maps\<close> format and parsing that gives the same region, so no field
  of an accepted line depends on its spacing or its zero padding.
\<close>

lemma parse_maps_line_normalises:
  assumes "parse_maps_line line = Some r"
  shows "parse_maps_line (format_maps_line pad k r) = Some r"
  using parse_format [OF parse_printable [OF assms]] .

lemma parse_lines_ok:
  "parse_lines (map Inr ls) acc = Inr (acc @ List.map_filter parse_maps_line ls)"
  by (induction ls arbitrary: acc) (auto simp: List.map_filter_simps split: option.splits)

lemma parse_lines_err:
  "parse_lines (map Inr ls @ Inl e # rest) acc = Inl e"
  by (induction ls arbitrary: acc) (auto split: option.splits)

text \<open>
  \<open>parse\_maps\_file\<close> returns the regions of the lines that parse, in file order, and
  silently drops the others; the first read error (a line that is not UTF-8, say) makes the whole
  call fail with it, whatever was parsed before and whatever follows.
\<close>

lemma parse_maps_file_spec:
  "parse_maps_file (Inr (map Inr ls)) = Inr (List.map_filter parse_maps_line ls) \<and>
   parse_maps_file (Inr (map Inr ls @ Inl e # rest)) = Inl e \<and>
   parse_maps_file (Inl e') = Inl e'"
  by (simp add: parse_maps_file_def parse_lines_ok parse_lines_err)

end
