(* ===== verification/StdPath.thy ===== *)
theory StdPath
  imports Prelude
begin

section \<open>The part of \<open>std::path\<close> the program uses (Unix)\<close>

text \<open>
  \<open>PathBuf\<close> is the text of a path; comparison, hashing and \<open>starts_with\<close> work on its
  components: runs of separators count once, a \<open>.\<close> counts only at the very start of a relative
  path.  \<open>join\<close> and \<open>parent\<close> work on the text.  The lemmas give the facts about component
  prefixes that the exclusion rules rest on.
\<close>

type_synonym path = rstr

datatype path_component = RootDir | CurDir | ParentDir | NormalComp rstr

definition is_rooted :: "path \<Rightarrow> bool" where
  "is_rooted p \<longleftrightarrow> p \<noteq> [] \<and> hd p = 47"

definition skip_segment :: "rstr \<Rightarrow> bool" where
  "skip_segment s \<longleftrightarrow> s = [] \<or> s = [46]"

definition segment_component :: "rstr \<Rightarrow> path_component" where
  "segment_component s = (if s = [46, 46] then ParentDir else NormalComp s)"

definition components :: "path \<Rightarrow> path_component list" where
  "components p =
     (let segs = split_on (\<lambda>c. c = 47) p in
      (if is_rooted p then [RootDir] else if hd segs = [46] then [CurDir] else []) @
      map segment_component (filter (\<lambda>s. \<not> skip_segment s) segs))"

text \<open>\<open>PathBuf\<close>'s \<open>==\<close> and \<open>Path::starts_with\<close>.\<close>

definition path_eq :: "path \<Rightarrow> path \<Rightarrow> bool" where
  "path_eq p q \<longleftrightarrow> components p = components q"

definition path_starts_with :: "path \<Rightarrow> path \<Rightarrow> bool" where
  "path_starts_with p q \<longleftrightarrow> starts_with_list (components p) (components q)"

text \<open>\<open>Path::join\<close>: an absolute argument replaces the path.\<close>

definition path_join :: "path \<Rightarrow> path \<Rightarrow> path" where
  "path_join p q =
     (if is_rooted q then q
      else if p \<noteq> [] \<and> last p \<noteq> 47 then p @ [47] @ q else p @ q)"

text \<open>\<open>Path::parent\<close>: the text without its last component and the separators before it;
  \<open>None\<close> for the empty path and for the root.\<close>

definition strip_trailing :: "rstr list \<Rightarrow> rstr list" where
  "strip_trailing segs = rev (dropWhile skip_segment (rev segs))"

definition path_parent :: "path \<Rightarrow> path option" where
  "path_parent p =
     (if p = [] then None
      else if is_rooted p then
        (let segs = strip_trailing (split_on (\<lambda>c. c = 47) (tl p)) in
         if segs = [] then None else Some (47 # join [47] (strip_trailing (butlast segs))))
      else
        (let segs = split_on (\<lambda>c. c = 47) p; rest = strip_trailing (tl segs) in
         if rest = [] then Some []
         else Some (join [47] (hd segs # strip_trailing (butlast rest)))))"

lemmas path_eval = components_def is_rooted_def skip_segment_def segment_component_def
  path_eq_def path_starts_with_def path_join_def strip_trailing_def path_parent_def Let_def

lemma path_starts_with_refl [simp]: "path_starts_with p p"
  by (simp add: path_starts_with_def)

lemma path_eq_starts_with: "path_eq p q \<Longrightarrow> path_starts_with p q"
  by (simp add: path_eq_def path_starts_with_def)

lemma path_starts_with_trans:
  "path_starts_with p q \<Longrightarrow> path_starts_with q r \<Longrightarrow> path_starts_with p r"
  unfolding path_starts_with_def starts_with_list_iff
  by (metis length_take min_absorb1 min.cobounded2 take_take)

text \<open>Component-wise, not text-wise: \<open>/lib\<close> is a prefix of \<open>/lib/x\<close> and not of \<open>/lib64/x\<close>.\<close>

lemma starts_with_is_component_wise:
  "path_starts_with (lit ''/lib/libc.so'') (lit ''/lib'')"
  "path_starts_with (lit ''/lib//./libc.so'') (lit ''/lib/'')"
  "\<not> path_starts_with (lit ''/lib64/libc.so'') (lit ''/lib'')"
  by (simp_all add: path_eval)

lemma path_parent_examples:
  "path_parent (lit ''/usr//bin/foo'') = Some (lit ''/usr//bin'')"
  "path_parent (lit ''/foo'') = Some (lit ''/'')" "path_parent (lit ''/'') = None"
  "path_parent (lit ''foo'') = Some []" "path_parent (lit ''a/./b/'') = Some (lit ''a'')"
  by (simp_all add: path_eval)

end
