(* ===== verification/RewriteConfig.thy ===== *)
theory RewriteConfig
  imports ProcMaps StdPath
begin

section \<open>What the rewriter leaves alone (\<open>RewriteConfig\<close> in \<open>rewriter.rs\<close>)\<close>

text \<open>
  The configuration, its builder methods and \<open>is_excluded\<close>.  The \<open>HashSet<PathBuf>\<close> is the list
  of its members in insertion order, no two of them equal as paths; \<open>is_excluded\<close> only asks whether
  some member matches, so the order is not observable.
\<close>

record rewrite_config =
  exclude_paths :: "path list"
  exclude_ranges :: "(usize \<times> usize) list"
  dry_run :: bool

definition default_config :: rewrite_config where
  "default_config = \<lparr>exclude_paths = [], exclude_ranges = [], dry_run = False\<rparr>"

definition new_config :: rewrite_config where
  "new_config = default_config"

text \<open>\<open>HashSet::insert\<close> keeps the member it has when an equal one is inserted.\<close>

definition exclude_path :: "path \<Rightarrow> rewrite_config \<Rightarrow> rewrite_config" where
  "exclude_path p c =
     (if list_ex (path_eq p) (exclude_paths c) then c
      else c\<lparr>exclude_paths := exclude_paths c @ [p]\<rparr>)"

definition exclude_range :: "usize \<Rightarrow> usize \<Rightarrow> rewrite_config \<Rightarrow> rewrite_config" where
  "exclude_range s e c = c\<lparr>exclude_ranges := exclude_ranges c @ [(s, e)]\<rparr>"

definition set_dry_run :: "bool \<Rightarrow> rewrite_config \<Rightarrow> rewrite_config" where
  "set_dry_run enabled c = c\<lparr>dry_run := enabled\<rparr>"

definition is_excluded :: "rewrite_config \<Rightarrow> memory_region \<Rightarrow> bool" where
  "is_excluded c region \<longleftrightarrow>
     (case pathname region of
        None \<Rightarrow> False
      | Some path \<Rightarrow> list_ex (\<lambda>e. path_starts_with path e \<or> path_eq path e) (exclude_paths c)) \<or>
     list_ex (\<lambda>(s, e). mr_start region < e \<and> mr_end region > s) (exclude_ranges c)"

subsection \<open>What exclusion means\<close>

definition excluded_by_path :: "rewrite_config \<Rightarrow> memory_region \<Rightarrow> bool" where
  "excluded_by_path c region \<longleftrightarrow>
     (\<exists>p e. pathname region = Some p \<and> e \<in> set (exclude_paths c) \<and> path_starts_with p e)"

definition excluded_by_range :: "rewrite_config \<Rightarrow> memory_region \<Rightarrow> bool" where
  "excluded_by_range c region \<longleftrightarrow>
     (\<exists>s e. (s, e) \<in> set (exclude_ranges c) \<and> mr_start region < e \<and> s < mr_end region)"

lemma is_excluded_cases: "is_excluded c r \<longleftrightarrow> excluded_by_path c r \<or> excluded_by_range c r"
  by (auto simp: is_excluded_def excluded_by_path_def excluded_by_range_def list_ex_iff
      path_eq_starts_with split: option.splits)

lemma overlap_iff:
  fixes a b s e :: "'a::len word"
  assumes "a < b" "s < e"
  shows "a < e \<and> s < b \<longleftrightarrow> {a..<b} \<inter> {s..<e} \<noteq> {}"
proof
  assume "a < e \<and> s < b"
  with assms have "(if a \<le> s then s else a) \<in> {a..<b} \<inter> {s..<e}" by auto
  then show "{a..<b} \<inter> {s..<e} \<noteq> {}" by blast
next
  assume "{a..<b} \<inter> {s..<e} \<noteq> {}"
  then obtain x where "x \<in> {a..<b}" "x \<in> {s..<e}" by blast
  then have "a \<le> x" "x < b" "s \<le> x" "x < e" by simp_all
  then show "a < e \<and> s < b" by (meson order.strict_trans1)
qed

lemma excluded_by_range_mono:
  "set (exclude_ranges c) \<subseteq> set (exclude_ranges d) \<Longrightarrow> excluded_by_range c r \<Longrightarrow> excluded_by_range d r"
  by (auto simp: excluded_by_range_def)

lemma is_excluded_by_rangeI:
  "(s, e) \<in> set (exclude_ranges c) \<Longrightarrow> mr_start r < e \<Longrightarrow> s < mr_end r \<Longrightarrow> is_excluded c r"
  by (auto simp: is_excluded_cases excluded_by_range_def)

lemma exclude_path_paths:
  "excluded_by_path (exclude_path p c) r \<longleftrightarrow>
     excluded_by_path c r \<or> (\<exists>q. pathname r = Some q \<and> path_starts_with q p)"
proof (cases "list_ex (path_eq p) (exclude_paths c)")
  case True
  then obtain e where e: "e \<in> set (exclude_paths c)" "path_eq p e" by (auto simp: list_ex_iff)
  then have "path_starts_with q e" if "path_starts_with q p" for q
    using that by (simp add: path_starts_with_def path_eq_def)
  with True e(1) show ?thesis by (auto simp: exclude_path_def excluded_by_path_def)
next
  case False
  then show ?thesis by (auto simp: exclude_path_def excluded_by_path_def)
qed

lemma exclude_path_ranges [simp]: "exclude_ranges (exclude_path p c) = exclude_ranges c"
  by (simp add: exclude_path_def)

lemma exclude_path_dry_run [simp]: "dry_run (exclude_path p c) = dry_run c"
  by (simp add: exclude_path_def)

lemma exclude_range_sel [simp]:
  "exclude_ranges (exclude_range s e c) = exclude_ranges c @ [(s, e)]"
  "exclude_paths (exclude_range s e c) = exclude_paths c" "dry_run (exclude_range s e c) = dry_run c"
  by (simp_all add: exclude_range_def)

lemma exclude_range_ranges:
  "excluded_by_range (exclude_range s e c) r \<longleftrightarrow>
     excluded_by_range c r \<or> (mr_start r < e \<and> s < mr_end r)"
  by (auto simp: excluded_by_range_def exclude_range_def)

lemma exclude_range_paths [simp]:
  "excluded_by_path (exclude_range s e c) r = excluded_by_path c r"
  by (simp add: excluded_by_path_def exclude_range_def)

lemma exclude_path_excluded_by_range [simp]:
  "excluded_by_range (exclude_path p c) r = excluded_by_range c r"
  by (simp add: excluded_by_range_def)

lemma is_excluded_exclude_path:
  "is_excluded (exclude_path p c) r \<longleftrightarrow>
     is_excluded c r \<or> (\<exists>q. pathname r = Some q \<and> path_starts_with q p)"
  by (auto simp: is_excluded_cases exclude_path_paths)

lemma is_excluded_exclude_range:
  "is_excluded (exclude_range s e c) r \<longleftrightarrow> is_excluded c r \<or> (mr_start r < e \<and> s < mr_end r)"
  by (auto simp: is_excluded_cases exclude_range_ranges)

lemma is_excluded_new_config [simp]: "\<not> is_excluded new_config r"
  by (simp add: is_excluded_def new_config_def default_config_def split: option.splits)

lemma set_dry_run_excluded [simp]: "is_excluded (set_dry_run b c) r = is_excluded c r"
  by (simp add: is_excluded_def set_dry_run_def split: option.splits)

text \<open>The source's \<open>test_config_builder\<close>.\<close>

lemma test_config_builder:
  "let c = set_dry_run True (exclude_range 0x1000 0x2000 (exclude_path (lit ''/lib/libc.so'') new_config))
   in lit ''/lib/libc.so'' \<in> set (exclude_paths c) \<and> length (exclude_ranges c) = 1 \<and> dry_run c"
  by (simp add: set_dry_run_def exclude_range_def exclude_path_def new_config_def default_config_def)

subsection \<open>Properties\<close>

text \<open>
  A region with a non-empty address range is excluded exactly when some excluded path is a
  component-wise prefix of its path, or its half-open address interval meets one of the excluded
  intervals; the \<open>path == exclude\_path\<close> disjunct of the source adds nothing, since an equal path
  is a prefix.
\<close>

lemma is_excluded_spec:
  assumes "mr_start r < mr_end r" and "\<forall>(s, e)\<in>set (exclude_ranges c). s < e"
  shows "is_excluded c r \<longleftrightarrow>
    (\<exists>p e. pathname r = Some p \<and> e \<in> set (exclude_paths c) \<and> path_starts_with p e) \<or>
    (\<exists>s e. (s, e) \<in> set (exclude_ranges c) \<and> {mr_start r..<mr_end r} \<inter> {s..<e} \<noteq> {})"
proof -
  have "excluded_by_range c r \<longleftrightarrow>
      (\<exists>s e. (s, e) \<in> set (exclude_ranges c) \<and> {mr_start r..<mr_end r} \<inter> {s..<e} \<noteq> {})"
    unfolding excluded_by_range_def using assms overlap_iff [of "mr_start r" "mr_end r"] by blast
  then show ?thesis by (simp add: is_excluded_cases excluded_by_path_def)
qed

definition example_region :: memory_region where
  "example_region = \<lparr>mr_start = 0x1000, mr_end = 0x3000, readable = True, writable = False,
     executable = True, is_private = True, mr_offset = 0, device = lit ''08:01'', inode = 7,
     pathname = Some (lit ''/lib/libc.so'')\<rparr>"

text \<open>
  The builder methods only add: \<open>exclude\_path p\<close> excludes every region whose path lies under
  \<open>p\<close>, \<open>exclude\_range s e\<close> every region overlapping \<open>[s, e)\<close>, and whatever was excluded before
  stays excluded; nothing else becomes excluded.
\<close>

lemma builder_excludes:
  "(is_excluded (exclude_path p c) r \<longleftrightarrow>
      is_excluded c r \<or> (\<exists>q. pathname r = Some q \<and> path_starts_with q p)) \<and>
   (is_excluded (exclude_range s e c) r \<longleftrightarrow>
      is_excluded c r \<or> (mr_start r < e \<and> s < mr_end r)) \<and>
   (is_excluded (set_dry_run b c) r \<longleftrightarrow> is_excluded c r) \<and>
   \<not> is_excluded new_config r"
  by (simp add: is_excluded_exclude_path is_excluded_exclude_range)

end
