(* ===== verification/Decoding.thy ===== *)
theory Decoding
  imports Prelude
begin

section \<open>Finding system call instructions (\<open>Rewriter::find\_syscalls\<close>)\<close>

text \<open>
  The linear sweep over a code slice.  The instruction decoder is the crate \<open>iced\_x86\<close>, so it is
  a parameter: given the instruction pointer and the bytes not yet decoded, the number of bytes
  \<open>Decoder::decode\<close> consumes and the mnemonic it reports.  What the sweep relies on is named below:
  \<open>decoder\_progress\<close> for termination, \<open>decoder\_x86\<close> (which bytes the instructions at hand have) for
  the patching, \<open>decoder\_local\<close> (an instruction is determined by its own bytes) for re-decoding
  patched code.

  The lemmas characterise the result by the instruction boundaries of the sweep: the offsets
  returned are, in increasing order, exactly the boundaries at which the decoder reports a
  \<open>syscall\<close> or a \<open>sysenter\<close>.
\<close>

subsection \<open>The decoder's interface\<close>

text \<open>\<open>Mnemonic\<close> has some two thousand variants; the code tells two of them from the rest.\<close>

datatype mnemonic = MSyscall | MSysenter | MOther

datatype syscall_type = Syscall | Sysenter

type_synonym decoder = "u64 \<Rightarrow> u8 list \<Rightarrow> nat \<times> mnemonic"

definition decoder_progress :: "decoder \<Rightarrow> bool" where
  "decoder_progress dec \<longleftrightarrow>
     (\<forall>ip bs. bs \<noteq> [] \<longrightarrow> 0 < fst (dec ip bs) \<and> fst (dec ip bs) \<le> length bs)"

text \<open>\<open>0f 05\<close> and \<open>0f 34\<close> are the two instructions, \<open>ff d0\<close> is \<open>call rax\<close>, and a
  \<open>syscall\<close> or \<open>sysenter\<close>, prefixes included, has at least its two opcode bytes.\<close>

definition decoder_x86 :: "decoder \<Rightarrow> bool" where
  "decoder_x86 dec \<longleftrightarrow>
     (\<forall>ip bs. dec ip (0x0f # 0x05 # bs) = (2, MSyscall)) \<and>
     (\<forall>ip bs. dec ip (0x0f # 0x34 # bs) = (2, MSysenter)) \<and>
     (\<forall>ip bs. dec ip (0xff # 0xd0 # bs) = (2, MOther)) \<and>
     (\<forall>ip bs. snd (dec ip bs) \<noteq> MOther \<longrightarrow> 2 \<le> fst (dec ip bs))"

definition decoder_local :: "decoder \<Rightarrow> bool" where
  "decoder_local dec \<longleftrightarrow>
     (\<forall>ip bs bs'. length bs = length bs' \<longrightarrow>
        take (fst (dec ip bs)) bs = take (fst (dec ip bs)) bs' \<longrightarrow> dec ip bs' = dec ip bs)"

subsection \<open>The sweep\<close>

definition type_of_mnemonic :: "mnemonic \<Rightarrow> syscall_type option" where
  "type_of_mnemonic m =
     (case m of MSyscall \<Rightarrow> Some Syscall | MSysenter \<Rightarrow> Some Sysenter | MOther \<Rightarrow> None)"

text \<open>The \<open>while decoder.can\_decode()\<close> loop, which no termination argument of its own bounds: it
  is \<open>None\<close> if the decoder stops consuming bytes.  \<open>ip\<close> is the address of the instruction the
  decoder is at, \<open>(instr.ip() as usize) - base\_addr\<close> the offset recorded.\<close>

partial_function (option) find_loop ::
  "decoder \<Rightarrow> u64 \<Rightarrow> u8 list \<Rightarrow> nat \<Rightarrow> (nat \<times> syscall_type) list \<Rightarrow> (nat \<times> syscall_type) list option"
where
  "find_loop dec base code pos reps =
     (if pos < length code then
        find_loop dec base code (pos + fst (dec (base + of_nat pos) (drop pos code)))
          (case type_of_mnemonic (snd (dec (base + of_nat pos) (drop pos code))) of
             Some t \<Rightarrow> reps @ [(unat (base + of_nat pos - base), t)]
           | None \<Rightarrow> reps)
      else Some reps)"

definition find_syscalls :: "decoder \<Rightarrow> u64 \<Rightarrow> u8 list \<Rightarrow> (nat \<times> syscall_type) list option" where
  "find_syscalls dec base code = find_loop dec base code 0 []"

subsection \<open>Instruction boundaries\<close>

definition len_at :: "decoder \<Rightarrow> u64 \<Rightarrow> u8 list \<Rightarrow> nat \<Rightarrow> nat" where
  "len_at dec base code p = fst (dec (base + of_nat p) (drop p code))"

definition kind_at :: "decoder \<Rightarrow> u64 \<Rightarrow> u8 list \<Rightarrow> nat \<Rightarrow> syscall_type option" where
  "kind_at dec base code p = type_of_mnemonic (snd (dec (base + of_nat p) (drop p code)))"

inductive boundary :: "decoder \<Rightarrow> u64 \<Rightarrow> u8 list \<Rightarrow> nat \<Rightarrow> nat \<Rightarrow> bool"
  for dec base code pos where
  boundary_start: "boundary dec base code pos pos"
| boundary_next: "boundary dec base code pos p \<Longrightarrow> p < length code \<Longrightarrow>
     boundary dec base code pos (p + len_at dec base code p)"

definition decoded :: "decoder \<Rightarrow> u64 \<Rightarrow> u8 list \<Rightarrow> nat \<Rightarrow> syscall_type \<Rightarrow> bool" where
  "decoded dec base code p t \<longleftrightarrow>
     boundary dec base code 0 p \<and> p < length code \<and> kind_at dec base code p = Some t"

lemma len_at_bounds:
  assumes "decoder_progress dec" "p < length code"
  shows "0 < len_at dec base code p" "p + len_at dec base code p \<le> length code"
proof -
  from assms(2) have "drop p code \<noteq> []" by simp
  with assms(1) have "0 < len_at dec base code p \<and> len_at dec base code p \<le> length (drop p code)"
    unfolding decoder_progress_def len_at_def by blast
  with assms(2) show "0 < len_at dec base code p" "p + len_at dec base code p \<le> length code"
    by auto
qed

lemma boundary_ge: "boundary dec base code pos p \<Longrightarrow> pos \<le> p"
  by (induction rule: boundary.induct) auto

lemma boundary_step:
  assumes "pos < length code"
  shows "boundary dec base code (pos + len_at dec base code pos) p \<Longrightarrow> boundary dec base code pos p"
  by (induction rule: boundary.induct)
    (use assms in \<open>auto intro: boundary.intros\<close>)

lemma boundary_cases:
  assumes "boundary dec base code pos p" "pos < length code"
  shows "p = pos \<or> boundary dec base code (pos + len_at dec base code pos) p"
  using assms by (induction rule: boundary.induct) (auto intro: boundary.intros)

lemma boundary_iff:
  "pos < length code \<Longrightarrow> boundary dec base code pos p \<longleftrightarrow>
     p = pos \<or> boundary dec base code (pos + len_at dec base code pos) p"
  using boundary_cases boundary_step boundary_start by blast

lemma boundary_beyond:
  assumes "length code \<le> pos" "boundary dec base code pos p"
  shows "p = pos"
  using assms(2,1)
proof (induction rule: boundary.induct)
  case (boundary_next p)
  then show ?case by simp
qed simp

text \<open>The rule the loop proofs go by: from any position, either the code is used up or the
  instruction there is consumed and less code is left.\<close>

lemma sweep_induct [consumes 1, case_names beyond inside]:
  assumes "decoder_progress dec"
    and beyond: "\<And>pos. length code \<le> pos \<Longrightarrow> P pos"
    and inside: "\<And>pos. pos < length code \<Longrightarrow> P (pos + len_at dec base code pos) \<Longrightarrow> P pos"
  shows "P pos"
proof (induction "length code - pos" arbitrary: pos rule: less_induct)
  case less
  show ?case
  proof (cases "pos < length code")
    case True
    with len_at_bounds [OF assms(1) True, of base] have "P (pos + len_at dec base code pos)"
      by (intro less) simp
    with True show ?thesis by (rule inside)
  qed (simp add: beyond)
qed

text \<open>Two boundaries never fall inside one another's instruction.\<close>

lemma boundary_disjoint:
  assumes "decoder_progress dec"
  shows "boundary dec base code pos p \<Longrightarrow> boundary dec base code pos q \<Longrightarrow> p < q \<Longrightarrow>
    p < length code \<Longrightarrow> p + len_at dec base code p \<le> q"
  using assms
proof (induction pos rule: sweep_induct [where code = code and base = base])
  case (beyond pos)
  then show ?case by (auto dest: boundary_beyond)
next
  case (inside pos)
  show ?case
  proof (cases "p = pos")
    case True
    with inside show ?thesis by (auto simp: boundary_iff dest: boundary_ge)
  next
    case False
    with inside.prems inside.hyps boundary_ge [OF inside.prems(1)]
    have "boundary dec base code (pos + len_at dec base code pos) p"
      "boundary dec base code (pos + len_at dec base code pos) q"
      by (auto simp: boundary_iff)
    then show ?thesis using inside.prems by (intro inside.IH)
  qed
qed

subsection \<open>What the sweep returns\<close>

text \<open>The sweep as a total function on offsets, for a decoder that makes progress.\<close>

lemma find_loop_result:
  assumes "decoder_progress dec" "length code < 2 ^ 64"
  shows "\<exists>reps. find_loop dec base code pos acc = Some (acc @ reps) \<and>
    (\<forall>p t. (p, t) \<in> set reps \<longleftrightarrow>
       boundary dec base code pos p \<and> p < length code \<and> kind_at dec base code p = Some t) \<and>
    sorted_wrt (<) (map fst reps)"
  using assms(1)
proof (induction pos arbitrary: acc rule: sweep_induct [where code = code and base = base])
  case (beyond pos)
  then show ?case
    using boundary_beyond [of code pos dec base]
    by (subst find_loop.simps) (fastforce simp: linorder_not_less)
next
  case (inside pos)
  let ?next = "pos + len_at dec base code pos"
  let ?new = "case kind_at dec base code pos of Some t \<Rightarrow> [(pos, t)] | None \<Rightarrow> []"
  obtain reps where reps: "find_loop dec base code ?next (acc @ ?new) = Some ((acc @ ?new) @ reps)"
    "\<forall>p t. (p, t) \<in> set reps \<longleftrightarrow>
       boundary dec base code ?next p \<and> p < length code \<and> kind_at dec base code p = Some t"
    "sorted_wrt (<) (map fst reps)"
    using inside.IH [of "acc @ ?new"] by blast
  have off: "unat (base + of_nat pos - base) = pos"
    using inside.hyps assms(2) by (simp add: unat_of_nat)
  have "find_loop dec base code pos acc = Some (acc @ (?new @ reps))"
    using inside.hyps reps(1) off
    by (subst find_loop.simps) (auto simp: kind_at_def len_at_def split: option.splits)
  moreover have "(p, t) \<in> set (?new @ reps) \<longleftrightarrow>
      boundary dec base code pos p \<and> p < length code \<and> kind_at dec base code p = Some t" for p t
    using inside.hyps reps(2) by (auto simp: boundary_iff split: option.splits)
  moreover have "pos < p" if "p \<in> fst ` set reps" for p
    using that reps(2) boundary_ge len_at_bounds(1) [OF assms(1) inside.hyps, of base] by fastforce
  then have "sorted_wrt (<) (map fst (?new @ reps))"
    using reps(3) by (auto split: option.splits)
  ultimately show ?case by blast
qed

lemma find_syscalls_result:
  assumes "decoder_progress dec" "length code < 2 ^ 64"
  obtains reps where "find_syscalls dec base code = Some reps"
    "\<And>p t. (p, t) \<in> set reps \<longleftrightarrow> decoded dec base code p t"
    "sorted_wrt (<) (map fst reps)"
  using find_loop_result [OF assms, of base 0 "[]"] that
  by (auto simp: find_syscalls_def decoded_def)

lemma decoded_room:
  assumes "decoder_progress dec" "decoder_x86 dec" "decoded dec base code p t"
  shows "p + 2 \<le> length code"
proof -
  from assms(3) have p: "p < length code" and "kind_at dec base code p = Some t"
    by (auto simp: decoded_def)
  then have "snd (dec (base + of_nat p) (drop p code)) \<noteq> MOther"
    by (auto simp: kind_at_def type_of_mnemonic_def)
  with assms(2) have "2 \<le> len_at dec base code p"
    by (simp add: decoder_x86_def len_at_def)
  with len_at_bounds(2) [OF assms(1) p, of base] show ?thesis by linarith
qed

subsection \<open>A concrete decoder, for the witnesses\<close>

text \<open>Enough of an x86 decoder to satisfy the interface: two-byte instructions under \<open>0f\<close> and
  \<open>ff\<close>, one-byte instructions otherwise.\<close>

definition small_decoder :: decoder where
  "small_decoder ip bs =
     (case bs of
        b0 # b1 # _ \<Rightarrow>
          if b0 = 0x0f then (2, if b1 = 0x05 then MSyscall else if b1 = 0x34 then MSysenter else MOther)
          else if b0 = 0xff then (2, MOther) else (1, MOther)
      | _ \<Rightarrow> (1, MOther))"

lemma small_decoder_progress: "decoder_progress small_decoder"
  by (auto simp: decoder_progress_def small_decoder_def split: list.splits)

lemma small_decoder_x86: "decoder_x86 small_decoder"
  by (auto simp: decoder_x86_def small_decoder_def split: list.splits if_splits)

lemma small_decoder_local: "decoder_local small_decoder"
  unfolding decoder_local_def
proof (intro allI impI)
  fix ip and bs bs' :: "u8 list"
  assume "length bs = length bs'"
    and "take (fst (small_decoder ip bs)) bs = take (fst (small_decoder ip bs)) bs'"
  then show "small_decoder ip bs' = small_decoder ip bs"
    by (auto simp: small_decoder_def split: list.splits if_splits)
qed

text \<open>The source's \<open>test\_find\_syscall\_in\_code\<close>, with this decoder.\<close>

lemma test_find_syscall_in_code:
  "find_syscalls small_decoder 0x1000 [0x48, 0xc7, 0xc0, 0x01, 0x00, 0x00, 0x00, 0x0f, 0x05, 0xc3] =
   Some [(7, Syscall)]"
  by (simp add: find_syscalls_def find_loop.simps small_decoder_def type_of_mnemonic_def)

subsection \<open>Properties\<close>

text \<open>
  C27: for a decoder that consumes at least one byte per instruction, the sweep over any slice
  terminates and returns the decoded \<open>syscall\<close> and \<open>sysenter\<close> instructions, each exactly once, with
  its type, at its offset in the slice, in increasing order, and nothing else.
\<close>

theorem find_syscalls_spec:
  assumes "decoder_progress dec" and "length code < 2 ^ 64"
  shows "\<exists>reps. find_syscalls dec base code = Some reps \<and>
    (\<forall>p t. (p, t) \<in> set reps \<longleftrightarrow> decoded dec base code p t) \<and>
    sorted_wrt (<) (map fst reps)"
  using assms by (rule find_syscalls_result) blast

theorem find_syscalls_spec_witness:
  "\<exists>reps. find_syscalls small_decoder 0x1000 [0x90, 0x0f, 0x05] = Some reps \<and>
    (\<forall>p t. (p, t) \<in> set reps \<longleftrightarrow> decoded small_decoder 0x1000 [0x90, 0x0f, 0x05] p t) \<and>
    sorted_wrt (<) (map fst reps)"
  using find_syscalls_spec [OF small_decoder_progress, where code = "[0x90, 0x0f, 0x05]" and base = "0x1000"]
  by simp

end
