(* ===== verification/Rewriter.thy ===== *)
theory Rewriter
  imports RewriteConfig Decoding
begin

section \<open>Rewriting one memory region (\<open>zpoline\_rewriter/src/rewriter.rs\<close>)\<close>

text \<open>
  \<open>RewriteError\<close>, \<open>RewriteStats\<close>, \<open>Rewriter\<close> and \<open>rewrite\_region\<close>, on a process state that holds
  the bytes of the address space and the kernel's state.  \<open>mprotect\<close>, the page size and the
  decoder are the operations the code imports; they come in the record \<open>platform\<close>.

  The patch loop works on the slice \<open>code\_slice\_mut\<close>, which is the region's memory: it is read
  from the state, patched, and written back.  An index out of range is the outcome \<open>Panicked\<close>, a
  decoder that stops consuming is \<open>Loops\<close>; the lemmas show that neither happens for a decoder
  with the documented behaviour.
\<close>

subsection \<open>Errors, statistics, protections\<close>

type_synonym errno = i32

datatype rewrite_error = ProtectError errno | DecodeError rstr | OtherError rstr

definition display_rewrite_error :: "(errno \<Rightarrow> rstr) \<Rightarrow> rewrite_error \<Rightarrow> rstr" where
  "display_rewrite_error show_errno err =
     (case err of
        ProtectError e \<Rightarrow> lit ''Memory protection error: '' @ show_errno e
      | DecodeError s \<Rightarrow> lit ''Decode error: '' @ s
      | OtherError s \<Rightarrow> lit ''Error: '' @ s)"

record rewrite_stats =
  regions_scanned :: usize
  regions_rewritten :: usize
  syscalls_replaced :: usize
  sysenters_replaced :: usize
  regions_skipped :: usize

definition default_stats :: rewrite_stats where
  "default_stats = \<lparr>regions_scanned = 0, regions_rewritten = 0, syscalls_replaced = 0,
     sysenters_replaced = 0, regions_skipped = 0\<rparr>"

record rewriter =
  config :: rewrite_config
  stats :: rewrite_stats

definition new_rewriter :: "rewrite_config \<Rightarrow> rewriter" where
  "new_rewriter c = \<lparr>config = c, stats = default_stats\<rparr>"

definition get_stats :: "rewriter \<Rightarrow> rewrite_stats" where
  "get_stats rw = stats rw"

definition reset_stats :: "rewriter \<Rightarrow> rewriter" where
  "reset_stats rw = rw\<lparr>stats := default_stats\<rparr>"

text \<open>\<open>ProtFlags\<close>, as the sets of access rights the flags stand for.\<close>

datatype prot_flag = PROT_READ | PROT_WRITE | PROT_EXEC

type_synonym prot = "prot_flag set"

subsection \<open>The process and the platform\<close>

record 'os process =
  mem :: "u64 \<Rightarrow> u8"
  os :: 'os

record 'os platform =
  page_size :: usize
  mprotect :: "usize \<Rightarrow> usize \<Rightarrow> prot \<Rightarrow> 'os \<Rightarrow> errno option \<times> 'os"
  decode :: decoder

datatype outcome = Returned "rewrite_error + usize" | Panicked | Loops

definition read_slice :: "(u64 \<Rightarrow> u8) \<Rightarrow> u64 \<Rightarrow> nat \<Rightarrow> u8 list" where
  "read_slice m start n = map (\<lambda>i. m (start + of_nat i)) [0..<n]"

definition write_slice :: "(u64 \<Rightarrow> u8) \<Rightarrow> u64 \<Rightarrow> u8 list \<Rightarrow> u64 \<Rightarrow> u8" where
  "write_slice m start xs = (\<lambda>a. if unat (a - start) < length xs then xs ! unat (a - start) else m a)"

subsection \<open>The patch loop\<close>

definition count_replacement :: "syscall_type \<Rightarrow> rewrite_stats \<Rightarrow> rewrite_stats" where
  "count_replacement t st =
     (case t of
        Syscall \<Rightarrow> st\<lparr>syscalls_replaced := syscalls_replaced st + 1\<rparr>
      | Sysenter \<Rightarrow> st\<lparr>sysenters_replaced := sysenters_replaced st + 1\<rparr>)"

text \<open>\<open>Inl\<close> is the state at an out-of-range index.\<close>

type_synonym patch_state = "u8 list \<times> rewrite_stats \<times> usize"

fun patch_loop :: "(nat \<times> syscall_type) list \<Rightarrow> patch_state \<Rightarrow> patch_state + patch_state" where
  "patch_loop [] (code, st, n) = Inr (code, st, n)"
| "patch_loop ((offset, t) # reps) (code, st, n) =
     (if length code \<le> offset then Inl (code, st, n)
      else if code ! offset = 0x0f then
        (if length code \<le> offset + 1 then Inl (code, st, n)
         else if code ! (offset + 1) = 0x05 \<or> code ! (offset + 1) = 0x34 then
           patch_loop reps
             (code[offset := 0xff, offset + 1 := 0xd0], count_replacement t st, n + 1)
         else patch_loop reps (code, st, n))
      else patch_loop reps (code, st, n))"

subsection \<open>One region\<close>

definition original_prot :: "memory_region \<Rightarrow> prot" where
  "original_prot region =
     (if is_writable region then {PROT_READ, PROT_WRITE, PROT_EXEC} else {PROT_READ, PROT_EXEC})"

definition aligned_start :: "usize \<Rightarrow> memory_region \<Rightarrow> usize" where
  "aligned_start ps region = (mr_start region div ps) * ps"

definition aligned_size :: "usize \<Rightarrow> memory_region \<Rightarrow> usize" where
  "aligned_size ps region =
     ((mr_end region - aligned_start ps region + ps - 1) div ps) * ps"

text \<open>One \<open>mprotect\<close> of the region's pages: \<open>NonNull::new\<close> rejects page 0, a failure of the
  call becomes \<open>ProtectError\<close>.\<close>

definition protect_pages ::
  "'os platform \<Rightarrow> memory_region \<Rightarrow> prot \<Rightarrow> 'os process \<Rightarrow> rewrite_error option \<times> 'os process" where
  "protect_pages P region prot s =
     (let start = aligned_start (page_size P) region in
      if start = 0 then (Some (OtherError (lit ''Invalid pointer'')), s)
      else case mprotect P start (aligned_size (page_size P) region) prot (os s) of
             (Some e, os') \<Rightarrow> (Some (ProtectError e), s\<lparr>os := os'\<rparr>)
           | (None, os') \<Rightarrow> (None, s\<lparr>os := os'\<rparr>))"

text \<open>From the first \<open>mprotect\<close> to the end of \<open>rewrite\_region\<close>.\<close>

definition patch_region ::
  "'os platform \<Rightarrow> memory_region \<Rightarrow> (nat \<times> syscall_type) list \<Rightarrow> rewriter \<Rightarrow> 'os process \<Rightarrow>
   outcome \<times> rewriter \<times> 'os process" where
  "patch_region P region reps rw s =
     (case protect_pages P region {PROT_READ, PROT_WRITE, PROT_EXEC} s of
        (Some e, s1) \<Rightarrow> (Returned (Inl e), rw, s1)
      | (None, s1) \<Rightarrow>
          (let code = read_slice (mem s1) (mr_start region) (unat (region_size region)) in
           case patch_loop reps (code, stats rw, 0) of
             Inl (code', st, n) \<Rightarrow>
               (Panicked, rw\<lparr>stats := st\<rparr>, s1\<lparr>mem := write_slice (mem s1) (mr_start region) code'\<rparr>)
           | Inr (code', st, n) \<Rightarrow>
               (let rw' = rw\<lparr>stats := st\<rparr>;
                    s2 = s1\<lparr>mem := write_slice (mem s1) (mr_start region) code'\<rparr> in
                case protect_pages P region (original_prot region) s2 of
                  (Some e, s3) \<Rightarrow> (Returned (Inl e), rw', s3)
                | (None, s3) \<Rightarrow>
                    (Returned (Inr n),
                     (if 0 < n then rw'\<lparr>stats := st\<lparr>regions_rewritten := regions_rewritten st + 1\<rparr>\<rparr>
                      else rw'), s3))))"

definition rewrite_region ::
  "'os platform \<Rightarrow> memory_region \<Rightarrow> rewriter \<Rightarrow> 'os process \<Rightarrow> outcome \<times> rewriter \<times> 'os process" where
  "rewrite_region P region rw s =
     (let st = stats rw; rw = rw\<lparr>stats := st\<lparr>regions_scanned := regions_scanned st + 1\<rparr>\<rparr> in
      if \<not> is_executable region then (Returned (Inr 0), rw, s)
      else if is_excluded (config rw) region then
        (Returned (Inr 0),
         rw\<lparr>stats := (stats rw)\<lparr>regions_skipped := regions_skipped (stats rw) + 1\<rparr>\<rparr>, s)
      else
        (let code = read_slice (mem s) (mr_start region) (unat (region_size region)) in
         case find_syscalls (decode P) (mr_start region) code of
           None \<Rightarrow> (Loops, rw, s)
         | Some replacements \<Rightarrow>
             if replacements = [] then (Returned (Inr 0), rw, s)
             else if dry_run (config rw) then
               (Returned (Inr (of_nat (length replacements))),
                rw\<lparr>stats := (stats rw)\<lparr>syscalls_replaced :=
                     syscalls_replaced (stats rw) + of_nat (length replacements)\<rparr>\<rparr>, s)
             else patch_region P region replacements rw s))"

subsection \<open>What the patch loop computes\<close>

text \<open>A replaceable site: the two opcode bytes, unprefixed, inside the slice.  \<open>patched\<close> is the
  slice with the sites among the offsets \<open>S\<close> replaced by \<open>call rax\<close>.\<close>

definition is_site :: "u8 list \<Rightarrow> nat \<Rightarrow> bool" where
  "is_site code p \<longleftrightarrow>
     p + 1 < length code \<and> code ! p = 0x0f \<and> (code ! (p + 1) = 0x05 \<or> code ! (p + 1) = 0x34)"

definition patched :: "u8 list \<Rightarrow> nat set \<Rightarrow> u8 list" where
  "patched code S = map (\<lambda>j.
     if j \<in> S \<and> is_site code j then 0xff
     else if 0 < j \<and> j - 1 \<in> S \<and> is_site code (j - 1) then 0xd0
     else code ! j) [0..<length code]"

definition sites_of :: "u8 list \<Rightarrow> (nat \<times> syscall_type) list \<Rightarrow> (nat \<times> syscall_type) list" where
  "sites_of code reps = filter (\<lambda>(p, t). is_site code p) reps"

lemma length_patched [simp]: "length (patched code S) = length code"
  by (simp add: patched_def)

lemma patched_nth [simp]:
  "j < length code \<Longrightarrow> patched code S ! j =
     (if j \<in> S \<and> is_site code j then 0xff
      else if 0 < j \<and> j - 1 \<in> S \<and> is_site code (j - 1) then 0xd0 else code ! j)"
  by (simp add: patched_def)

lemma patched_none: "(\<And>p. p \<in> S \<Longrightarrow> \<not> is_site code p) \<Longrightarrow> patched code S = code"
  by (rule nth_equalityI) auto

lemma patched_insert_none: "\<not> is_site code p \<Longrightarrow> patched code (insert p S) = patched code S"
  by (rule nth_equalityI) auto

lemma patched_empty [simp]: "patched code {} = code"
  by (rule patched_none) simp

lemma is_siteD:
  assumes "is_site code p"
  shows "Suc p < length code" "p < length code" "code ! p = 0x0f"
    "code ! Suc p = 0x05 \<or> code ! Suc p = 0x34" "code ! Suc p \<noteq> 0x0f"
  using assms by (auto simp: is_site_def)

lemma is_site_patch:
  assumes "is_site code p"
  shows "is_site (code[p := 0xff, Suc p := 0xd0]) q \<longleftrightarrow> is_site code q \<and> q \<noteq> p"
  using is_siteD [OF assms] by (auto simp: is_site_def nth_list_update)

lemma is_site_neighbour:
  assumes "is_site code p"
  shows "\<not> is_site code (Suc p)" "0 < p \<Longrightarrow> \<not> is_site code (p - 1)"
  using is_siteD [OF assms] by (auto simp: is_site_def)

lemma patched_insert_site:
  assumes "is_site code p"
  shows "patched (code[p := 0xff, Suc p := 0xd0]) S = patched code (insert p S)"
proof (rule nth_equalityI)
  note site = is_siteD [OF assms] is_site_neighbour [OF assms]
  fix j
  assume "j < length (patched (code[p := 0xff, Suc p := 0xd0]) S)"
  then have j: "j < length code" by simp
  consider "j = p" | "j = Suc p" | "j \<noteq> p" "j \<noteq> Suc p" by blast
  then show "patched (code[p := 0xff, Suc p := 0xd0]) S ! j = patched code (insert p S) ! j"
  proof cases
    case 1
    have "0 < p \<Longrightarrow> \<not> is_site code (p - Suc 0)" using site by simp
    with 1 site assms show ?thesis
      by (simp add: is_site_patch [OF assms] patched_def del: upt_Suc) auto
  next
    case 2
    with site assms show ?thesis by (simp add: is_site_patch [OF assms])
  next
    case 3
    then have "0 < j \<Longrightarrow> j - 1 \<noteq> p" by auto
    with 3 j show ?thesis by (cases j) (auto simp: is_site_patch [OF assms])
  qed
qed simp

lemma sites_of_patch:
  assumes "is_site code p" "p \<notin> fst ` set reps"
  shows "sites_of (code[p := 0xff, Suc p := 0xd0]) reps = sites_of code reps"
  unfolding sites_of_def
proof (rule filter_cong)
  fix r
  assume "r \<in> set reps"
  with assms(2) have "fst r \<noteq> p" by auto
  then show "(case r of (q, t) \<Rightarrow> is_site (code[p := 0xff, Suc p := 0xd0]) q) =
      (case r of (q, t) \<Rightarrow> is_site code q)"
    by (cases r) (simp add: is_site_patch [OF assms(1)])
qed simp

text \<open>The loop, for offsets with room for an instruction: it does not panic, patches exactly the
  sites, and counts them by type and in all.\<close>

lemma patch_loop_result:
  assumes "\<forall>(p, t)\<in>set reps. p + 2 \<le> length code" "distinct (map fst reps)"
  shows "patch_loop reps (code, st, n) =
    Inr (patched code (fst ` set reps),
         fold count_replacement (map snd (sites_of code reps)) st,
         n + of_nat (length (sites_of code reps)))"
  using assms
proof (induction reps arbitrary: code st n)
  case Nil
  then show ?case by (simp add: sites_of_def)
next
  case (Cons rep reps)
  obtain p t where rep: "rep = (p, t)" by (cases rep)
  from Cons.prems rep have p: "p + 2 \<le> length code" "p \<notin> fst ` set reps" by auto
  show ?case
  proof (cases "is_site code p")
    case True
    let ?code = "code[p := 0xff, Suc p := 0xd0]"
    have "patch_loop (rep # reps) (code, st, n) = patch_loop reps (?code, count_replacement t st, n + 1)"
      using True p rep by (simp add: is_site_def)
    also have "\<dots> = Inr (patched ?code (fst ` set reps),
        fold count_replacement (map snd (sites_of ?code reps)) (count_replacement t st),
        n + 1 + of_nat (length (sites_of ?code reps)))"
      using Cons.prems by (intro Cons.IH) auto
    finally show ?thesis
      using True p(2) rep by (simp add: sites_of_patch patched_insert_site) (simp add: sites_of_def)
  next
    case False
    have "patch_loop (rep # reps) (code, st, n) = patch_loop reps (code, st, n)"
      using False p rep by (auto simp: is_site_def)
    also have "\<dots> = Inr (patched code (fst ` set reps),
        fold count_replacement (map snd (sites_of code reps)) st,
        n + of_nat (length (sites_of code reps)))"
      using Cons.prems by (intro Cons.IH) auto
    finally show ?thesis
      using False rep by (simp add: sites_of_def patched_insert_none)
  qed
qed

lemma fold_count_replacement:
  "fold count_replacement ts st =
     st\<lparr>syscalls_replaced := syscalls_replaced st + of_nat (count_list ts Syscall),
        sysenters_replaced := sysenters_replaced st + of_nat (count_list ts Sysenter)\<rparr>"
  by (induction ts arbitrary: st) (auto simp: count_replacement_def split: syscall_type.splits)

subsection \<open>Reading and writing the slice\<close>

definition region_code :: "'os process \<Rightarrow> memory_region \<Rightarrow> u8 list" where
  "region_code s region = read_slice (mem s) (mr_start region) (unat (region_size region))"

definition in_region :: "memory_region \<Rightarrow> u64 \<Rightarrow> bool" where
  "in_region region a \<longleftrightarrow> unat (a - mr_start region) < unat (region_size region)"

lemma length_read_slice [simp]: "length (read_slice m start n) = n"
  by (simp add: read_slice_def)

lemma length_region_code [simp]: "length (region_code s region) = unat (region_size region)"
  by (simp add: region_code_def)

lemma region_code_small: "length (region_code s region) < 2 ^ 64"
  using unsigned_less [of "region_size region"] by simp

lemma region_code_nth [simp]:
  "i < unat (region_size region) \<Longrightarrow> region_code s region ! i = mem s (mr_start region + of_nat i)"
  by (simp add: region_code_def read_slice_def)

lemma region_code_cong: "mem s = mem s' \<Longrightarrow> region_code s region = region_code s' region"
  by (simp add: region_code_def)

lemma unat_offset:
  "i < unat (region_size region) \<Longrightarrow> unat (mr_start region + of_nat i - mr_start region) = i"
  by simp

lemma write_slice_outside:
  "\<not> in_region region a \<Longrightarrow> length xs = unat (region_size region) \<Longrightarrow>
   write_slice m (mr_start region) xs a = m a"
  by (simp add: write_slice_def in_region_def)

lemma read_write_slice:
  assumes "length xs = unat (region_size region)"
  shows "read_slice (write_slice m (mr_start region) xs) (mr_start region) (unat (region_size region)) = xs"
  using assms by (intro nth_equalityI) (simp_all add: read_slice_def write_slice_def unat_offset)

lemma write_read_slice:
  "write_slice m start (read_slice m start n) = m"
  by (rule ext) (simp add: write_slice_def read_slice_def)

lemma address_of_offset:
  "in_region region a \<Longrightarrow> a = mr_start region + of_nat (unat (a - mr_start region))"
  by simp

subsection \<open>The two protection changes\<close>

lemma protect_pages_mem: "protect_pages P region prot s = (r, s') \<Longrightarrow> mem s' = mem s"
  by (auto simp: protect_pages_def Let_def split: if_splits prod.splits option.splits)

lemma patch_loop_length:
  "patch_loop reps (code, st, n) = Inl (code', st', n') \<or> patch_loop reps (code, st, n) = Inr (code', st', n')
   \<Longrightarrow> length code' = length code"
  by (induction reps "(code, st, n)" arbitrary: code st n rule: patch_loop.induct)
    (auto split: if_splits)

lemmas patch_loop_length_cases = patch_loop_length [OF disjI1] patch_loop_length [OF disjI2]

text \<open>Frame, for any outcome: bytes outside the region are not touched.\<close>

lemma patch_region_frame:
  assumes "patch_region P region reps rw s = (out, rw', s')" "\<not> in_region region a"
  shows "mem s' a = mem s a"
proof -
  obtain e s1 where s1: "protect_pages P region {PROT_READ, PROT_WRITE, PROT_EXEC} s = (e, s1)"
    by fastforce
  let ?code = "read_slice (mem s1) (mr_start region) (unat (region_size region))"
  have m1: "mem s1 = mem s" using s1 by (rule protect_pages_mem)
  show ?thesis
  proof (cases e)
    case (Some e')
    with assms(1) s1 m1 show ?thesis by (auto simp: patch_region_def)
  next
    case None
    obtain c st n where c: "patch_loop reps (?code, stats rw, 0) = Inl (c, st, n) \<or>
        patch_loop reps (?code, stats rw, 0) = Inr (c, st, n)"
      by (metis old.sum.exhaust prod_cases3)
    then have "length c = unat (region_size region)" by (auto dest: patch_loop_length_cases)
    then have "write_slice (mem s1) (mr_start region) c a = mem s a"
      using assms(2) m1 by (simp add: write_slice_outside)
    with c assms(1) s1 None m1 show ?thesis
      by (auto simp: patch_region_def Let_def split: sum.splits prod.splits option.splits
          dest!: protect_pages_mem)
  qed
qed

lemma rewrite_region_frame:
  assumes "rewrite_region P region rw s = (out, rw', s')"
    and "\<not> in_region region a \<or> \<not> is_executable region \<or> is_excluded (config rw) region \<or>
      dry_run (config rw)"
  shows "mem s' a = mem s a"
  using assms by (auto simp: rewrite_region_def Let_def split: if_splits option.splits
      dest: patch_region_frame)

text \<open>The configuration is never changed.\<close>

lemma patch_region_config:
  "patch_region P region reps rw s = (out, rw', s') \<Longrightarrow> config rw' = config rw"
  by (auto simp: patch_region_def Let_def split: if_splits sum.splits prod.splits option.splits)

lemma rewrite_region_config:
  "rewrite_region P region rw s = (out, rw', s') \<Longrightarrow> config rw' = config rw"
  by (auto simp: rewrite_region_def Let_def split: if_splits option.splits dest: patch_region_config)

subsection \<open>The whole operation\<close>

text \<open>The platform's documented behaviour: the decoder's, and none of its protection.\<close>

definition good_platform :: "'os platform \<Rightarrow> bool" where
  "good_platform P \<longleftrightarrow> decoder_progress (decode P) \<and> decoder_x86 (decode P)"

definition region_decoded :: "'os platform \<Rightarrow> memory_region \<Rightarrow> 'os process \<Rightarrow> nat \<Rightarrow> syscall_type \<Rightarrow> bool" where
  "region_decoded P region s p t \<longleftrightarrow> decoded (decode P) (mr_start region) (region_code s region) p t"

text \<open>The offsets \<open>rewrite\_region\<close> replaces: decoded, and unprefixed.\<close>

definition replaceable :: "'os platform \<Rightarrow> memory_region \<Rightarrow> 'os process \<Rightarrow> nat set" where
  "replaceable P region s =
     {p. (\<exists>t. region_decoded P region s p t) \<and> is_site (region_code s region) p}"

definition rewritten_code :: "'os platform \<Rightarrow> memory_region \<Rightarrow> 'os process \<Rightarrow> u8 list" where
  "rewritten_code P region s = patched (region_code s region) (replaceable P region s)"

definition rewritten_mem :: "'os platform \<Rightarrow> memory_region \<Rightarrow> 'os process \<Rightarrow> u64 \<Rightarrow> u8" where
  "rewritten_mem P region s = write_slice (mem s) (mr_start region) (rewritten_code P region s)"

lemma patched_sites: "patched code S = patched code {p \<in> S. is_site code p}"
  by (rule nth_equalityI) auto

text \<open>The replacements found in a region, and what the patch loop makes of them.\<close>

lemma region_replacements:
  assumes "good_platform P"
  obtains reps where
    "find_syscalls (decode P) (mr_start region) (region_code s region) = Some reps"
    "\<And>p t. (p, t) \<in> set reps \<longleftrightarrow> region_decoded P region s p t"
    "distinct (map fst reps)"
    "\<And>st n. patch_loop reps (region_code s region, st, n) =
       Inr (rewritten_code P region s,
            fold count_replacement (map snd (sites_of (region_code s region) reps)) st,
            n + of_nat (card (replaceable P region s)))"
    "length (sites_of (region_code s region) reps) = card (replaceable P region s)"
proof -
  let ?code = "region_code s region"
  have progress: "decoder_progress (decode P)" and x86: "decoder_x86 (decode P)"
    using assms by (auto simp: good_platform_def)
  obtain reps where reps: "find_syscalls (decode P) (mr_start region) ?code = Some reps"
    "\<And>p t. (p, t) \<in> set reps \<longleftrightarrow> region_decoded P region s p t"
    and sorted: "sorted_wrt (<) (map fst reps)"
    using find_syscalls_result [OF progress region_code_small]
    unfolding region_decoded_def by metis
  have distinct: "distinct (map fst reps)"
    using sorted strict_sorted_iff by blast
  have room: "\<forall>(p, t)\<in>set reps. p + 2 \<le> length ?code"
    using decoded_room [OF progress x86] reps(2) unfolding region_decoded_def by blast
  have sites: "fst ` set (sites_of ?code reps) = replaceable P region s"
    using reps(2) by (force simp: sites_of_def replaceable_def image_iff)
  have "distinct (map fst (sites_of ?code reps))"
    using distinct unfolding sites_of_def by (rule distinct_map_filter)
  then have card: "length (sites_of ?code reps) = card (replaceable P region s)"
    using sites distinct_card [of "map fst (sites_of ?code reps)"] by simp
  have "patched ?code (fst ` set reps) = rewritten_code P region s"
    unfolding rewritten_code_def patched_sites [of ?code "fst ` set reps"]
    using sites by (simp add: sites_of_def) (rule arg_cong [where f = "patched ?code"], force)
  with patch_loop_result [OF room distinct] card
  have "patch_loop reps (?code, st, n) =
       Inr (rewritten_code P region s,
            fold count_replacement (map snd (sites_of ?code reps)) st,
            n + of_nat (card (replaceable P region s)))" for st n
    by simp
  with reps distinct card show thesis by (intro that)
qed

lemma length_rewritten_code [simp]:
  "length (rewritten_code P region s) = unat (region_size region)"
  by (simp add: rewritten_code_def)

lemma region_code_rewritten:
  "mem s' = rewritten_mem P region s \<Longrightarrow> region_code s' region = rewritten_code P region s"
  by (simp add: region_code_def rewritten_mem_def read_write_slice)

lemma rewritten_mem_outside:
  "\<not> in_region region a \<Longrightarrow> rewritten_mem P region s a = mem s a"
  by (simp add: rewritten_mem_def write_slice_outside)

text \<open>Byte by byte, on addresses.\<close>

lemma replaceable_in_region:
  "p \<in> replaceable P region s \<Longrightarrow> Suc p < unat (region_size region)"
  by (auto simp: replaceable_def dest: is_siteD)

lemma offset_of_address:
  "p < unat (region_size region) \<Longrightarrow>
   a = mr_start region + of_nat p \<longleftrightarrow> in_region region a \<and> unat (a - mr_start region) = p"
  by (auto simp: in_region_def)

lemma rewritten_mem_at:
  "rewritten_mem P region s a =
     (if \<exists>p\<in>replaceable P region s. a = mr_start region + of_nat p then 0xff
      else if \<exists>p\<in>replaceable P region s. a = mr_start region + of_nat (Suc p) then 0xd0
      else mem s a)"
proof (cases "in_region region a")
  case True
  let ?j = "unat (a - mr_start region)"
  have at: "a = mr_start region + of_nat p \<longleftrightarrow> ?j = p" if "p < unat (region_size region)" for p
    using offset_of_address [OF that] True by simp
  have "(\<exists>p\<in>replaceable P region s. a = mr_start region + of_nat p) \<longleftrightarrow> ?j \<in> replaceable P region s"
    using at replaceable_in_region by (metis Suc_lessD)
  moreover have "(\<exists>p\<in>replaceable P region s. a = mr_start region + of_nat (Suc p)) \<longleftrightarrow>
      0 < ?j \<and> ?j - 1 \<in> replaceable P region s"
    using at replaceable_in_region by (metis Suc_pred diff_Suc_1 zero_less_Suc)
  moreover have "p \<in> replaceable P region s \<Longrightarrow> is_site (region_code s region) p" for p
    by (simp add: replaceable_def)
  moreover have "region_code s region ! ?j = mem s a" "?j < unat (region_size region)"
    using True by (simp_all add: in_region_def)
  ultimately show ?thesis
    by (auto simp: rewritten_mem_def write_slice_def rewritten_code_def simp del: region_code_nth)
next
  case False
  have "\<not> (\<exists>p\<in>replaceable P region s. a = mr_start region + of_nat p)"
    "\<not> (\<exists>p\<in>replaceable P region s. a = mr_start region + of_nat (Suc p))"
    using False replaceable_in_region offset_of_address by (metis Suc_lessD)+
  with False show ?thesis by (simp add: rewritten_mem_outside)
qed

text \<open>The counters after a successful or half-successful patch.\<close>

definition site_count :: "'os platform \<Rightarrow> memory_region \<Rightarrow> 'os process \<Rightarrow> syscall_type \<Rightarrow> nat" where
  "site_count P region s t =
     card {p \<in> replaceable P region s. region_decoded P region s p t}"

definition patched_stats ::
  "'os platform \<Rightarrow> memory_region \<Rightarrow> 'os process \<Rightarrow> rewrite_stats \<Rightarrow> rewrite_stats" where
  "patched_stats P region s st = st\<lparr>
     syscalls_replaced := syscalls_replaced st + of_nat (site_count P region s Syscall),
     sysenters_replaced := sysenters_replaced st + of_nat (site_count P region s Sysenter)\<rparr>"

lemma region_decoded_unique:
  "region_decoded P region s p t \<Longrightarrow> region_decoded P region s p t' \<Longrightarrow> t = t'"
  by (simp add: region_decoded_def decoded_def)

lemma count_sites:
  assumes "distinct (map fst reps)" "\<And>p t. (p, t) \<in> set reps \<longleftrightarrow> region_decoded P region s p t"
  shows "count_list (map snd (sites_of (region_code s region) reps)) t = site_count P region s t"
proof -
  let ?sites = "filter (\<lambda>r. snd r = t) (sites_of (region_code s region) reps)"
  have "count_list (map snd (sites_of (region_code s region) reps)) t = length ?sites"
    by (induction reps) (auto simp: sites_of_def)
  also have "distinct (map fst ?sites)"
    using assms(1) unfolding sites_of_def by (intro distinct_map_filter)
  then have "length ?sites = card (fst ` set ?sites)"
    using distinct_card [of "map fst ?sites"] by simp
  also have "fst ` set ?sites = {p \<in> replaceable P region s. region_decoded P region s p t}"
    using assms(2) by (force simp: sites_of_def replaceable_def image_iff)
  finally show ?thesis by (simp add: site_count_def)
qed

text \<open>\<open>rewrite\_region\<close> on a region it does not skip, as one equation.\<close>

definition scanned :: "rewriter \<Rightarrow> rewriter" where
  "scanned rw = rw\<lparr>stats := (stats rw)\<lparr>regions_scanned := regions_scanned (stats rw) + 1\<rparr>\<rparr>"

lemma scanned_config [simp]: "config (scanned rw) = config rw"
  by (simp add: scanned_def)

lemma rewrite_region_skip:
  "\<not> is_executable region \<Longrightarrow> rewrite_region P region rw s = (Returned (Inr 0), scanned rw, s)"
  "is_executable region \<Longrightarrow> is_excluded (config rw) region \<Longrightarrow> rewrite_region P region rw s =
     (Returned (Inr 0), (scanned rw)\<lparr>stats := (stats (scanned rw))\<lparr>regions_skipped :=
        regions_skipped (stats rw) + 1\<rparr>\<rparr>, s)"
  by (simp_all add: rewrite_region_def Let_def scanned_def)

text \<open>What patching comes to when the decoder behaves: the result of the two protection changes
  decides, and in between every replaceable instruction is replaced.\<close>

definition patch_result ::
  "'os platform \<Rightarrow> memory_region \<Rightarrow> rewriter \<Rightarrow> 'os process \<Rightarrow> outcome \<times> rewriter \<times> 'os process" where
  "patch_result P region rw s =
     (case protect_pages P region {PROT_READ, PROT_WRITE, PROT_EXEC} s of
        (Some e, s1) \<Rightarrow> (Returned (Inl e), rw, s1)
      | (None, s1) \<Rightarrow>
          (let st = patched_stats P region s (stats rw);
               n = of_nat (card (replaceable P region s)) in
           case protect_pages P region (original_prot region)
                  (s1\<lparr>mem := rewritten_mem P region s\<rparr>) of
             (Some e, s3) \<Rightarrow> (Returned (Inl e), rw\<lparr>stats := st\<rparr>, s3)
           | (None, s3) \<Rightarrow>
               (Returned (Inr n),
                (if 0 < n then rw\<lparr>stats := st\<lparr>regions_rewritten := regions_rewritten st + 1\<rparr>\<rparr>
                 else rw\<lparr>stats := st\<rparr>), s3)))"

definition dry_result :: "nat \<Rightarrow> rewriter \<Rightarrow> 'os process \<Rightarrow> outcome \<times> rewriter \<times> 'os process" where
  "dry_result n rw s =
     (Returned (Inr (of_nat n)),
      rw\<lparr>stats := (stats rw)\<lparr>syscalls_replaced := syscalls_replaced (stats rw) + of_nat n\<rparr>\<rparr>, s)"

lemma patch_region_result:
  assumes "\<And>st n. patch_loop reps (region_code s region, st, n) =
       Inr (rewritten_code P region s, patched_stats P region s st,
            n + of_nat (card (replaceable P region s)))"
  shows "patch_region P region reps rw s = patch_result P region rw s"
proof -
  have code: "mem s1 = mem s" if "protect_pages P region prot s = (e, s1)" for prot e s1
    using that by (rule protect_pages_mem)
  show ?thesis
    by (cases "protect_pages P region {PROT_READ, PROT_WRITE, PROT_EXEC} s")
      (auto simp: patch_region_def patch_result_def Let_def code assms [unfolded region_code_def]
        rewritten_mem_def split: option.splits prod.splits)
qed

lemma rewrite_region_active:
  assumes "good_platform P" "is_executable region" "\<not> is_excluded (config rw) region"
  obtains reps where
    "rewrite_region P region rw s =
       (if reps = [] then (Returned (Inr 0), scanned rw, s)
        else if dry_run (config rw) then dry_result (length reps) (scanned rw) s
        else patch_result P region (scanned rw) s)"
    "set reps = {(p, t). region_decoded P region s p t}" "distinct (map fst reps)"
proof -
  obtain reps where reps:
    "find_syscalls (decode P) (mr_start region) (region_code s region) = Some reps"
    "\<And>p t. (p, t) \<in> set reps \<longleftrightarrow> region_decoded P region s p t"
    "distinct (map fst reps)"
    and loop: "\<And>st n. patch_loop reps (region_code s region, st, n) =
       Inr (rewritten_code P region s,
            fold count_replacement (map snd (sites_of (region_code s region) reps)) st,
            n + of_nat (card (replaceable P region s)))"
    using region_replacements [OF assms(1)] by metis
  have "patch_loop reps (region_code s region, st, n) =
      Inr (rewritten_code P region s, patched_stats P region s st,
           n + of_nat (card (replaceable P region s)))" for st n
    using loop [of st n] reps(2,3)
    by (simp add: fold_count_replacement count_sites [of reps P region s] patched_stats_def)
  then have "patch_region P region reps (scanned rw) s = patch_result P region (scanned rw) s"
    by (rule patch_region_result)
  moreover have "set reps = {(p, t). region_decoded P region s p t}" using reps(2) by auto
  ultimately show thesis using assms(2,3) reps(1,3)
    by (intro that [of reps])
      (simp_all add: rewrite_region_def Let_def scanned_def region_code_def dry_result_def)
qed

end
