(* ===== verification/X86.thy ===== *)
theory X86
  imports Prelude
begin

section \<open>The x86-64 instructions of the trampoline\<close>

text \<open>
  The processor as far as the bytes the program writes need it: sixteen registers, a byte memory,
  the instruction pointer, and the ten instruction forms that occur in the trampoline and at a
  rewritten site.  \<open>encode\<close> is the assembler's table, \<open>decode_instr\<close> the processor's view of a byte
  sequence, \<open>step\<close> one instruction.  A byte sequence outside the table stops the machine (\<open>None\<close>).
  The flags are not modelled: none of the instructions reads them.
\<close>

unbundle bit_operations_syntax

subsection \<open>Little-endian words\<close>

definition le_bytes :: "u64 \<Rightarrow> u8 list" where
  "le_bytes v = map (\<lambda>i. ucast (drop_bit (8 * i) v)) [0..<8]"

definition of_le_bytes :: "u8 list \<Rightarrow> u64" where
  "of_le_bytes bs = foldr (\<lambda>b acc. ucast b OR push_bit 8 acc) bs 0"

lemma length_le_bytes [simp]: "length (le_bytes v) = 8"
  by (simp add: le_bytes_def)

lemma of_le_bytes_part:
  "of_le_bytes (map (\<lambda>i. ucast (drop_bit (8 * i) v)) [k..<n]) = take_bit (8 * (n - k)) (drop_bit (8 * k) v)"
proof (induction "n - k" arbitrary: k)
  case 0
  then show ?case by (simp add: of_le_bytes_def)
next
  case (Suc d)
  then have k: "k < n" by simp
  have "of_le_bytes (map (\<lambda>i. ucast (drop_bit (8 * i) v)) [k..<n]) =
      ucast (ucast (drop_bit (8 * k) v) :: u8) OR
      push_bit 8 (take_bit (8 * (n - Suc k)) (drop_bit (8 * Suc k) v))"
    using Suc.hyps(1) [of "Suc k"] Suc.hyps(2) k by (simp add: upt_rec [of k] of_le_bytes_def)
  also have "\<dots> = take_bit (8 * (n - k)) (drop_bit (8 * k) v)"
  proof (rule bit_word_eqI)
    fix j
    assume "j < LENGTH(64)"
    show "bit (ucast (ucast (drop_bit (8 * k) v) :: u8) OR
        push_bit 8 (take_bit (8 * (n - Suc k)) (drop_bit (8 * Suc k) v))) j =
      bit (take_bit (8 * (n - k)) (drop_bit (8 * k) v)) j"
      using k \<open>j < LENGTH(64)\<close>
      by (cases "j < 8") (auto simp: bit_simps algebra_simps)
  qed
  finally show ?case .
qed

lemma of_le_bytes_le_bytes [simp]: "of_le_bytes (le_bytes v) = v"
  using of_le_bytes_part [of v 0 8] by (simp add: le_bytes_def take_bit_word_eq_self)

text \<open>64-bit loads and stores on a byte memory; addresses wrap.\<close>

definition load64 :: "(u64 \<Rightarrow> u8) \<Rightarrow> u64 \<Rightarrow> u64" where
  "load64 m a = of_le_bytes (map (\<lambda>i. m (a + of_nat i)) [0..<8])"

definition store64 :: "u64 \<Rightarrow> u64 \<Rightarrow> (u64 \<Rightarrow> u8) \<Rightarrow> u64 \<Rightarrow> u8" where
  "store64 a v m = (\<lambda>x. if unat (x - a) < 8 then le_bytes v ! unat (x - a) else m x)"

named_theorems memory_simps \<open>loads after stores\<close>

lemma load64_store64 [simp, memory_simps]: "load64 (store64 a v m) a = v"
proof -
  have "map (\<lambda>i. store64 a v m (a + of_nat i)) [0..<8] = le_bytes v"
    by (rule nth_equalityI) (simp_all add: store64_def unat_of_nat)
  then show ?thesis by (simp add: load64_def)
qed

lemma store64_outside: "8 \<le> unat (x - a) \<Longrightarrow> store64 a v m x = m x"
  by (simp add: store64_def)

lemma unat_opposite:
  fixes a b :: u64
  shows "unat (a - b) + unat (b - a) \<le> 2 ^ 64"
proof (rule ccontr)
  let ?sum = "unat (a - b) + unat (b - a)"
  assume over: "\<not> ?sum \<le> 2 ^ 64"
  have "unat (a - b) < 2 ^ 64" "unat (b - a) < 2 ^ 64"
    using unsigned_less [where 'a = nat and 'b = 64] by simp_all
  then have "?sum - 2 ^ 64 < 2 ^ 64" by linarith
  moreover have "?sum mod 2 ^ 64 = unat ((a - b) + (b - a))"
    by (simp only: unat_word_ariths) simp
  ultimately show False using over by (simp add: le_mod_geq)
qed

lemma load64_store64_other [memory_simps]:
  assumes "8 \<le> unat (b - a)" "8 \<le> unat (a - b)"
  shows "load64 (store64 a v m) b = load64 m b"
proof -
  have "8 \<le> unat (b + of_nat i - a)" if "i < 8" for i
  proof -
    have "unat (b - a) + i < 2 ^ 64"
    proof (rule ccontr)
      assume "\<not> unat (b - a) + i < 2 ^ 64"
      moreover have "unat (a - b) + unat (b - a) \<le> 2 ^ 64"
        by (rule unat_opposite)
      ultimately show False using that assms(2) by linarith
    qed
    then have "unat (b - a + of_nat i) = unat (b - a) + i"
      using that by (simp add: unat_word_ariths unat_of_nat)
    with assms(1) show ?thesis by (simp add: algebra_simps)
  qed
  then have "map (\<lambda>i. store64 a v m (b + of_nat i)) [0..<8] = map (\<lambda>i. m (b + of_nat i)) [0..<8]"
    by (intro map_cong) (simp_all add: store64_outside)
  then show ?thesis unfolding load64_def by (rule arg_cong)
qed

subsection \<open>Registers and instructions\<close>

datatype reg = RAX | RCX | RDX | RBX | RSP | RBP | RSI | RDI | R8 | R9 | R10 | R11 | R12 | R13 | R14 | R15

datatype instr =
    Nop
  | Push reg
  | Pop reg
  | Sub_rsp u8
  | Add_rsp u8
  | Lea_rdi_rsp u8
  | Movabs_r11 u64
  | Call reg
  | Ret

text \<open>Register numbers: the low eight fit the opcode's three bits, the others need a REX prefix.\<close>

definition low_reg :: "reg \<Rightarrow> u8 option" where
  "low_reg r = (case r of RAX \<Rightarrow> Some 0 | RCX \<Rightarrow> Some 1 | RDX \<Rightarrow> Some 2 | RBX \<Rightarrow> Some 3
     | RSP \<Rightarrow> Some 4 | RBP \<Rightarrow> Some 5 | RSI \<Rightarrow> Some 6 | RDI \<Rightarrow> Some 7 | _ \<Rightarrow> None)"

definition high_reg :: "reg \<Rightarrow> u8" where
  "high_reg r = (case r of R8 \<Rightarrow> 0 | R9 \<Rightarrow> 1 | R10 \<Rightarrow> 2 | R11 \<Rightarrow> 3 | R12 \<Rightarrow> 4 | R13 \<Rightarrow> 5 | R14 \<Rightarrow> 6
     | R15 \<Rightarrow> 7 | _ \<Rightarrow> 0)"

definition low_of :: "u8 \<Rightarrow> reg" where
  "low_of n = (if n = 0 then RAX else if n = 1 then RCX else if n = 2 then RDX else if n = 3 then RBX
     else if n = 4 then RSP else if n = 5 then RBP else if n = 6 then RSI else RDI)"

definition high_of :: "u8 \<Rightarrow> reg" where
  "high_of n = (if n = 0 then R8 else if n = 1 then R9 else if n = 2 then R10 else if n = 3 then R11
     else if n = 4 then R12 else if n = 5 then R13 else if n = 6 then R14 else R15)"

text \<open>An opcode with the register in its low three bits, after an optional \<open>REX.B\<close> prefix and the
  opcode bytes \<open>pre\<close>.\<close>

definition with_reg :: "u8 list \<Rightarrow> u8 \<Rightarrow> reg \<Rightarrow> u8 list" where
  "with_reg pre opcode r =
     (case low_reg r of
        Some n \<Rightarrow> pre @ [opcode + n]
      | None \<Rightarrow> 0x41 # pre @ [opcode + high_reg r])"

definition encode :: "instr \<Rightarrow> u8 list" where
  "encode i = (case i of
       Nop \<Rightarrow> [0x90]
     | Push r \<Rightarrow> with_reg [] 0x50 r
     | Pop r \<Rightarrow> with_reg [] 0x58 r
     | Sub_rsp n \<Rightarrow> [0x48, 0x83, 0xec, n]
     | Add_rsp n \<Rightarrow> [0x48, 0x83, 0xc4, n]
     | Lea_rdi_rsp n \<Rightarrow> [0x48, 0x8d, 0x7c, 0x24, n]
     | Movabs_r11 v \<Rightarrow> [0x49, 0xbb] @ le_bytes v
     | Call r \<Rightarrow> with_reg [0xff] 0xd0 r
     | Ret \<Rightarrow> [0xc3])"

definition assemble :: "instr list \<Rightarrow> u8 list" where
  "assemble is = concat (map encode is)"

lemma encode_nonempty: "encode i \<noteq> []" "length (encode i) \<le> 10"
  by (auto simp: encode_def with_reg_def split: instr.splits option.splits)

subsection \<open>The processor's decoder\<close>

definition decode_reg_op :: "(u8 \<Rightarrow> reg) \<Rightarrow> u8 list \<Rightarrow> (instr \<times> nat) option" where
  "decode_reg_op reg_of bs = (case bs of
       [] \<Rightarrow> None
     | b # bs' \<Rightarrow>
         if b AND 0xf8 = 0x50 then Some (Push (reg_of (b AND 7)), 1)
         else if b AND 0xf8 = 0x58 then Some (Pop (reg_of (b AND 7)), 1)
         else if b = 0xff then
           (case bs' of
              [] \<Rightarrow> None
            | c # _ \<Rightarrow> if c AND 0xf8 = 0xd0 then Some (Call (reg_of (c AND 7)), 2) else None)
         else None)"

definition decode_instr :: "u8 list \<Rightarrow> (instr \<times> nat) option" where
  "decode_instr bs =
     (if take 1 bs = [0x90] then Some (Nop, 1)
      else if take 1 bs = [0xc3] then Some (Ret, 1)
      else if take 3 bs = [0x48, 0x83, 0xec] \<and> 4 \<le> length bs then Some (Sub_rsp (bs ! 3), 4)
      else if take 3 bs = [0x48, 0x83, 0xc4] \<and> 4 \<le> length bs then Some (Add_rsp (bs ! 3), 4)
      else if take 4 bs = [0x48, 0x8d, 0x7c, 0x24] \<and> 5 \<le> length bs then Some (Lea_rdi_rsp (bs ! 4), 5)
      else if take 2 bs = [0x49, 0xbb] \<and> 10 \<le> length bs then
        Some (Movabs_r11 (of_le_bytes (take 8 (drop 2 bs))), 10)
      else if take 1 bs = [0x41] then
        map_option (\<lambda>(i, n). (i, n + 1)) (decode_reg_op high_of (drop 1 bs))
      else decode_reg_op low_of bs)"

lemma decode_encode: "decode_instr (encode i @ bs) = Some (i, length (encode i))"
proof (cases i)
  case (Push r)
  then show ?thesis
    by (cases r) (simp_all add: encode_def with_reg_def low_reg_def high_reg_def decode_instr_def
        decode_reg_op_def low_of_def high_of_def)
next
  case (Pop r)
  then show ?thesis
    by (cases r) (simp_all add: encode_def with_reg_def low_reg_def high_reg_def decode_instr_def
        decode_reg_op_def low_of_def high_of_def)
next
  case (Call r)
  then show ?thesis
    by (cases r) (simp_all add: encode_def with_reg_def low_reg_def high_reg_def decode_instr_def
        decode_reg_op_def low_of_def high_of_def)
qed (simp_all add: encode_def decode_instr_def)

subsection \<open>Execution\<close>

record cpu =
  rip :: u64
  regs :: "reg \<Rightarrow> u64"
  cmem :: "u64 \<Rightarrow> u8"

definition rsp_of :: "cpu \<Rightarrow> u64" where
  "rsp_of s = regs s RSP"

definition set_reg :: "reg \<Rightarrow> u64 \<Rightarrow> cpu \<Rightarrow> cpu" where
  "set_reg r v s = s\<lparr>regs := (regs s)(r := v)\<rparr>"

definition push64 :: "u64 \<Rightarrow> cpu \<Rightarrow> cpu" where
  "push64 v s = s\<lparr>regs := (regs s)(RSP := regs s RSP - 8), cmem := store64 (regs s RSP - 8) v (cmem s)\<rparr>"

text \<open>\<open>exec i s\<close> runs \<open>i\<close>; \<open>rip s\<close> is already behind it.\<close>

definition exec :: "instr \<Rightarrow> cpu \<Rightarrow> cpu" where
  "exec i s = (case i of
       Nop \<Rightarrow> s
     | Push r \<Rightarrow> push64 (regs s r) s
     | Pop r \<Rightarrow> set_reg r (load64 (cmem s) (regs s RSP)) (set_reg RSP (regs s RSP + 8) s)
     | Sub_rsp n \<Rightarrow> set_reg RSP (regs s RSP - scast n) s
     | Add_rsp n \<Rightarrow> set_reg RSP (regs s RSP + scast n) s
     | Lea_rdi_rsp n \<Rightarrow> set_reg RDI (regs s RSP + scast n) s
     | Movabs_r11 v \<Rightarrow> set_reg R11 v s
     | Call r \<Rightarrow> (push64 (rip s) s)\<lparr>rip := regs s r\<rparr>
     | Ret \<Rightarrow> (set_reg RSP (regs s RSP + 8) s)\<lparr>rip := load64 (cmem s) (regs s RSP)\<rparr>)"

definition fetch :: "(u64 \<Rightarrow> u8) \<Rightarrow> u64 \<Rightarrow> nat \<Rightarrow> u8 list" where
  "fetch m a n = map (\<lambda>i. m (a + of_nat i)) [0..<n]"

definition step :: "cpu \<Rightarrow> cpu option" where
  "step s = (case decode_instr (fetch (cmem s) (rip s) 10) of
       None \<Rightarrow> None
     | Some (i, n) \<Rightarrow> Some (exec i (s\<lparr>rip := rip s + of_nat n\<rparr>)))"

fun steps :: "nat \<Rightarrow> cpu \<Rightarrow> cpu option" where
  "steps 0 s = Some s"
| "steps (Suc n) s = (case step s of None \<Rightarrow> None | Some s' \<Rightarrow> steps n s')"

lemma steps_add: "steps (m + n) s = Option.bind (steps m s) (steps n)"
  by (induction m arbitrary: s) (auto split: option.splits)

lemma steps_trans: "steps m s = Some s' \<Longrightarrow> steps n s' = Some s'' \<Longrightarrow> steps (m + n) s = Some s''"
  by (simp add: steps_add)

text \<open>Code in memory: the bytes from \<open>a\<close> on are \<open>bs\<close>.\<close>

definition code_at :: "(u64 \<Rightarrow> u8) \<Rightarrow> u64 \<Rightarrow> u8 list \<Rightarrow> bool" where
  "code_at m a bs \<longleftrightarrow> (\<forall>i<length bs. m (a + of_nat i) = bs ! i)"

lemma code_at_append:
  "code_at m a (xs @ ys) \<longleftrightarrow> code_at m a xs \<and> code_at m (a + of_nat (length xs)) ys"
proof
  assume all: "code_at m a (xs @ ys)"
  have "m (a + of_nat (length xs) + of_nat i) = ys ! i" if "i < length ys" for i
  proof -
    have "m (a + of_nat (length xs + i)) = (xs @ ys) ! (length xs + i)"
      using all that unfolding code_at_def by (metis length_append nat_add_left_cancel_less)
    then show ?thesis by (simp add: add.assoc)
  qed
  moreover have "m (a + of_nat i) = xs ! i" if "i < length xs" for i
    using all that unfolding code_at_def by (metis length_append nth_append trans_less_add1)
  ultimately show "code_at m a xs \<and> code_at m (a + of_nat (length xs)) ys"
    by (simp add: code_at_def)
next
  assume parts: "code_at m a xs \<and> code_at m (a + of_nat (length xs)) ys"
  have "m (a + of_nat i) = (xs @ ys) ! i" if "i < length (xs @ ys)" for i
  proof (cases "i < length xs")
    case True
    with parts show ?thesis by (simp add: code_at_def nth_append)
  next
    case False
    define j where "j = i - length xs"
    have j: "i = length xs + j" "j < length ys"
      using False that by (auto simp: j_def)
    have "m (a + of_nat (length xs) + of_nat j) = ys ! j"
      using parts j(2) unfolding code_at_def by blast
    with j(1) show ?thesis by (simp add: nth_append add.assoc)
  qed
  then show "code_at m a (xs @ ys)" by (simp add: code_at_def)
qed

lemma code_at_Cons [simp]:
  "code_at m a []" "code_at m a (b # bs) \<longleftrightarrow> m a = b \<and> code_at m (a + 1) bs"
proof -
  show "code_at m a []" by (simp add: code_at_def)
  have "code_at m a [b] \<longleftrightarrow> m a = b" by (simp add: code_at_def)
  then show "code_at m a (b # bs) \<longleftrightarrow> m a = b \<and> code_at m (a + 1) bs"
    using code_at_append [of m a "[b]" bs] by simp
qed

lemma fetch_code:
  assumes "code_at m a bs" "length bs \<le> n"
  shows "fetch m a n = bs @ fetch m (a + of_nat (length bs)) (n - length bs)"
proof -
  have "[0..<n] = [0..<length bs] @ [length bs..<n]"
    using assms(2) upt_add_eq_append [of 0 "length bs" "n - length bs"] by simp
  moreover have "map (\<lambda>i. m (a + of_nat i)) [0..<length bs] = bs"
    using assms(1) by (intro nth_equalityI) (simp_all add: code_at_def)
  moreover have "map (\<lambda>i. m (a + of_nat i)) [length bs..<n] =
      map (\<lambda>i. m (a + of_nat (length bs) + of_nat i)) [0..<n - length bs]"
    by (rule nth_equalityI) (simp_all add: add.assoc)
  ultimately show ?thesis by (simp add: fetch_def)
qed

text \<open>The machine at an instruction that is in memory.\<close>

lemma step_code:
  assumes "code_at (cmem s) (rip s) (encode i)"
  shows "step s = Some (exec i (s\<lparr>rip := rip s + of_nat (length (encode i))\<rparr>))"
  using fetch_code [OF assms, of 10] encode_nonempty(2) [of i] by (simp add: step_def decode_encode)

end
