(* ===== verification/SyscallRegs.thy ===== *)
theory SyscallRegs
  imports X86
begin

section \<open>The saved registers (\<open>zpoline\_hook\_api/src/lib.rs\<close>, \<open>SyscallRegs\<close>)\<close>

text \<open>
  The \<open>repr(C)\<close> structure that passes a system call from the trampoline's assembly to the hooks,
  with the layout that makes both sides agree: seven 64-bit fields in declaration order, so field
  \<open>k\<close> lies \<open>8 * k\<close> bytes from the structure's address.
\<close>

record syscall_regs =
  rax :: u64
  rdi :: u64
  rsi :: u64
  rdx :: u64
  r10 :: u64
  r8 :: u64
  r9 :: u64

definition syscall_regs_new :: "u64 \<Rightarrow> u64 \<Rightarrow> u64 \<Rightarrow> u64 \<Rightarrow> u64 \<Rightarrow> u64 \<Rightarrow> u64 \<Rightarrow> syscall_regs" where
  "syscall_regs_new a b c d e f g =
     \<lparr>rax = a, rdi = b, rsi = c, rdx = d, r10 = e, r8 = f, r9 = g\<rparr>"

definition syscall_regs_zero :: syscall_regs where
  "syscall_regs_zero = \<lparr>rax = 0, rdi = 0, rsi = 0, rdx = 0, r10 = 0, r8 = 0, r9 = 0\<rparr>"

text \<open>The structure at an address.\<close>

definition regs_at :: "(u64 \<Rightarrow> u8) \<Rightarrow> u64 \<Rightarrow> syscall_regs" where
  "regs_at m p = \<lparr>rax = load64 m p, rdi = load64 m (p + 8), rsi = load64 m (p + 16),
     rdx = load64 m (p + 24), r10 = load64 m (p + 32), r8 = load64 m (p + 40), r9 = load64 m (p + 48)\<rparr>"

text \<open>The system call a processor is about to make: the number in \<open>rax\<close>, the arguments in the
  registers of the kernel's convention.\<close>

definition regs_of_cpu :: "cpu \<Rightarrow> syscall_regs" where
  "regs_of_cpu s = \<lparr>rax = regs s RAX, rdi = regs s RDI, rsi = regs s RSI, rdx = regs s RDX,
     r10 = regs s R10, r8 = regs s R8, r9 = regs s R9\<rparr>"

end
