(* ===== verification/Trampoline.thy ===== *)
theory Trampoline
  imports Rewriter SyscallRegs "HOL-Library.Monad_Syntax"
begin

section \<open>Generating the trampoline (\<open>zpoline\_loader/src/trampoline.rs\<close>)\<close>

text \<open>
  \<open>setup_trampoline\<close> maps \<open>TRAMPOLINE_SIZE\<close> bytes at address 0 and fills them: a sled of \<open>nop\<close>s that
  every system call number lands in, followed by the stub that calls \<open>hook_entry\<close>.  The byte writes
  \<open>mem[offset + i] = b\<close> are kept as they are, with an index out of range as the panic \<open>None\<close>;
  the lemmas read them back as the assembly of an instruction list.
\<close>

datatype trampoline_error = MmapFailed errno

definition display_trampoline_error :: "(errno \<Rightarrow> rstr) \<Rightarrow> trampoline_error \<Rightarrow> rstr" where
  "display_trampoline_error show_errno err =
     (case err of MmapFailed e \<Rightarrow> lit ''mmap failed: '' @ show_errno e)"

definition MAX_SYSCALL_NR :: nat where
  "MAX_SYSCALL_NR = 512"

definition TRAMPOLINE_SIZE :: nat where
  "TRAMPOLINE_SIZE = MAX_SYSCALL_NR + 4096"

subsection \<open>The writes\<close>

text \<open>\<open>mem[offset] = b0; mem[offset + 1] = b1; ...; offset += n\<close>, on the pair of the slice and
  \<open>offset\<close>.\<close>

type_synonym writer = "u8 list \<times> nat"

fun write_bytes :: "u8 list \<Rightarrow> nat \<Rightarrow> u8 list \<Rightarrow> u8 list option" where
  "write_bytes [] offset buf = Some buf"
| "write_bytes (b # bs) offset buf = do {
     buf \<leftarrow> slice_set buf offset b;
     write_bytes bs (offset + 1) buf
   }"

definition emit :: "u8 list \<Rightarrow> writer \<Rightarrow> writer option" where
  "emit bs w = (case w of (buf, offset) \<Rightarrow>
     do { buf \<leftarrow> write_bytes bs offset buf; Some (buf, offset + length bs) })"

definition generate_hook_stub :: "u64 \<Rightarrow> u8 list \<Rightarrow> (trampoline_error + u8 list) option" where
  "generate_hook_stub hook_entry_addr buf = do {
     w \<leftarrow> emit [0x41, 0x51] (buf, 0);
     w \<leftarrow> emit [0x41, 0x50] w;
     w \<leftarrow> emit [0x41, 0x52] w;
     w \<leftarrow> emit [0x52] w;
     w \<leftarrow> emit [0x56] w;
     w \<leftarrow> emit [0x57] w;
     w \<leftarrow> emit [0x50] w;
     w \<leftarrow> emit [0x48, 0x83, 0xec, 0x08] w;
     w \<leftarrow> emit [0x48, 0x8d, 0x7c, 0x24, 0x08] w;
     w \<leftarrow> emit ([0x49, 0xbb] @ le_bytes hook_entry_addr) w;
     w \<leftarrow> emit [0x41, 0xff, 0xd3] w;
     w \<leftarrow> emit [0x48, 0x83, 0xc4, 0x08] w;
     w \<leftarrow> emit [0x48, 0x83, 0xc4, 0x08] w;
     w \<leftarrow> emit [0x5f] w;
     w \<leftarrow> emit [0x5e] w;
     w \<leftarrow> emit [0x5a] w;
     w \<leftarrow> emit [0x41, 0x5a] w;
     w \<leftarrow> emit [0x41, 0x58] w;
     w \<leftarrow> emit [0x41, 0x59] w;
     w \<leftarrow> emit [0xc3] w;
     Some (Inr (fst w))
   }"

text \<open>\<open>for i in 0..stub_offset\<close> with \<open>mem[i] = 0x90\<close>.\<close>

fun nop_loop :: "nat list \<Rightarrow> u8 list \<Rightarrow> u8 list option" where
  "nop_loop [] buf = Some buf"
| "nop_loop (i # is) buf = do { buf \<leftarrow> slice_set buf i 0x90; nop_loop is buf }"

definition generate_trampoline_code :: "u64 \<Rightarrow> u8 list \<Rightarrow> (trampoline_error + u8 list) option" where
  "generate_trampoline_code hook_entry_addr buf = do {
     let stub_offset = MAX_SYSCALL_NR;
     buf \<leftarrow> nop_loop [0..<stub_offset] buf;
     (if length buf < stub_offset then None else Some ());
     r \<leftarrow> generate_hook_stub hook_entry_addr (drop stub_offset buf);
     (case r of
        Inl e \<Rightarrow> Some (Inl e)
      | Inr stub \<Rightarrow> Some (Inr (take stub_offset buf @ stub)))
   }"

text \<open>\<open>libc::mmap\<close> is the operation the code imports: it returns the mapped address or the error
  that \<open>MAP_FAILED\<close> and \<open>errno\<close> report.  The result \<open>None\<close> is a panic.\<close>

datatype map_flag = MAP_FIXED | MAP_ANONYMOUS | MAP_PRIVATE

type_synonym 'os mmap =
  "u64 \<Rightarrow> usize \<Rightarrow> prot \<Rightarrow> map_flag set \<Rightarrow> 'os process \<Rightarrow> (errno + u64) \<times> 'os process"

definition setup_trampoline ::
  "'os mmap \<Rightarrow> u64 \<Rightarrow> 'os process \<Rightarrow> (trampoline_error + unit) option \<times> 'os process" where
  "setup_trampoline mmap hook_entry_addr s =
     (case mmap 0 (of_nat TRAMPOLINE_SIZE) {PROT_READ, PROT_WRITE, PROT_EXEC}
             {MAP_FIXED, MAP_ANONYMOUS, MAP_PRIVATE} s of
        (Inl e, s1) \<Rightarrow> (Some (Inl (MmapFailed e)), s1)
      | (Inr mapped_ptr, s1) \<Rightarrow>
          (case generate_trampoline_code hook_entry_addr
                  (read_slice (mem s1) mapped_ptr TRAMPOLINE_SIZE) of
             None \<Rightarrow> (None, s1)
           | Some (Inl e) \<Rightarrow> (Some (Inl e), s1)
           | Some (Inr code) \<Rightarrow>
               (Some (Inr ()), s1\<lparr>mem := write_slice (mem s1) mapped_ptr code\<rparr>)))"

subsection \<open>The listing the bytes stand for\<close>

text \<open>Seven pushes build a \<open>SyscallRegs\<close> on the stack, \<open>rdi\<close> points to it, \<open>hook_entry\<close> is called,
  and the argument registers are reloaded from it; \<open>rax\<close> keeps the hook's result.\<close>

definition stub_listing :: "u64 \<Rightarrow> instr list" where
  "stub_listing hook_entry_addr =
     [Push R9, Push R8, Push R10, Push RDX, Push RSI, Push RDI, Push RAX,
      Sub_rsp 8, Lea_rdi_rsp 8, Movabs_r11 hook_entry_addr, Call R11,
      Add_rsp 8, Add_rsp 8,
      Pop RDI, Pop RSI, Pop RDX, Pop R10, Pop R8, Pop R9, Ret]"

definition trampoline_bytes :: "u64 \<Rightarrow> u8 list" where
  "trampoline_bytes hook_entry_addr =
     assemble (replicate MAX_SYSCALL_NR Nop @ stub_listing hook_entry_addr)"

lemma assemble_simps [simp]:
  "assemble [] = []" "assemble (i # is) = encode i @ assemble is"
  "assemble (is @ js) = assemble is @ assemble js"
  by (simp_all add: assemble_def)

lemma assemble_nops: "assemble (replicate n Nop) = replicate n 0x90"
  by (induction n) (simp_all add: encode_def)

lemma write_bytes_append:
  "write_bytes bs (length xs) (xs @ ys) =
     (if length bs \<le> length ys then Some (xs @ bs @ drop (length bs) ys) else None)"
proof (induction bs arbitrary: xs ys)
  case Nil
  then show ?case by simp
next
  case (Cons b bs)
  show ?case
  proof (cases ys)
    case Nil
    then show ?thesis by (simp add: slice_set_def)
  next
    case (Cons y ys')
    then show ?thesis using Cons.IH [of "xs @ [b]" ys'] by (simp add: slice_set_def)
  qed
qed

text \<open>A sequence of \<open>emit\<close>s lays its bytes down one after the other, or panics when they do not
  fit.\<close>

fun emit_all :: "u8 list list \<Rightarrow> writer \<Rightarrow> writer option" where
  "emit_all [] w = Some w"
| "emit_all (bs # bss) w = do { w \<leftarrow> emit bs w; emit_all bss w }"

lemma emit_all_append:
  "emit_all bss (xs @ ys, length xs) =
     (if length (concat bss) \<le> length ys
      then Some (xs @ concat bss @ drop (length (concat bss)) ys, length xs + length (concat bss))
      else None)"
proof (induction bss arbitrary: xs ys)
  case Nil
  then show ?case by simp
next
  case (Cons bs bss)
  show ?case
  proof (cases "length bs \<le> length ys")
    case True
    then have "emit bs (xs @ ys, length xs) =
        Some ((xs @ bs) @ drop (length bs) ys, length (xs @ bs))"
      by (simp add: emit_def write_bytes_append)
    then have "emit_all (bs # bss) (xs @ ys, length xs) =
        emit_all bss ((xs @ bs) @ drop (length bs) ys, length (xs @ bs))"
      by (simp only: emit_all.simps Option.bind.simps)
    with Cons.IH [of "xs @ bs" "drop (length bs) ys"] True show ?thesis
      by (auto simp: add.commute)
  next
    case False
    then show ?thesis by (simp add: emit_def write_bytes_append)
  qed
qed

lemma generate_hook_stub_emits:
  "generate_hook_stub addr buf =
     do { w \<leftarrow> emit_all (map encode (stub_listing addr)) (buf, 0); Some (Inr (fst w)) }"
  by (simp add: generate_hook_stub_def stub_listing_def encode_def with_reg_def low_reg_def
      high_reg_def)

lemma length_stub [simp]: "length (assemble (stub_listing addr)) = 50"
  by (simp add: stub_listing_def encode_def with_reg_def low_reg_def)

lemma generate_hook_stub_result:
  "generate_hook_stub addr buf =
     (if 50 \<le> length buf then Some (Inr (assemble (stub_listing addr) @ drop 50 buf)) else None)"
proof -
  have len: "length (concat (map encode (stub_listing addr))) = 50"
    using length_stub [of addr] by (simp only: assemble_def)
  show ?thesis
    using emit_all_append [of "map encode (stub_listing addr)" "[]" buf]
    unfolding generate_hook_stub_emits len by (simp add: assemble_def)
qed

lemma nop_loop_result:
  "n \<le> m \<Longrightarrow> nop_loop [m - n..<m] (replicate (m - n) 0x90 @ ys) =
     (if n \<le> length ys then Some (replicate m 0x90 @ drop n ys) else None)"
proof (induction n arbitrary: ys)
  case 0
  then show ?case by simp
next
  case (Suc n)
  then have range: "[m - Suc n..<m] = (m - Suc n) # [m - n..<m]" and d: "m - n = Suc (m - Suc n)"
    by (simp_all add: upt_rec [of "m - Suc n"] Suc_diff_Suc)
  show ?case
  proof (cases ys)
    case Nil
    then show ?thesis by (simp add: range slice_set_def)
  next
    case (Cons y ys')
    have "(replicate k a @ y # ys')[k := a] = replicate (Suc k) a @ ys'" for k and a :: u8
      by (simp add: list_update_append replicate_app_Cons_same)
    then have "nop_loop [m - Suc n..<m] (replicate (m - Suc n) 0x90 @ ys) =
        nop_loop [m - n..<m] (replicate (m - n) 0x90 @ ys')"
      unfolding range d Cons by (simp add: slice_set_def)
    with Suc Cons show ?thesis by simp
  qed
qed

lemma generate_trampoline_code_result:
  "generate_trampoline_code addr buf =
     (if MAX_SYSCALL_NR + 50 \<le> length buf
      then Some (Inr (trampoline_bytes addr @ drop (MAX_SYSCALL_NR + 50) buf)) else None)"
proof -
  have "nop_loop [0..<MAX_SYSCALL_NR] buf =
      (if MAX_SYSCALL_NR \<le> length buf
       then Some (replicate MAX_SYSCALL_NR 0x90 @ drop MAX_SYSCALL_NR buf) else None)"
    using nop_loop_result [of MAX_SYSCALL_NR MAX_SYSCALL_NR buf] by simp
  then show ?thesis
    by (simp add: generate_trampoline_code_def generate_hook_stub_result trampoline_bytes_def
        assemble_nops del: upt_Suc) (auto simp: add.commute)
qed

lemma length_trampoline_bytes: "length (trampoline_bytes addr) = MAX_SYSCALL_NR + 50"
  by (simp add: trampoline_bytes_def assemble_nops)

subsection \<open>What is generated, and installed\<close>

text \<open>
  C34: the generated code, for every address of \<open>hook_entry\<close> and every slice: 512 \<open>nop\<close>s and the
  assembly of the stub's listing, with the rest of the slice untouched, when the slice has the 562
  bytes they take; a panic for a shorter slice.  No error value is ever produced.
\<close>

theorem trampoline_layout:
  "generate_trampoline_code addr buf =
     (if 562 \<le> length buf
      then Some (Inr (assemble (replicate 512 Nop @ stub_listing addr) @ drop 562 buf)) else None)"
  by (simp add: generate_trampoline_code_result trampoline_bytes_def MAX_SYSCALL_NR_def)

text \<open>
  The documented behaviour of \<open>mmap\<close> with \<open>MAP_FIXED\<close> and \<open>MAP_ANONYMOUS\<close>: on success the mapping
  is at the requested address and reads as zeros, and no byte outside it changes; on failure no
  byte changes.
\<close>

definition mmap_documented :: "'os mmap \<Rightarrow> bool" where
  "mmap_documented mmap \<longleftrightarrow>
     (\<forall>a n prot flags s r s'. mmap a n prot flags s = (r, s') \<longrightarrow>
        (case r of
           Inl e \<Rightarrow> mem s' = mem s
         | Inr p \<Rightarrow> {MAP_FIXED, MAP_ANONYMOUS} \<subseteq> flags \<longrightarrow>
             p = a \<and> mem s' = (\<lambda>x. if unat (x - a) < unat n then 0 else mem s x)))"

lemma TRAMPOLINE_SIZE_value: "TRAMPOLINE_SIZE = 4608"
  by (simp add: TRAMPOLINE_SIZE_def MAX_SYSCALL_NR_def)

lemma setup_trampoline_code:
  "generate_trampoline_code addr (read_slice m p TRAMPOLINE_SIZE) =
     Some (Inr (trampoline_bytes addr @ drop 562 (read_slice m p TRAMPOLINE_SIZE)))"
  by (simp add: generate_trampoline_code_result MAX_SYSCALL_NR_def TRAMPOLINE_SIZE_value
      read_slice_def)

lemma setup_trampoline_result:
  assumes "mmap_documented mmap" and "setup_trampoline mmap addr s = (r, s')"
  shows "(\<exists>e. r = Some (Inl (MmapFailed e)) \<and> mem s' = mem s) \<or>
    (r = Some (Inr ()) \<and>
     (\<forall>a. mem s' a =
        (if unat a < 562 then trampoline_bytes addr ! unat a
         else if unat a < 4608 then 0 else mem s a)))"
proof -
  obtain q s1 where q: "mmap 0 (of_nat TRAMPOLINE_SIZE) {PROT_READ, PROT_WRITE, PROT_EXEC}
      {MAP_FIXED, MAP_ANONYMOUS, MAP_PRIVATE} s = (q, s1)"
    by fastforce
  have doc: "case q of Inl e \<Rightarrow> mem s1 = mem s
    | Inr p \<Rightarrow> {MAP_FIXED, MAP_ANONYMOUS} \<subseteq> {MAP_FIXED, MAP_ANONYMOUS, MAP_PRIVATE} \<longrightarrow>
        p = 0 \<and> mem s1 = (\<lambda>x. if unat (x - 0) < unat (of_nat TRAMPOLINE_SIZE :: usize) then 0 else mem s x)"
    using assms(1) q unfolding mmap_documented_def by blast
  show ?thesis
  proof (cases q)
    case (Inl e)
    with doc assms(2) q show ?thesis by (auto simp: setup_trampoline_def)
  next
    case (Inr p)
    with doc have p: "p = 0" and m: "mem s1 = (\<lambda>x. if unat x < 4608 then 0 else mem s x)"
      by (simp_all add: TRAMPOLINE_SIZE_value)
    have "r = Some (Inr ()) \<and> mem s' = write_slice (mem s1) 0
        (trampoline_bytes addr @ drop 562 (read_slice (mem s1) 0 TRAMPOLINE_SIZE))"
      using assms(2) q Inr p by (auto simp: setup_trampoline_def setup_trampoline_code)
    then show ?thesis
      by (auto simp: write_slice_def nth_append length_trampoline_bytes MAX_SYSCALL_NR_def
          TRAMPOLINE_SIZE_value read_slice_def m unat_of_nat)
  qed
qed

text \<open>
  C35: \<open>setup_trampoline\<close> never panics.  If \<open>mmap\<close> fails, its error is returned as \<open>MmapFailed\<close> and no
  byte changes; otherwise the result is \<open>Ok\<close> and memory holds the trampoline at address 0, zeros up to
  address 4607, and what it held before everywhere else.
\<close>

theorem setup_trampoline_installs:
  assumes "mmap_documented mmap" and "setup_trampoline mmap addr s = (r, s')"
  shows "(\<exists>e. r = Some (Inl (MmapFailed e)) \<and> mem s' = mem s) \<or>
    (r = Some (Inr ()) \<and>
     (\<forall>a. mem s' a =
        (if unat a < 562 then trampoline_bytes addr ! unat a
         else if unat a < 4608 then 0 else mem s a)))"
  using assms by (rule setup_trampoline_result)

definition zero_mmap :: "'os mmap" where
  "zero_mmap a n prot flags s = (Inr a, s\<lparr>mem := (\<lambda>x. if unat (x - a) < unat n then 0 else mem s x)\<rparr>)"

theorem setup_trampoline_installs_witness:
  "\<exists>s'. setup_trampoline zero_mmap 0x7000 \<lparr>mem = (\<lambda>a. 0xcc), os = ()\<rparr> = (Some (Inr ()), s') \<and>
     mem s' 0x27 = 0x90 \<and> mem s' 0x200 = 0x41 \<and> mem s' 0x1000 = 0 \<and> mem s' 0x2000 = 0xcc"
proof -
  let ?s = "\<lparr>mem = (\<lambda>a. 0xcc), os = ()\<rparr> :: unit process"
  have doc: "mmap_documented zero_mmap"
    by (auto simp: mmap_documented_def zero_mmap_def)
  obtain r s' where run: "setup_trampoline zero_mmap 0x7000 ?s = (r, s')" by fastforce
  have "r = Some (Inr ())"
    using run by (auto simp: setup_trampoline_def zero_mmap_def setup_trampoline_code)
  moreover have "trampoline_bytes 0x7000 ! 39 = 0x90" "trampoline_bytes 0x7000 ! 512 = 0x41"
    by (simp_all add: trampoline_bytes_def assemble_nops MAX_SYSCALL_NR_def nth_append
        stub_listing_def encode_def with_reg_def low_reg_def)
  ultimately show ?thesis
    using run setup_trampoline_installs [OF doc run] by (intro exI [of _ s']) simp
qed

end
