(* ===== verification/HookCode.thy ===== *)
theory HookCode
  imports SyscallRegs
begin

section \<open>Hook code and the kernel\<close>

text \<open>
  A hook is Rust code that computes a result and on the way makes system calls, of two kinds: with
  \<open>raw_syscall\<close>, whose \<open>syscall\<close> instruction is never rewritten, and through rewritten instructions
  (any library routine: printing, allocating memory).  \<open>act\<close> is such code as a tree: \<open>Raw\<close> and
  \<open>Site\<close> are the two calls with the continuation that receives the result, \<open>Done\<close> is the return and
  \<open>Unreachable\<close> is \<open>unreachable_unchecked\<close>.

  The kernel is a parameter: a function from the registers and its own state, which answers \<open>None\<close>
  when the call does not return (\<open>exit\<close>).
\<close>

datatype 'a act =
    Done 'a
  | Raw syscall_regs "i64 \<Rightarrow> 'a act"
  | Site syscall_regs "i64 \<Rightarrow> 'a act"
  | Unreachable

type_synonym 'w kernel = "syscall_regs \<Rightarrow> 'w \<Rightarrow> i64 option \<times> 'w"

primrec act_bind :: "'a act \<Rightarrow> ('a \<Rightarrow> 'b act) \<Rightarrow> 'b act" where
  "act_bind (Done a) f = f a"
| "act_bind (Raw q k) f = Raw q (\<lambda>v. act_bind (k v) f)"
| "act_bind (Site q k) f = Site q (\<lambda>v. act_bind (k v) f)"
| "act_bind Unreachable f = Unreachable"

text \<open>\<open>raw_syscall\<close>, \<open>raw_syscall_impl\<close> and \<open>raw_syscall_bypass\<close> (\<open>zpoline\_hook\_api/src/lib.rs\<close>).\<close>

definition raw_syscall_impl :: "u64 \<Rightarrow> u64 \<Rightarrow> u64 \<Rightarrow> u64 \<Rightarrow> u64 \<Rightarrow> u64 \<Rightarrow> u64 \<Rightarrow> i64 act" where
  "raw_syscall_impl nr arg1 arg2 arg3 arg4 arg5 arg6 =
     Raw \<lparr>rax = nr, rdi = arg1, rsi = arg2, rdx = arg3, r10 = arg4, r8 = arg5, r9 = arg6\<rparr> Done"

definition raw_syscall :: "syscall_regs \<Rightarrow> i64 act" where
  "raw_syscall q = raw_syscall_impl (rax q) (rdi q) (rsi q) (rdx q) (r10 q) (r8 q) (r9 q)"

definition raw_syscall_bypass :: "u64 \<Rightarrow> u64 \<Rightarrow> u64 \<Rightarrow> u64 \<Rightarrow> u64 \<Rightarrow> u64 \<Rightarrow> u64 \<Rightarrow> i64 act" where
  "raw_syscall_bypass nr arg1 arg2 arg3 arg4 arg5 arg6 =
     raw_syscall_impl nr arg1 arg2 arg3 arg4 arg5 arg6"

lemma raw_syscall_eq [simp]: "raw_syscall q = Raw q Done"
  by (simp add: raw_syscall_def raw_syscall_impl_def)

lemma act_bind_simps [simp]:
  "act_bind (act_bind t f) g = act_bind t (\<lambda>a. act_bind (f a) g)"
  "act_bind t Done = t"
  by (induction t) simp_all

subsection \<open>Shapes of hook code\<close>

text \<open>Code that never returns (Rust's type \<open>!\<close>), and code that makes some calls, of either kind, and
  then returns (printing, allocating).\<close>

primrec diverges :: "'a act \<Rightarrow> bool" where
  "diverges (Done a) \<longleftrightarrow> False"
| "diverges (Raw q k) \<longleftrightarrow> (\<forall>v. diverges (k v))"
| "diverges (Site q k) \<longleftrightarrow> (\<forall>v. diverges (k v))"
| "diverges Unreachable \<longleftrightarrow> True"

primrec comes_back :: "'a act \<Rightarrow> bool" where
  "comes_back (Done a) \<longleftrightarrow> True"
| "comes_back (Raw q k) \<longleftrightarrow> (\<forall>v. comes_back (k v))"
| "comes_back (Site q k) \<longleftrightarrow> (\<forall>v. comes_back (k v))"
| "comes_back Unreachable \<longleftrightarrow> False"

text \<open>Code that has not been rewritten.\<close>

primrec unrewritten :: "'a act \<Rightarrow> bool" where
  "unrewritten (Done a) \<longleftrightarrow> True"
| "unrewritten (Raw q k) \<longleftrightarrow> (\<forall>v. unrewritten (k v))"
| "unrewritten (Site q k) \<longleftrightarrow> False"
| "unrewritten Unreachable \<longleftrightarrow> True"

text \<open>\<open>passes q R t\<close>: on every path, \<open>t\<close> makes the raw call \<open>q\<close>, among any others, and returns a
  result that \<open>R\<close> relates to the kernel's answer.  \<open>yields\<close> is the part behind that call.\<close>

inductive yields :: "(i64 \<Rightarrow> 'a \<Rightarrow> bool) \<Rightarrow> i64 \<Rightarrow> 'a act \<Rightarrow> bool" for R where
  yields_done: "R v a \<Longrightarrow> yields R v (Done a)"
| yields_raw: "(\<And>u. yields R v (k u)) \<Longrightarrow> yields R v (Raw q k)"
| yields_site: "(\<And>u. yields R v (k u)) \<Longrightarrow> yields R v (Site q k)"

inductive passes :: "syscall_regs \<Rightarrow> (i64 \<Rightarrow> 'a \<Rightarrow> bool) \<Rightarrow> 'a act \<Rightarrow> bool" for q R where
  passes_call: "(\<And>v. yields R v (k v)) \<Longrightarrow> passes q R (Raw q k)"
| passes_raw: "(\<And>u. passes q R (k u)) \<Longrightarrow> passes q R (Raw p k)"
| passes_site: "(\<And>u. passes q R (k u)) \<Longrightarrow> passes q R (Site p k)"

inductive_simps yields_simps [simp]:
  "yields R v (Done a)" "yields R v (Site q k)" "yields R v (Raw q k)" "yields R v Unreachable"

inductive_simps passes_simps [simp]:
  "passes q R (Done a)" "passes q R (Site p k)" "passes q R (Raw p k)" "passes q R Unreachable"

lemma passes_after_calls:
  "comes_back t \<Longrightarrow> (\<And>a. passes q R (g a)) \<Longrightarrow> passes q R (act_bind t g)"
  by (induction t) simp_all

lemma yields_after_calls:
  "comes_back t \<Longrightarrow> (\<And>a. yields R v (g a)) \<Longrightarrow> yields R v (act_bind t g)"
  by (induction t) simp_all

lemma unrewritten_bind [simp]:
  "unrewritten c \<Longrightarrow> (\<And>a. unrewritten (k a)) \<Longrightarrow> unrewritten (act_bind c k)"
  by (induction c) auto

end
