(* ===== verification/SyscallHooks.thy ===== *)
theory SyscallHooks
  imports HookCode
begin

section \<open>The trait \<open>SyscallHooks\<close> (\<open>zpoline\_hook\_api/src/syscall\_hooks.rs\<close>)\<close>

text \<open>
  An implementation of the trait is a record of its 28 methods over the state \<open>'s\<close> of the
  implementing object; \<open>\&mut self\<close> is the state, passed in and returned.  C's \<open>int\<close>, \<open>pid\_t\<close> and
  \<open>unsigned\<close> are 32-bit words, pointers, \<open>size\_t\<close>, \<open>off\_t\<close> and \<open>ssize\_t\<close> 64-bit words.  A method of
  result type \<open>!\<close> has code that \<open>diverges\<close>.
\<close>

record 's syscall_hooks =
  hook_read :: "i32 \<Rightarrow> u64 \<Rightarrow> usize \<Rightarrow> 's \<Rightarrow> (i64 \<times> 's) act"
  hook_write :: "i32 \<Rightarrow> u64 \<Rightarrow> usize \<Rightarrow> 's \<Rightarrow> (i64 \<times> 's) act"
  hook_open :: "u64 \<Rightarrow> i32 \<Rightarrow> u32 \<Rightarrow> 's \<Rightarrow> (i32 \<times> 's) act"
  hook_close :: "i32 \<Rightarrow> 's \<Rightarrow> (i32 \<times> 's) act"
  hook_lseek :: "i32 \<Rightarrow> i64 \<Rightarrow> i32 \<Rightarrow> 's \<Rightarrow> (i64 \<times> 's) act"
  hook_openat :: "i32 \<Rightarrow> u64 \<Rightarrow> i32 \<Rightarrow> u32 \<Rightarrow> 's \<Rightarrow> (i32 \<times> 's) act"
  hook_dup :: "i32 \<Rightarrow> 's \<Rightarrow> (i32 \<times> 's) act"
  hook_dup2 :: "i32 \<Rightarrow> i32 \<Rightarrow> 's \<Rightarrow> (i32 \<times> 's) act"
  hook_pipe :: "u64 \<Rightarrow> 's \<Rightarrow> (i32 \<times> 's) act"
  hook_mmap :: "u64 \<Rightarrow> usize \<Rightarrow> i32 \<Rightarrow> i32 \<Rightarrow> i32 \<Rightarrow> i64 \<Rightarrow> 's \<Rightarrow> (i64 \<times> 's) act"
  hook_munmap :: "u64 \<Rightarrow> usize \<Rightarrow> 's \<Rightarrow> (i32 \<times> 's) act"
  hook_mprotect :: "u64 \<Rightarrow> usize \<Rightarrow> i32 \<Rightarrow> 's \<Rightarrow> (i32 \<times> 's) act"
  hook_brk :: "u64 \<Rightarrow> 's \<Rightarrow> (i32 \<times> 's) act"
  hook_getpid :: "'s \<Rightarrow> (i32 \<times> 's) act"
  hook_gettid :: "'s \<Rightarrow> (i32 \<times> 's) act"
  hook_fork :: "'s \<Rightarrow> (i32 \<times> 's) act"
  hook_execve :: "u64 \<Rightarrow> u64 \<Rightarrow> u64 \<Rightarrow> 's \<Rightarrow> (i32 \<times> 's) act"
  hook_exit :: "i32 \<Rightarrow> 's \<Rightarrow> (i64 \<times> 's) act"
  hook_exit_group :: "i32 \<Rightarrow> 's \<Rightarrow> (i64 \<times> 's) act"
  hook_wait4 :: "i32 \<Rightarrow> u64 \<Rightarrow> i32 \<Rightarrow> u64 \<Rightarrow> 's \<Rightarrow> (i32 \<times> 's) act"
  hook_kill :: "i32 \<Rightarrow> i32 \<Rightarrow> 's \<Rightarrow> (i32 \<times> 's) act"
  hook_socket :: "i32 \<Rightarrow> i32 \<Rightarrow> i32 \<Rightarrow> 's \<Rightarrow> (i32 \<times> 's) act"
  hook_connect :: "i32 \<Rightarrow> u64 \<Rightarrow> u32 \<Rightarrow> 's \<Rightarrow> (i32 \<times> 's) act"
  hook_accept :: "i32 \<Rightarrow> u64 \<Rightarrow> u64 \<Rightarrow> 's \<Rightarrow> (i32 \<times> 's) act"
  hook_bind :: "i32 \<Rightarrow> u64 \<Rightarrow> u32 \<Rightarrow> 's \<Rightarrow> (i32 \<times> 's) act"
  hook_listen :: "i32 \<Rightarrow> i32 \<Rightarrow> 's \<Rightarrow> (i32 \<times> 's) act"
  hook_ioctl :: "i32 \<Rightarrow> u64 \<Rightarrow> u64 \<Rightarrow> 's \<Rightarrow> (i32 \<times> 's) act"
  hook_access :: "u64 \<Rightarrow> i32 \<Rightarrow> 's \<Rightarrow> (i32 \<times> 's) act"

subsection \<open>The default implementations\<close>

definition default_read :: "i32 \<Rightarrow> u64 \<Rightarrow> usize \<Rightarrow> i64 act" where
  "default_read fd buf count = act_bind (raw_syscall
     \<lparr>rax = 0, rdi = i32_as_u64 fd, rsi = buf, rdx = count, r10 = 0, r8 = 0, r9 = 0\<rparr>)
     Done"

definition default_write :: "i32 \<Rightarrow> u64 \<Rightarrow> usize \<Rightarrow> i64 act" where
  "default_write fd buf count = act_bind (raw_syscall
     \<lparr>rax = 1, rdi = i32_as_u64 fd, rsi = buf, rdx = count, r10 = 0, r8 = 0, r9 = 0\<rparr>)
     Done"

definition default_open :: "u64 \<Rightarrow> i32 \<Rightarrow> u32 \<Rightarrow> i32 act" where
  "default_open pathname flags mode = act_bind (raw_syscall
     \<lparr>rax = 2, rdi = pathname, rsi = i32_as_u64 flags, rdx = u32_as_u64 mode, r10 = 0, r8 = 0, r9 = 0\<rparr>)
     (\<lambda>r. Done (u64_as_i32 r))"

definition default_close :: "i32 \<Rightarrow> i32 act" where
  "default_close fd = act_bind (raw_syscall
     \<lparr>rax = 3, rdi = i32_as_u64 fd, rsi = 0, rdx = 0, r10 = 0, r8 = 0, r9 = 0\<rparr>)
     (\<lambda>r. Done (u64_as_i32 r))"

definition default_lseek :: "i32 \<Rightarrow> i64 \<Rightarrow> i32 \<Rightarrow> i64 act" where
  "default_lseek fd offset whence = act_bind (raw_syscall
     \<lparr>rax = 8, rdi = i32_as_u64 fd, rsi = offset, rdx = i32_as_u64 whence, r10 = 0, r8 = 0, r9 = 0\<rparr>)
     Done"

definition default_openat :: "i32 \<Rightarrow> u64 \<Rightarrow> i32 \<Rightarrow> u32 \<Rightarrow> i32 act" where
  "default_openat dirfd pathname flags mode = act_bind (raw_syscall
     \<lparr>rax = 257, rdi = i32_as_u64 dirfd, rsi = pathname, rdx = i32_as_u64 flags, r10 = u32_as_u64 mode, r8 = 0, r9 = 0\<rparr>)
     (\<lambda>r. Done (u64_as_i32 r))"

definition default_dup :: "i32 \<Rightarrow> i32 act" where
  "default_dup oldfd = act_bind (raw_syscall
     \<lparr>rax = 32, rdi = i32_as_u64 oldfd, rsi = 0, rdx = 0, r10 = 0, r8 = 0, r9 = 0\<rparr>)
     (\<lambda>r. Done (u64_as_i32 r))"

definition default_dup2 :: "i32 \<Rightarrow> i32 \<Rightarrow> i32 act" where
  "default_dup2 oldfd newfd = act_bind (raw_syscall
     \<lparr>rax = 33, rdi = i32_as_u64 oldfd, rsi = i32_as_u64 newfd, rdx = 0, r10 = 0, r8 = 0, r9 = 0\<rparr>)
     (\<lambda>r. Done (u64_as_i32 r))"

definition default_pipe :: "u64 \<Rightarrow> i32 act" where
  "default_pipe pipefd = act_bind (raw_syscall
     \<lparr>rax = 22, rdi = pipefd, rsi = 0, rdx = 0, r10 = 0, r8 = 0, r9 = 0\<rparr>)
     (\<lambda>r. Done (u64_as_i32 r))"

definition default_mmap :: "u64 \<Rightarrow> usize \<Rightarrow> i32 \<Rightarrow> i32 \<Rightarrow> i32 \<Rightarrow> i64 \<Rightarrow> i64 act" where
  "default_mmap addr len prot flags fd offset = act_bind (raw_syscall
     \<lparr>rax = 9, rdi = addr, rsi = len, rdx = i32_as_u64 prot, r10 = i32_as_u64 flags, r8 = i32_as_u64 fd, r9 = offset\<rparr>)
     Done"

definition default_munmap :: "u64 \<Rightarrow> usize \<Rightarrow> i32 act" where
  "default_munmap addr len = act_bind (raw_syscall
     \<lparr>rax = 11, rdi = addr, rsi = len, rdx = 0, r10 = 0, r8 = 0, r9 = 0\<rparr>)
     (\<lambda>r. Done (u64_as_i32 r))"

definition default_mprotect :: "u64 \<Rightarrow> usize \<Rightarrow> i32 \<Rightarrow> i32 act" where
  "default_mprotect addr len prot = act_bind (raw_syscall
     \<lparr>rax = 10, rdi = addr, rsi = len, rdx = i32_as_u64 prot, r10 = 0, r8 = 0, r9 = 0\<rparr>)
     (\<lambda>r. Done (u64_as_i32 r))"

definition default_brk :: "u64 \<Rightarrow> i32 act" where
  "default_brk addr = act_bind (raw_syscall
     \<lparr>rax = 12, rdi = addr, rsi = 0, rdx = 0, r10 = 0, r8 = 0, r9 = 0\<rparr>)
     (\<lambda>r. Done (u64_as_i32 r))"

definition default_getpid :: "i32 act" where
  "default_getpid = act_bind (raw_syscall
     \<lparr>rax = 39, rdi = 0, rsi = 0, rdx = 0, r10 = 0, r8 = 0, r9 = 0\<rparr>)
     (\<lambda>r. Done (u64_as_i32 r))"

definition default_gettid :: "i32 act" where
  "default_gettid = act_bind (raw_syscall
     \<lparr>rax = 186, rdi = 0, rsi = 0, rdx = 0, r10 = 0, r8 = 0, r9 = 0\<rparr>)
     (\<lambda>r. Done (u64_as_i32 r))"

definition default_fork :: "i32 act" where
  "default_fork = act_bind (raw_syscall
     \<lparr>rax = 57, rdi = 0, rsi = 0, rdx = 0, r10 = 0, r8 = 0, r9 = 0\<rparr>)
     (\<lambda>r. Done (u64_as_i32 r))"

definition default_execve :: "u64 \<Rightarrow> u64 \<Rightarrow> u64 \<Rightarrow> i32 act" where
  "default_execve pathname argv envp = act_bind (raw_syscall
     \<lparr>rax = 59, rdi = pathname, rsi = argv, rdx = envp, r10 = 0, r8 = 0, r9 = 0\<rparr>)
     (\<lambda>r. Done (u64_as_i32 r))"

definition default_exit :: "i32 \<Rightarrow> 'a act" where
  "default_exit status = act_bind (raw_syscall
     \<lparr>rax = 60, rdi = i32_as_u64 status, rsi = 0, rdx = 0, r10 = 0, r8 = 0, r9 = 0\<rparr>)
     (\<lambda>_. Unreachable)"

definition default_exit_group :: "i32 \<Rightarrow> 'a act" where
  "default_exit_group status = act_bind (raw_syscall
     \<lparr>rax = 231, rdi = i32_as_u64 status, rsi = 0, rdx = 0, r10 = 0, r8 = 0, r9 = 0\<rparr>)
     (\<lambda>_. Unreachable)"

definition default_wait4 :: "i32 \<Rightarrow> u64 \<Rightarrow> i32 \<Rightarrow> u64 \<Rightarrow> i32 act" where
  "default_wait4 pid wstatus options rusage = act_bind (raw_syscall
     \<lparr>rax = 61, rdi = i32_as_u64 pid, rsi = wstatus, rdx = i32_as_u64 options, r10 = rusage, r8 = 0, r9 = 0\<rparr>)
     (\<lambda>r. Done (u64_as_i32 r))"

definition default_kill :: "i32 \<Rightarrow> i32 \<Rightarrow> i32 act" where
  "default_kill pid sig = act_bind (raw_syscall
     \<lparr>rax = 62, rdi = i32_as_u64 pid, rsi = i32_as_u64 sig, rdx = 0, r10 = 0, r8 = 0, r9 = 0\<rparr>)
     (\<lambda>r. Done (u64_as_i32 r))"

definition default_socket :: "i32 \<Rightarrow> i32 \<Rightarrow> i32 \<Rightarrow> i32 act" where
  "default_socket domain ty protocol = act_bind (raw_syscall
     \<lparr>rax = 41, rdi = i32_as_u64 domain, rsi = i32_as_u64 ty, rdx = i32_as_u64 protocol, r10 = 0, r8 = 0, r9 = 0\<rparr>)
     (\<lambda>r. Done (u64_as_i32 r))"

definition default_connect :: "i32 \<Rightarrow> u64 \<Rightarrow> u32 \<Rightarrow> i32 act" where
  "default_connect sockfd addr addrlen = act_bind (raw_syscall
     \<lparr>rax = 42, rdi = i32_as_u64 sockfd, rsi = addr, rdx = u32_as_u64 addrlen, r10 = 0, r8 = 0, r9 = 0\<rparr>)
     (\<lambda>r. Done (u64_as_i32 r))"

definition default_accept :: "i32 \<Rightarrow> u64 \<Rightarrow> u64 \<Rightarrow> i32 act" where
  "default_accept sockfd addr addrlen = act_bind (raw_syscall
     \<lparr>rax = 43, rdi = i32_as_u64 sockfd, rsi = addr, rdx = addrlen, r10 = 0, r8 = 0, r9 = 0\<rparr>)
     (\<lambda>r. Done (u64_as_i32 r))"

definition default_bind :: "i32 \<Rightarrow> u64 \<Rightarrow> u32 \<Rightarrow> i32 act" where
  "default_bind sockfd addr addrlen = act_bind (raw_syscall
     \<lparr>rax = 49, rdi = i32_as_u64 sockfd, rsi = addr, rdx = u32_as_u64 addrlen, r10 = 0, r8 = 0, r9 = 0\<rparr>)
     (\<lambda>r. Done (u64_as_i32 r))"

definition default_listen :: "i32 \<Rightarrow> i32 \<Rightarrow> i32 act" where
  "default_listen sockfd backlog = act_bind (raw_syscall
     \<lparr>rax = 50, rdi = i32_as_u64 sockfd, rsi = i32_as_u64 backlog, rdx = 0, r10 = 0, r8 = 0, r9 = 0\<rparr>)
     (\<lambda>r. Done (u64_as_i32 r))"

definition default_ioctl :: "i32 \<Rightarrow> u64 \<Rightarrow> u64 \<Rightarrow> i32 act" where
  "default_ioctl fd request arg = act_bind (raw_syscall
     \<lparr>rax = 16, rdi = i32_as_u64 fd, rsi = request, rdx = arg, r10 = 0, r8 = 0, r9 = 0\<rparr>)
     (\<lambda>r. Done (u64_as_i32 r))"

definition default_access :: "u64 \<Rightarrow> i32 \<Rightarrow> i32 act" where
  "default_access pathname mode = act_bind (raw_syscall
     \<lparr>rax = 21, rdi = pathname, rsi = i32_as_u64 mode, rdx = 0, r10 = 0, r8 = 0, r9 = 0\<rparr>)
     (\<lambda>r. Done (u64_as_i32 r))"

subsection \<open>The trait's provided methods\<close>

definition trait_read :: "i32 \<Rightarrow> u64 \<Rightarrow> usize \<Rightarrow> 's \<Rightarrow> (i64 \<times> 's) act" where
  "trait_read fd buf count self = act_bind (default_read fd buf count) (\<lambda>r. Done (r, self))"

definition trait_write :: "i32 \<Rightarrow> u64 \<Rightarrow> usize \<Rightarrow> 's \<Rightarrow> (i64 \<times> 's) act" where
  "trait_write fd buf count self = act_bind (default_write fd buf count) (\<lambda>r. Done (r, self))"

definition trait_open :: "u64 \<Rightarrow> i32 \<Rightarrow> u32 \<Rightarrow> 's \<Rightarrow> (i32 \<times> 's) act" where
  "trait_open pathname flags mode self = act_bind (default_open pathname flags mode) (\<lambda>r. Done (r, self))"

definition trait_close :: "i32 \<Rightarrow> 's \<Rightarrow> (i32 \<times> 's) act" where
  "trait_close fd self = act_bind (default_close fd) (\<lambda>r. Done (r, self))"

definition trait_lseek :: "i32 \<Rightarrow> i64 \<Rightarrow> i32 \<Rightarrow> 's \<Rightarrow> (i64 \<times> 's) act" where
  "trait_lseek fd offset whence self = act_bind (default_lseek fd offset whence) (\<lambda>r. Done (r, self))"

definition trait_openat :: "i32 \<Rightarrow> u64 \<Rightarrow> i32 \<Rightarrow> u32 \<Rightarrow> 's \<Rightarrow> (i32 \<times> 's) act" where
  "trait_openat dirfd pathname flags mode self = act_bind (default_openat dirfd pathname flags mode) (\<lambda>r. Done (r, self))"

definition trait_dup :: "i32 \<Rightarrow> 's \<Rightarrow> (i32 \<times> 's) act" where
  "trait_dup oldfd self = act_bind (default_dup oldfd) (\<lambda>r. Done (r, self))"

definition trait_dup2 :: "i32 \<Rightarrow> i32 \<Rightarrow> 's \<Rightarrow> (i32 \<times> 's) act" where
  "trait_dup2 oldfd newfd self = act_bind (default_dup2 oldfd newfd) (\<lambda>r. Done (r, self))"

definition trait_pipe :: "u64 \<Rightarrow> 's \<Rightarrow> (i32 \<times> 's) act" where
  "trait_pipe pipefd self = act_bind (default_pipe pipefd) (\<lambda>r. Done (r, self))"

definition trait_mmap :: "u64 \<Rightarrow> usize \<Rightarrow> i32 \<Rightarrow> i32 \<Rightarrow> i32 \<Rightarrow> i64 \<Rightarrow> 's \<Rightarrow> (i64 \<times> 's) act" where
  "trait_mmap addr len prot flags fd offset self = act_bind (default_mmap addr len prot flags fd offset) (\<lambda>r. Done (r, self))"

definition trait_munmap :: "u64 \<Rightarrow> usize \<Rightarrow> 's \<Rightarrow> (i32 \<times> 's) act" where
  "trait_munmap addr len self = act_bind (default_munmap addr len) (\<lambda>r. Done (r, self))"

definition trait_mprotect :: "u64 \<Rightarrow> usize \<Rightarrow> i32 \<Rightarrow> 's \<Rightarrow> (i32 \<times> 's) act" where
  "trait_mprotect addr len prot self = act_bind (default_mprotect addr len prot) (\<lambda>r. Done (r, self))"

definition trait_brk :: "u64 \<Rightarrow> 's \<Rightarrow> (i32 \<times> 's) act" where
  "trait_brk addr self = act_bind (default_brk addr) (\<lambda>r. Done (r, self))"

definition trait_getpid :: "'s \<Rightarrow> (i32 \<times> 's) act" where
  "trait_getpid self = act_bind (default_getpid) (\<lambda>r. Done (r, self))"

definition trait_gettid :: "'s \<Rightarrow> (i32 \<times> 's) act" where
  "trait_gettid self = act_bind (default_gettid) (\<lambda>r. Done (r, self))"

definition trait_fork :: "'s \<Rightarrow> (i32 \<times> 's) act" where
  "trait_fork self = act_bind (default_fork) (\<lambda>r. Done (r, self))"

definition trait_execve :: "u64 \<Rightarrow> u64 \<Rightarrow> u64 \<Rightarrow> 's \<Rightarrow> (i32 \<times> 's) act" where
  "trait_execve pathname argv envp self = act_bind (default_execve pathname argv envp) (\<lambda>r. Done (r, self))"

definition trait_exit :: "i32 \<Rightarrow> 's \<Rightarrow> (i64 \<times> 's) act" where
  "trait_exit status self = default_exit status"

definition trait_exit_group :: "i32 \<Rightarrow> 's \<Rightarrow> (i64 \<times> 's) act" where
  "trait_exit_group status self = default_exit_group status"

definition trait_wait4 :: "i32 \<Rightarrow> u64 \<Rightarrow> i32 \<Rightarrow> u64 \<Rightarrow> 's \<Rightarrow> (i32 \<times> 's) act" where
  "trait_wait4 pid wstatus options rusage self = act_bind (default_wait4 pid wstatus options rusage) (\<lambda>r. Done (r, self))"

definition trait_kill :: "i32 \<Rightarrow> i32 \<Rightarrow> 's \<Rightarrow> (i32 \<times> 's) act" where
  "trait_kill pid sig self = act_bind (default_kill pid sig) (\<lambda>r. Done (r, self))"

definition trait_socket :: "i32 \<Rightarrow> i32 \<Rightarrow> i32 \<Rightarrow> 's \<Rightarrow> (i32 \<times> 's) act" where
  "trait_socket domain ty protocol self = act_bind (default_socket domain ty protocol) (\<lambda>r. Done (r, self))"

definition trait_connect :: "i32 \<Rightarrow> u64 \<Rightarrow> u32 \<Rightarrow> 's \<Rightarrow> (i32 \<times> 's) act" where
  "trait_connect sockfd addr addrlen self = act_bind (default_connect sockfd addr addrlen) (\<lambda>r. Done (r, self))"

definition trait_accept :: "i32 \<Rightarrow> u64 \<Rightarrow> u64 \<Rightarrow> 's \<Rightarrow> (i32 \<times> 's) act" where
  "trait_accept sockfd addr addrlen self = act_bind (default_accept sockfd addr addrlen) (\<lambda>r. Done (r, self))"

definition trait_bind :: "i32 \<Rightarrow> u64 \<Rightarrow> u32 \<Rightarrow> 's \<Rightarrow> (i32 \<times> 's) act" where
  "trait_bind sockfd addr addrlen self = act_bind (default_bind sockfd addr addrlen) (\<lambda>r. Done (r, self))"

definition trait_listen :: "i32 \<Rightarrow> i32 \<Rightarrow> 's \<Rightarrow> (i32 \<times> 's) act" where
  "trait_listen sockfd backlog self = act_bind (default_listen sockfd backlog) (\<lambda>r. Done (r, self))"

definition trait_ioctl :: "i32 \<Rightarrow> u64 \<Rightarrow> u64 \<Rightarrow> 's \<Rightarrow> (i32 \<times> 's) act" where
  "trait_ioctl fd request arg self = act_bind (default_ioctl fd request arg) (\<lambda>r. Done (r, self))"

definition trait_access :: "u64 \<Rightarrow> i32 \<Rightarrow> 's \<Rightarrow> (i32 \<times> 's) act" where
  "trait_access pathname mode self = act_bind (default_access pathname mode) (\<lambda>r. Done (r, self))"

definition default_hooks :: "'s syscall_hooks" where
  "default_hooks = \<lparr>
     hook_read = trait_read,
     hook_write = trait_write,
     hook_open = trait_open,
     hook_close = trait_close,
     hook_lseek = trait_lseek,
     hook_openat = trait_openat,
     hook_dup = trait_dup,
     hook_dup2 = trait_dup2,
     hook_pipe = trait_pipe,
     hook_mmap = trait_mmap,
     hook_munmap = trait_munmap,
     hook_mprotect = trait_mprotect,
     hook_brk = trait_brk,
     hook_getpid = trait_getpid,
     hook_gettid = trait_gettid,
     hook_fork = trait_fork,
     hook_execve = trait_execve,
     hook_exit = trait_exit,
     hook_exit_group = trait_exit_group,
     hook_wait4 = trait_wait4,
     hook_kill = trait_kill,
     hook_socket = trait_socket,
     hook_connect = trait_connect,
     hook_accept = trait_accept,
     hook_bind = trait_bind,
     hook_listen = trait_listen,
     hook_ioctl = trait_ioctl,
     hook_access = trait_access\<rparr>"

subsection \<open>Dispatch\<close>

text \<open>\<open>as i64\<close> on a C integer: sign extension.\<close>

definition as_i64 :: "(i32 \<times> 's) act \<Rightarrow> (i64 \<times> 's) act" where
  "as_i64 t = act_bind t (\<lambda>(r, self). Done (i32_as_u64 r, self))"

definition dispatch_syscall_hooks :: "'s syscall_hooks \<Rightarrow> syscall_regs \<Rightarrow> 's \<Rightarrow> (i64 \<times> 's) act" where
  "dispatch_syscall_hooks h q self =
     (if rax q = 0 then hook_read h (u64_as_i32 (rdi q)) (rsi q) (rdx q) self
     else if rax q = 1 then hook_write h (u64_as_i32 (rdi q)) (rsi q) (rdx q) self
     else if rax q = 2 then as_i64 (hook_open h (rdi q) (u64_as_i32 (rsi q)) (u64_as_i32 (rdx q)) self)
     else if rax q = 3 then as_i64 (hook_close h (u64_as_i32 (rdi q)) self)
     else if rax q = 8 then hook_lseek h (u64_as_i32 (rdi q)) (rsi q) (u64_as_i32 (rdx q)) self
     else if rax q = 9 then hook_mmap h (rdi q) (rsi q) (u64_as_i32 (rdx q)) (u64_as_i32 (r10 q)) (u64_as_i32 (r8 q)) (r9 q) self
     else if rax q = 10 then as_i64 (hook_mprotect h (rdi q) (rsi q) (u64_as_i32 (rdx q)) self)
     else if rax q = 11 then as_i64 (hook_munmap h (rdi q) (rsi q) self)
     else if rax q = 12 then as_i64 (hook_brk h (rdi q) self)
     else if rax q = 16 then as_i64 (hook_ioctl h (u64_as_i32 (rdi q)) (rsi q) (rdx q) self)
     else if rax q = 21 then as_i64 (hook_access h (rdi q) (u64_as_i32 (rsi q)) self)
     else if rax q = 22 then as_i64 (hook_pipe h (rdi q) self)
     else if rax q = 32 then as_i64 (hook_dup h (u64_as_i32 (rdi q)) self)
     else if rax q = 33 then as_i64 (hook_dup2 h (u64_as_i32 (rdi q)) (u64_as_i32 (rsi q)) self)
     else if rax q = 39 then as_i64 (hook_getpid h self)
     else if rax q = 41 then as_i64 (hook_socket h (u64_as_i32 (rdi q)) (u64_as_i32 (rsi q)) (u64_as_i32 (rdx q)) self)
     else if rax q = 42 then as_i64 (hook_connect h (u64_as_i32 (rdi q)) (rsi q) (u64_as_i32 (rdx q)) self)
     else if rax q = 43 then as_i64 (hook_accept h (u64_as_i32 (rdi q)) (rsi q) (rdx q) self)
     else if rax q = 49 then as_i64 (hook_bind h (u64_as_i32 (rdi q)) (rsi q) (u64_as_i32 (rdx q)) self)
     else if rax q = 50 then as_i64 (hook_listen h (u64_as_i32 (rdi q)) (u64_as_i32 (rsi q)) self)
     else if rax q = 57 then as_i64 (hook_fork h self)
     else if rax q = 59 then as_i64 (hook_execve h (rdi q) (rsi q) (rdx q) self)
     else if rax q = 60 then hook_exit h (u64_as_i32 (rdi q)) self
     else if rax q = 61 then as_i64 (hook_wait4 h (u64_as_i32 (rdi q)) (rsi q) (u64_as_i32 (rdx q)) (r10 q) self)
     else if rax q = 62 then as_i64 (hook_kill h (u64_as_i32 (rdi q)) (u64_as_i32 (rsi q)) self)
     else if rax q = 186 then as_i64 (hook_gettid h self)
     else if rax q = 231 then hook_exit_group h (u64_as_i32 (rdi q)) self
     else if rax q = 257 then as_i64 (hook_openat h (u64_as_i32 (rdi q)) (rsi q) (u64_as_i32 (rdx q)) (u64_as_i32 (r10 q)) self)
     else act_bind (raw_syscall q) (\<lambda>r. Done (r, self)))"

subsection \<open>The signature table\<close>

text \<open>
  What the 28 methods have in common, as data: which system call, with how many arguments, of
  which C types.  A \<open>CInt\<close> argument keeps the low half of its register, sign-extended, a \<open>CUint\<close>
  zero-extended; a register beyond the arguments is replaced by 0.  \<open>RetInt\<close> truncates the kernel's
  answer to a C integer and extends it again.
\<close>

datatype arg_kind = CInt | CUint | Wide

datatype ret_kind = RetInt | RetWide | RetNever

definition signature :: "u64 \<Rightarrow> (arg_kind list \<times> ret_kind) option" where
  "signature = map_of
     [(0, ([CInt, Wide, Wide], RetWide)),
      (1, ([CInt, Wide, Wide], RetWide)),
      (2, ([Wide, CInt, CUint], RetInt)),
      (3, ([CInt], RetInt)),
      (8, ([CInt, Wide, CInt], RetWide)),
      (9, ([Wide, Wide, CInt, CInt, CInt, Wide], RetWide)),
      (10, ([Wide, Wide, CInt], RetInt)),
      (11, ([Wide, Wide], RetInt)),
      (12, ([Wide], RetInt)),
      (16, ([CInt, Wide, Wide], RetInt)),
      (21, ([Wide, CInt], RetInt)),
      (22, ([Wide], RetInt)),
      (32, ([CInt], RetInt)),
      (33, ([CInt, CInt], RetInt)),
      (39, ([], RetInt)),
      (41, ([CInt, CInt, CInt], RetInt)),
      (42, ([CInt, Wide, CUint], RetInt)),
      (43, ([CInt, Wide, Wide], RetInt)),
      (49, ([CInt, Wide, CUint], RetInt)),
      (50, ([CInt, CInt], RetInt)),
      (57, ([], RetInt)),
      (59, ([Wide, Wide, Wide], RetInt)),
      (60, ([CInt], RetNever)),
      (61, ([CInt, Wide, CInt, Wide], RetInt)),
      (62, ([CInt, CInt], RetInt)),
      (186, ([], RetInt)),
      (231, ([CInt], RetNever)),
      (257, ([CInt, Wide, CInt, CUint], RetInt))]"

definition convert_arg :: "arg_kind \<Rightarrow> u64 \<Rightarrow> u64" where
  "convert_arg k v = (case k of
       CInt \<Rightarrow> i32_as_u64 (u64_as_i32 v)
     | CUint \<Rightarrow> u32_as_u64 (u64_as_i32 v)
     | Wide \<Rightarrow> v)"

fun convert_args :: "arg_kind list \<Rightarrow> u64 list \<Rightarrow> u64 list" where
  "convert_args (k # ks) (v # vs) = convert_arg k v # convert_args ks vs"
| "convert_args [] (v # vs) = 0 # convert_args [] vs"
| "convert_args ks [] = []"

definition regs_args :: "syscall_regs \<Rightarrow> u64 list" where
  "regs_args q = [rdi q, rsi q, rdx q, r10 q, r8 q, r9 q]"

definition regs_with_args :: "u64 \<Rightarrow> u64 list \<Rightarrow> syscall_regs" where
  "regs_with_args nr vs =
     \<lparr>rax = nr, rdi = vs ! 0, rsi = vs ! 1, rdx = vs ! 2, r10 = vs ! 3, r8 = vs ! 4, r9 = vs ! 5\<rparr>"

definition narrow :: "i64 \<Rightarrow> i64" where
  "narrow r = i32_as_u64 (u64_as_i32 r)"

text \<open>The call a default method makes for given registers, and what it makes of the answer.\<close>

definition canonical_regs :: "syscall_regs \<Rightarrow> syscall_regs" where
  "canonical_regs q = (case signature (rax q) of
       None \<Rightarrow> q
     | Some (ks, _) \<Rightarrow> regs_with_args (rax q) (convert_args ks (regs_args q)))"

definition canonical_ret :: "u64 \<Rightarrow> i64 \<Rightarrow> i64 option" where
  "canonical_ret nr r = (case signature nr of
       None \<Rightarrow> Some r
     | Some (_, RetWide) \<Rightarrow> Some r
     | Some (_, RetInt) \<Rightarrow> Some (narrow r)
     | Some (_, RetNever) \<Rightarrow> None)"

lemmas default_method_defs =
  default_read_def default_write_def default_open_def default_close_def default_lseek_def
  default_openat_def default_dup_def default_dup2_def default_pipe_def default_mmap_def
  default_munmap_def default_mprotect_def default_brk_def default_getpid_def default_gettid_def
  default_fork_def default_execve_def default_exit_def default_exit_group_def default_wait4_def
  default_kill_def default_socket_def default_connect_def default_accept_def default_bind_def
  default_listen_def default_ioctl_def default_access_def

lemmas trait_method_defs =
  trait_read_def trait_write_def trait_open_def trait_close_def trait_lseek_def
  trait_openat_def trait_dup_def trait_dup2_def trait_pipe_def trait_mmap_def
  trait_munmap_def trait_mprotect_def trait_brk_def trait_getpid_def trait_gettid_def
  trait_fork_def trait_execve_def trait_exit_def trait_exit_group_def trait_wait4_def
  trait_kill_def trait_socket_def trait_connect_def trait_accept_def trait_bind_def
  trait_listen_def trait_ioctl_def trait_access_def

lemmas canonical_defs =
  canonical_regs_def canonical_ret_def signature_def regs_with_args_def regs_args_def
  convert_arg_def narrow_def

text \<open>The round trip through a C integer loses nothing exactly when the value fits.\<close>

lemma narrow_fits: "narrow r = r \<longleftrightarrow> fits_i32 r"
proof -
  have "sint (narrow r) = signed_take_bit 31 (sint r)"
    unfolding narrow_def i32_as_u64_def u64_as_i32_def
    by (rule bit_eqI) (auto simp: bit_simps min_def)
  moreover have "narrow r = r \<longleftrightarrow> sint (narrow r) = sint r"
    by (auto intro: signed_word_eqI)
  ultimately show ?thesis
    using signed_take_bit_int_eq_self_iff [of 31 "sint r"] by (simp add: fits_i32_def)
qed

text \<open>The numbers of the table, for the case split that the dispatch makes.\<close>

definition hooked_numbers :: "u64 list" where
  "hooked_numbers = [0, 1, 2, 3, 8, 9, 10, 11, 12, 16, 21, 22, 32, 33, 39, 41, 42, 43, 49, 50, 57, 59, 60, 61, 62, 186, 231, 257]"

lemma dispatch_canonical:
  "dispatch_syscall_hooks default_hooks q self =
     Raw (canonical_regs q) (\<lambda>r. case canonical_ret (rax q) r of
       Some v \<Rightarrow> Done (v, self) | None \<Rightarrow> Unreachable)"
proof (cases "rax q \<in> set hooked_numbers")
  case True
  then show ?thesis
    unfolding hooked_numbers_def
    by (simp only: list.set insert_iff empty_iff, elim disjE)
      (simp_all add: dispatch_syscall_hooks_def default_hooks_def trait_method_defs
        default_method_defs as_i64_def canonical_defs)
next
  case False
  then show ?thesis
    by (simp add: hooked_numbers_def dispatch_syscall_hooks_def canonical_defs)
qed

text \<open>
  C10: dispatching to the trait's provided methods is, for every register state, one raw system call
  with the registers in the canonical form of the signature table, whose answer is returned in the
  canonical form of the result type; \<open>exit\<close> and \<open>exit\_group\<close> do not return.  So the 28 default functions,
  the 28 provided methods and the 28 casts of the dispatch agree with one table of signatures.
\<close>

theorem dispatch_default_canonical:
  "dispatch_syscall_hooks default_hooks q self =
     Raw (canonical_regs q) (\<lambda>r. case canonical_ret (rax q) r of
       Some v \<Rightarrow> Done (v, self) | None \<Rightarrow> Unreachable)"
  by (rule dispatch_canonical)

end
