(* ===== verification/HookApi.thy ===== *)
theory HookApi
  imports SyscallHooks
begin

section \<open>The hook API (\<open>zpoline\_hook\_api/src/lib.rs\<close>)\<close>

text \<open>
  The statics of the crate as one state record: the hook function pointer, the registered trait
  object with its mutex, the re-entrancy guard of every thread, the two call counters; and the
  kernel's state.  The operations are the crate's functions, run to their end by one thread (what
  interleaved threads do to the mutex is in \<open>HookConcurrency\<close>).

  \<open>hook_entry\<close> runs hook code, whose rewritten system call sites call \<open>hook_entry\<close> again.  The
  recursion is bounded by fuel; the theorems show that a depth of two is always enough, because the
  guard makes the inner call a raw one.
\<close>

subsection \<open>State\<close>

type_synonym tid = nat

text \<open>What \<open>HOOK_FUNCTION\<close> may point to: the two functions of the crate, or code at another address.\<close>

datatype hook_fn = Default_hook | Trait_based_hook | Hook_at u64

record ('s, 'w) hook_state =
  hook_function :: hook_fn
  trait_object :: "('s syscall_hooks \<times> 's) option"
  trait_lock :: "tid option"
  trait_poisoned :: bool
  in_hook :: "tid \<Rightarrow> bool"
  hook_entry_call_count :: usize
  trait_hook_call_count :: usize
  world :: 'w

definition initial_state :: "'w \<Rightarrow> ('s, 'w) hook_state" where
  "initial_state w = \<lparr>hook_function = Default_hook, trait_object = None, trait_lock = None,
     trait_poisoned = False, in_hook = (\<lambda>_. False), hook_entry_call_count = 0,
     trait_hook_call_count = 0, world = w\<rparr>"

text \<open>A hook function takes \<open>\&mut SyscallRegs\<close>: it returns the result and the structure it leaves.
  The environment has the kernel and the code at the addresses \<open>Hook_at\<close>.\<close>

type_synonym hook_code = "syscall_regs \<Rightarrow> (i64 \<times> syscall_regs) act"

record 'w hook_env =
  kernel :: "'w kernel"
  code_of :: "u64 \<Rightarrow> hook_code"

text \<open>How a function ends: with a value, never (the kernel does not return from the call), blocked
  on the mutex, by a panic, or in undefined behaviour; \<open>Out_of_fuel\<close> is the bound on the recursion.\<close>

datatype ('a, 'st) run =
    Value 'a 'st
  | No_return 'st
  | Blocked 'st
  | Panic 'st
  | Undefined 'st
  | Out_of_fuel

definition run_bind :: "('a, 'st) run \<Rightarrow> ('a \<Rightarrow> 'st \<Rightarrow> ('b, 'st) run) \<Rightarrow> ('b, 'st) run" where
  "run_bind r f = (case r of
       Value a s \<Rightarrow> f a s
     | No_return s \<Rightarrow> No_return s
     | Blocked s \<Rightarrow> Blocked s
     | Panic s \<Rightarrow> Panic s
     | Undefined s \<Rightarrow> Undefined s
     | Out_of_fuel \<Rightarrow> Out_of_fuel)"

lemma run_bind_simps [simp]:
  "run_bind (Value a s) f = f a s" "run_bind (No_return s) f = No_return s"
  "run_bind (Blocked s) f = Blocked s" "run_bind (Panic s) f = Panic s"
  "run_bind (Undefined s) f = Undefined s" "run_bind Out_of_fuel f = Out_of_fuel"
  by (simp_all add: run_bind_def)

subsection \<open>Running hook code\<close>

definition raw_call :: "'w kernel \<Rightarrow> syscall_regs \<Rightarrow> ('s, 'w) hook_state \<Rightarrow> (i64, ('s, 'w) hook_state) run" where
  "raw_call K q s = (case K q (world s) of
       (None, w) \<Rightarrow> No_return (s\<lparr>world := w\<rparr>)
     | (Some v, w) \<Rightarrow> Value v (s\<lparr>world := w\<rparr>))"

text \<open>\<open>raw\<close> and \<open>site\<close> carry out the two kinds of system call.\<close>

primrec run_act ::
  "(syscall_regs \<Rightarrow> 'st \<Rightarrow> (i64, 'st) run) \<Rightarrow> (syscall_regs \<Rightarrow> 'st \<Rightarrow> (i64, 'st) run) \<Rightarrow>
   'a act \<Rightarrow> 'st \<Rightarrow> ('a, 'st) run" where
  "run_act raw site (Done a) = (\<lambda>s. Value a s)"
| "run_act raw site (Raw q k) = (\<lambda>s. run_bind (raw q s) (\<lambda>v. run_act raw site (k v)))"
| "run_act raw site (Site q k) = (\<lambda>s. run_bind (site q s) (\<lambda>v. run_act raw site (k v)))"
| "run_act raw site Unreachable = (\<lambda>s. Undefined s)"

subsection \<open>The hook functions of the crate\<close>

definition default_hook :: hook_code where
  "default_hook q = act_bind (raw_syscall q) (\<lambda>r. Done (r, q))"

definition hook_init :: "hook_fn \<Rightarrow> ('s, 'w) hook_state \<Rightarrow> ('s, 'w) hook_state" where
  "hook_init fn s = s\<lparr>hook_function := fn\<rparr>"

definition get_hook_fn :: "('s, 'w) hook_state \<Rightarrow> hook_fn" where
  "get_hook_fn s = hook_function s"

definition is_in_hook :: "tid \<Rightarrow> ('s, 'w) hook_state \<Rightarrow> bool" where
  "is_in_hook t s = in_hook s t"

definition get_hook_entry_call_count :: "('s, 'w) hook_state \<Rightarrow> usize" where
  "get_hook_entry_call_count s = hook_entry_call_count s"

definition get_trait_hook_call_count :: "('s, 'w) hook_state \<Rightarrow> usize" where
  "get_trait_hook_call_count s = trait_hook_call_count s"

definition get_trait_dispatch_hook :: hook_fn where
  "get_trait_dispatch_hook = Trait_based_hook"

text \<open>\<open>lock\<close> succeeds or blocks; a poisoned mutex is acquired too, and the guard is inside the error
  value until the end of the arm.  The guard is dropped when the function returns.\<close>

definition trait_based_hook ::
  "'w kernel \<Rightarrow> (syscall_regs \<Rightarrow> ('s, 'w) hook_state \<Rightarrow> (i64, ('s, 'w) hook_state) run) \<Rightarrow> tid \<Rightarrow>
   syscall_regs \<Rightarrow> ('s, 'w) hook_state \<Rightarrow> (i64 \<times> syscall_regs, ('s, 'w) hook_state) run" where
  "trait_based_hook K site t q s =
     (let s = s\<lparr>trait_hook_call_count := trait_hook_call_count s + 1\<rparr> in
      if trait_lock s \<noteq> None then Blocked s
      else
        (let s = s\<lparr>trait_lock := Some t\<rparr> in
         if trait_poisoned s then
           run_bind (raw_call K q s) (\<lambda>v s. Value (v, q) (s\<lparr>trait_lock := None\<rparr>))
         else
           (case trait_object s of
              Some (h, self) \<Rightarrow>
                run_bind (run_act (raw_call K) site (dispatch_syscall_hooks h q self) s)
                  (\<lambda>(v, self) s.
                     Value (v, q) (s\<lparr>trait_object := Some (h, self), trait_lock := None\<rparr>))
            | None \<Rightarrow>
                run_bind (raw_call K q s) (\<lambda>v s. Value (v, q) (s\<lparr>trait_lock := None\<rparr>)))))"

definition call_hook ::
  "'w hook_env \<Rightarrow> (syscall_regs \<Rightarrow> ('s, 'w) hook_state \<Rightarrow> (i64, ('s, 'w) hook_state) run) \<Rightarrow> tid \<Rightarrow>
   hook_fn \<Rightarrow> syscall_regs \<Rightarrow> ('s, 'w) hook_state \<Rightarrow> (i64 \<times> syscall_regs, ('s, 'w) hook_state) run" where
  "call_hook E site t fn q s = (case fn of
       Default_hook \<Rightarrow> run_act (raw_call (kernel E)) site (default_hook q) s
     | Trait_based_hook \<Rightarrow> trait_based_hook (kernel E) site t q s
     | Hook_at a \<Rightarrow> run_act (raw_call (kernel E)) site (code_of E a q) s)"

subsection \<open>\<open>hook_entry\<close>\<close>

text \<open>A rewritten site receives \<open>rax\<close> only.\<close>

definition site_result :: "(i64 \<times> syscall_regs, 'st) run \<Rightarrow> (i64, 'st) run" where
  "site_result r = run_bind r (\<lambda>(v, q). Value v)"

primrec hook_entry ::
  "nat \<Rightarrow> 'w hook_env \<Rightarrow> tid \<Rightarrow> syscall_regs \<Rightarrow> ('s, 'w) hook_state \<Rightarrow>
   (i64 \<times> syscall_regs, ('s, 'w) hook_state) run" where
  "hook_entry 0 E t q s = Out_of_fuel"
| "hook_entry (Suc n) E t q s =
     (let s = s\<lparr>hook_entry_call_count := hook_entry_call_count s + 1\<rparr> in
      if in_hook s t then run_bind (raw_call (kernel E) q s) (\<lambda>v. Value (v, q))
      else
        run_bind
          (call_hook E (\<lambda>q s. site_result (hook_entry n E t q s)) t (get_hook_fn s) q
             (s\<lparr>in_hook := (in_hook s)(t := True)\<rparr>))
          (\<lambda>r s. Value r (s\<lparr>in_hook := (in_hook s)(t := False)\<rparr>)))"

text \<open>A system call that the program makes at a rewritten site.\<close>

definition site_call ::
  "'w hook_env \<Rightarrow> tid \<Rightarrow> syscall_regs \<Rightarrow> ('s, 'w) hook_state \<Rightarrow> (i64, ('s, 'w) hook_state) run" where
  "site_call E t q s = site_result (hook_entry 2 E t q s)"

text \<open>
  \<open>register_syscall_hooks\<close>: \<open>lock().unwrap()\<close> panics on a poisoned mutex; with the mutex held,
  \<open>Box::new\<close> allocates (code \<open>alloc\<close>), the assignment drops the previous box (code \<open>dealloc\<close>), the
  mutex is released and the trait hook becomes the hook function.
\<close>

definition register_syscall_hooks ::
  "'w hook_env \<Rightarrow> unit act \<Rightarrow> unit act \<Rightarrow> tid \<Rightarrow> 's syscall_hooks \<Rightarrow> 's \<Rightarrow> ('s, 'w) hook_state \<Rightarrow>
   (unit, ('s, 'w) hook_state) run" where
  "register_syscall_hooks E alloc dealloc t h self s =
     (if trait_lock s \<noteq> None then Blocked s
      else if trait_poisoned s then Panic s
      else
        (let run = run_act (raw_call (kernel E)) (site_call E t);
             previous = trait_object s in
         run_bind (run alloc (s\<lparr>trait_lock := Some t\<rparr>)) (\<lambda>_ s.
         run_bind
           (if previous = None then Value () s else run dealloc s) (\<lambda>_ s.
         Value () (hook_init Trait_based_hook
           (s\<lparr>trait_object := Some (h, self), trait_lock := None\<rparr>))))))"

subsection \<open>Inside a hook\<close>

text \<open>What hook code changes by itself: the kernel's state and the call counter, nothing else.\<close>

definition quiet :: "('s, 'w) hook_state \<Rightarrow> ('s, 'w) hook_state \<Rightarrow> bool" where
  "quiet s s' \<longleftrightarrow>
     s' = s\<lparr>world := world s', hook_entry_call_count := hook_entry_call_count s'\<rparr>"

lemma quiet_refl [simp]: "quiet s s"
  by (simp add: quiet_def)

lemma quiet_trans [trans]: "quiet s s' \<Longrightarrow> quiet s' s'' \<Longrightarrow> quiet s s''"
  unfolding quiet_def by (cases s, cases s', cases s'') simp

lemma quiet_fields:
  assumes "quiet s s'"
  shows "hook_function s' = hook_function s" "trait_object s' = trait_object s"
    "trait_lock s' = trait_lock s" "trait_poisoned s' = trait_poisoned s" "in_hook s' = in_hook s"
    "trait_hook_call_count s' = trait_hook_call_count s"
  using assms by (cases s; cases s'; simp add: quiet_def)+

lemma quiet_update [simp]: "quiet s (s\<lparr>world := w\<rparr>)" "quiet s (s\<lparr>hook_entry_call_count := c, world := w\<rparr>)"
  "quiet s (s\<lparr>world := w, hook_entry_call_count := c\<rparr>)"
  by (cases s, simp add: quiet_def)+

text \<open>The end of hook code that cannot block, panic or run out of fuel, with its last state.\<close>

definition settled :: "('s, 'w) hook_state \<Rightarrow> ('a, ('s, 'w) hook_state) run \<Rightarrow> bool" where
  "settled s r \<longleftrightarrow> (case r of
       Value a s' \<Rightarrow> quiet s s' | No_return s' \<Rightarrow> quiet s s' | Undefined s' \<Rightarrow> quiet s s'
     | _ \<Rightarrow> False)"

lemma settled_simps [simp]:
  "settled s (Value a s') \<longleftrightarrow> quiet s s'" "settled s (No_return s') \<longleftrightarrow> quiet s s'"
  "settled s (Undefined s') \<longleftrightarrow> quiet s s'" "\<not> settled s (Blocked s')" "\<not> settled s (Panic s')"
  "\<not> settled s Out_of_fuel"
  by (simp_all add: settled_def)

lemma settled_bind:
  assumes "settled s r" "\<And>a s'. r = Value a s' \<Longrightarrow> quiet s s' \<Longrightarrow> settled s' (f a s')"
  shows "settled s (run_bind r f)"
proof (cases r)
  case (Value a s')
  with assms have "quiet s s'" "settled s' (f a s')" by simp_all
  with Value show ?thesis
    by (auto simp: settled_def split: run.splits intro: quiet_trans)
qed (use assms(1) in simp_all)

lemma raw_call_settled [simp]: "settled s (raw_call K q s)"
  by (simp add: raw_call_def split: prod.splits option.splits)

text \<open>A call of \<open>hook_entry\<close> by a thread whose guard is set: the raw call, and one count.\<close>

definition nested_call ::
  "'w hook_env \<Rightarrow> syscall_regs \<Rightarrow> ('s, 'w) hook_state \<Rightarrow> (i64, ('s, 'w) hook_state) run" where
  "nested_call E q s = raw_call (kernel E) q (s\<lparr>hook_entry_call_count := hook_entry_call_count s + 1\<rparr>)"

lemma nested_call_settled [simp]: "settled s (nested_call E q s)"
  by (simp add: nested_call_def raw_call_def split: prod.splits option.splits)

lemma hook_entry_nested:
  "in_hook s t \<Longrightarrow> hook_entry (Suc n) E t q s = run_bind (nested_call E q s) (\<lambda>v. Value (v, q))"
  by (simp add: nested_call_def)

lemma site_result_value [simp]: "site_result (run_bind r (\<lambda>v. Value (v, q))) = r"
  by (cases r) (simp_all add: site_result_def)

text \<open>So hook code that runs with the guard set runs the same way whatever the fuel, and settles.\<close>

abbreviation hook_run :: "'w hook_env \<Rightarrow> 'a act \<Rightarrow> ('s, 'w) hook_state \<Rightarrow> ('a, ('s, 'w) hook_state) run" where
  "hook_run E \<equiv> run_act (raw_call (kernel E)) (nested_call E)"

lemma run_act_settled:
  assumes "\<And>q s. settled s (raw q s)" "\<And>q s. settled s (site q s)"
  shows "settled s (run_act raw site c s)"
proof (induction c arbitrary: s)
  case (Raw q k)
  have "settled s (run_bind (raw q s) (\<lambda>v. run_act raw site (k v)))"
    by (rule settled_bind) (simp_all add: assms Raw)
  then show ?case by simp
next
  case (Site q k)
  have "settled s (run_bind (site q s) (\<lambda>v. run_act raw site (k v)))"
    by (rule settled_bind) (simp_all add: assms Site)
  then show ?case by simp
qed simp_all

lemma hook_run_settled [simp]: "settled s (hook_run E c s)"
  by (rule run_act_settled) simp_all

lemma run_bind_cong:
  "r = r' \<Longrightarrow> (\<And>a s. r = Value a s \<Longrightarrow> f a s = g a s) \<Longrightarrow> run_bind r f = run_bind r' g"
  by (cases r) auto

lemma run_act_guarded:
  "in_hook s t \<Longrightarrow>
   run_act (raw_call (kernel E)) (\<lambda>q s. site_result (hook_entry (Suc n) E t q s)) c s = hook_run E c s"
proof (induction c arbitrary: s)
  case (Raw q k)
  have "in_hook s' t" if "raw_call (kernel E) q s = Value v s'" for v s'
    using raw_call_settled [of s "kernel E" q] Raw.prems that by (simp add: quiet_fields)
  then show ?case
    using Raw.IH by (auto intro!: run_bind_cong simp del: hook_entry.simps)
next
  case (Site q k)
  have "in_hook s' t" if "nested_call E q s = Value v s'" for v s'
    using nested_call_settled [of s E q] Site.prems that by (simp add: quiet_fields)
  then show ?case
    using Site.IH Site.prems
    by (auto intro!: run_bind_cong simp: hook_entry_nested simp del: hook_entry.simps)
qed simp_all

text \<open>The outer call, for a thread whose guard is free: the hook function, run with the guard set.\<close>

definition guarded_hook ::
  "'w hook_env \<Rightarrow> tid \<Rightarrow> syscall_regs \<Rightarrow> ('s, 'w) hook_state \<Rightarrow>
   (i64 \<times> syscall_regs, ('s, 'w) hook_state) run" where
  "guarded_hook E t q s = call_hook E (nested_call E) t (hook_function s) q
     (s\<lparr>hook_entry_call_count := hook_entry_call_count s + 1, in_hook := (in_hook s)(t := True)\<rparr>)"

lemma trait_based_hook_cong:
  assumes "\<And>(c :: (i64 \<times> 's) act) s. in_hook s t \<Longrightarrow>
      run_act (raw_call K) site c s = run_act (raw_call K) site' c s"
    "in_hook s t"
  shows "(trait_based_hook K site t q s :: (i64 \<times> syscall_regs, ('s, 'w) hook_state) run) =
    trait_based_hook K site' t q s"
  using assms by (auto simp: trait_based_hook_def Let_def split: option.splits)

lemma hook_entry_outer:
  assumes "\<not> in_hook s t"
  shows "hook_entry (Suc (Suc n)) E t q s =
    run_bind (guarded_hook E t q s) (\<lambda>r s. Value r (s\<lparr>in_hook := (in_hook s)(t := False)\<rparr>))"
proof -
  let ?site = "\<lambda>q s. site_result (hook_entry (Suc n) E t q s)"
  let ?s = "s\<lparr>hook_entry_call_count := hook_entry_call_count s + 1, in_hook := (in_hook s)(t := True)\<rparr>"
  have g: "in_hook ?s t" by simp
  have "call_hook E ?site t (hook_function s) q ?s = guarded_hook E t q s"
    unfolding call_hook_def guarded_hook_def
    by (simp add: run_act_guarded [OF g] trait_based_hook_cong [OF run_act_guarded g]
        split: hook_fn.splits del: hook_entry.simps)
  moreover have "hook_entry (Suc (Suc n)) E t q s =
      run_bind (call_hook E ?site t (hook_function s) q ?s)
        (\<lambda>r s. Value r (s\<lparr>in_hook := (in_hook s)(t := False)\<rparr>))"
    using assms by (simp add: hook_entry.simps(2) [of "Suc n"] get_hook_fn_def del: hook_entry.simps)
  ultimately show ?thesis by simp
qed

end
