(* ===== verification/HookProperties.thy ===== *)
theory HookProperties
  imports HookApi
begin

section \<open>Properties of the hook API\<close>

text \<open>
  The guard, the fallbacks, and what a rewritten system call comes to under each hook function; then
  the two ways in which the trait hook's mutex can stay locked.
\<close>

subsection \<open>What a hook leaves behind\<close>

definition same_statics :: "('s, 'w) hook_state \<Rightarrow> ('s, 'w) hook_state \<Rightarrow> bool" where
  "same_statics s s' \<longleftrightarrow> hook_function s' = hook_function s \<and> in_hook s' = in_hook s \<and>
     trait_poisoned s' = trait_poisoned s"

lemma same_statics_quiet: "quiet s s' \<Longrightarrow> same_statics s s' \<and> trait_lock s' = trait_lock s"
  by (simp add: same_statics_def quiet_fields)

definition after_hook :: "('s, 'w) hook_state \<Rightarrow> ('a, ('s, 'w) hook_state) run \<Rightarrow> bool" where
  "after_hook s r \<longleftrightarrow> (case r of
       Value a s' \<Rightarrow> same_statics s s' \<and> trait_lock s' = trait_lock s
     | No_return s' \<Rightarrow> same_statics s s'
     | Blocked s' \<Rightarrow> trait_lock s \<noteq> None \<and> same_statics s s'
     | Panic s' \<Rightarrow> False
     | Undefined s' \<Rightarrow> same_statics s s'
     | Out_of_fuel \<Rightarrow> False)"

lemma after_hook_settled: "settled s r \<Longrightarrow> after_hook s r"
  by (auto simp: after_hook_def settled_def split: run.splits dest: same_statics_quiet)

lemma locked_after:
  assumes "trait_lock s = None" "settled (s\<lparr>trait_hook_call_count := c, trait_lock := Some t\<rparr>) r"
  shows "after_hook s (run_bind r (\<lambda>a s'. Value (b a) (s'\<lparr>trait_lock := None\<rparr>)))"
    "after_hook s (run_bind r (\<lambda>a s'. Value (b a) (s'\<lparr>trait_object := g a, trait_lock := None\<rparr>)))"
  using assms by (cases r; auto simp: after_hook_def same_statics_def dest: quiet_fields)+

lemma trait_based_hook_after: "after_hook s (trait_based_hook (kernel E) (nested_call E) t q s)"
proof (cases "trait_lock s")
  case None
  then show ?thesis
    by (auto simp: trait_based_hook_def Let_def split_def intro!: locked_after raw_call_settled hook_run_settled
        split: option.splits)
qed (simp add: trait_based_hook_def Let_def after_hook_def same_statics_def)

lemma call_hook_after: "after_hook s (call_hook E (nested_call E) t fn q s)"
  by (cases fn) (simp_all add: call_hook_def trait_based_hook_after after_hook_settled)

lemma guarded_hook_after:
  "after_hook (s\<lparr>hook_entry_call_count := hook_entry_call_count s + 1, in_hook := (in_hook s)(t := True)\<rparr>)
     (guarded_hook E t q s)"
  by (simp add: guarded_hook_def call_hook_after)

lemma hook_entry_clean:
  assumes "hook_entry 2 E t q s = Value r s'"
  shows "in_hook s' = in_hook s \<and> trait_lock s' = trait_lock s \<and>
    trait_poisoned s' = trait_poisoned s \<and> hook_function s' = hook_function s"
proof (cases "in_hook s t")
  case True
  with assms nested_call_settled [of s E q] show ?thesis
    by (cases "nested_call E q s")
      (auto simp: numeral_2_eq_2 hook_entry_nested quiet_fields simp del: hook_entry.simps)
next
  case False
  with assms obtain s1 where "guarded_hook E t q s = Value r s1"
    and "s' = s1\<lparr>in_hook := (in_hook s1)(t := False)\<rparr>"
    by (cases "guarded_hook E t q s")
      (auto simp: numeral_2_eq_2 hook_entry_outer simp del: hook_entry.simps)
  with False guarded_hook_after [of s t E q] show ?thesis
    by (simp add: after_hook_def same_statics_def fun_upd_idem)
qed

subsection \<open>The run of each hook function\<close>

definition counted :: "('s, 'w) hook_state \<Rightarrow> ('s, 'w) hook_state" where
  "counted s = s\<lparr>hook_entry_call_count := hook_entry_call_count s + 1\<rparr>"

text \<open>The state in which the registered object is called.\<close>

definition locked :: "tid \<Rightarrow> ('s, 'w) hook_state \<Rightarrow> ('s, 'w) hook_state" where
  "locked t s = s\<lparr>hook_entry_call_count := hook_entry_call_count s + 1,
     in_hook := (in_hook s)(t := True),
     trait_hook_call_count := trait_hook_call_count s + 1, trait_lock := Some t\<rparr>"

definition trait_ready :: "tid \<Rightarrow> ('s, 'w) hook_state \<Rightarrow> bool" where
  "trait_ready t s \<longleftrightarrow> hook_function s = Trait_based_hook \<and> \<not> in_hook s t \<and> trait_lock s = None"

lemma entry_trait:
  assumes "trait_ready t s" "\<not> trait_poisoned s" "trait_object s = Some (h, self)"
  shows "hook_entry 2 E t q s =
    run_bind (hook_run E (dispatch_syscall_hooks h q self) (locked t s))
      (\<lambda>(v, self') s'. Value (v, q) (s'\<lparr>trait_object := Some (h, self'), trait_lock := None,
         in_hook := (in_hook s')(t := False)\<rparr>))"
proof -
  have "hook_entry 2 E t q s = run_bind (guarded_hook E t q s)
      (\<lambda>r s. Value r (s\<lparr>in_hook := (in_hook s)(t := False)\<rparr>))"
    using assms(1) hook_entry_outer [of s t 0] by (simp add: trait_ready_def numeral_2_eq_2)
  moreover have "guarded_hook E t q s =
      run_bind (hook_run E (dispatch_syscall_hooks h q self) (locked t s))
        (\<lambda>(v, self') s'. Value (v, q) (s'\<lparr>trait_object := Some (h, self'), trait_lock := None\<rparr>))"
    using assms by (simp add: guarded_hook_def call_hook_def trait_based_hook_def locked_def
        trait_ready_def Let_def)
  ultimately show ?thesis
    by (cases "hook_run E (dispatch_syscall_hooks h q self) (locked t s)")
      (simp_all split: prod.splits)
qed

lemma entry_trait_fallback:
  assumes "trait_ready t s" "trait_poisoned s \<or> trait_object s = None"
  shows "hook_entry 2 E t q s =
    run_bind (raw_call (kernel E) q (locked t s))
      (\<lambda>v s'. Value (v, q) (s'\<lparr>trait_lock := None, in_hook := (in_hook s')(t := False)\<rparr>))"
proof -
  have "hook_entry 2 E t q s = run_bind (guarded_hook E t q s)
      (\<lambda>r s. Value r (s\<lparr>in_hook := (in_hook s)(t := False)\<rparr>))"
    using assms(1) hook_entry_outer [of s t 0] by (simp add: trait_ready_def numeral_2_eq_2)
  moreover have "guarded_hook E t q s = run_bind (raw_call (kernel E) q (locked t s))
        (\<lambda>v s'. Value (v, q) (s'\<lparr>trait_lock := None\<rparr>))"
    using assms by (auto simp: guarded_hook_def call_hook_def trait_based_hook_def locked_def
        trait_ready_def Let_def)
  ultimately show ?thesis
    by (cases "raw_call (kernel E) q (locked t s)") simp_all
qed

lemma entry_default:
  assumes "hook_function s = Default_hook" "\<not> in_hook s t"
  shows "hook_entry 2 E t q s =
    run_bind (raw_call (kernel E) q (s\<lparr>hook_entry_call_count := hook_entry_call_count s + 1,
        in_hook := (in_hook s)(t := True)\<rparr>))
      (\<lambda>v s'. Value (v, q) (s'\<lparr>in_hook := (in_hook s')(t := False)\<rparr>))"
proof -
  have "hook_entry 2 E t q s = run_bind (guarded_hook E t q s)
      (\<lambda>r s. Value r (s\<lparr>in_hook := (in_hook s)(t := False)\<rparr>))"
    using assms hook_entry_outer [of s t 0] by (simp add: numeral_2_eq_2)
  moreover have "guarded_hook E t q s = run_bind (raw_call (kernel E) q
       (s\<lparr>hook_entry_call_count := hook_entry_call_count s + 1, in_hook := (in_hook s)(t := True)\<rparr>))
        (\<lambda>v. Value (v, q))"
    using assms by (simp add: guarded_hook_def call_hook_def default_hook_def)
  ultimately show ?thesis
    by (cases "raw_call (kernel E) q (s\<lparr>hook_entry_call_count := hook_entry_call_count s + 1,
        in_hook := (in_hook s)(t := True)\<rparr>)") simp_all
qed

text \<open>With the trait's provided methods: one raw call in canonical form.\<close>

lemma entry_trait_default:
  assumes "trait_ready t s" "\<not> trait_poisoned s" "trait_object s = Some (default_hooks, self)"
  shows "hook_entry 2 E t q s =
    (case kernel E (canonical_regs q) (world s) of
       (None, w) \<Rightarrow> No_return ((locked t s)\<lparr>world := w\<rparr>)
     | (Some r, w) \<Rightarrow>
         (case canonical_ret (rax q) r of
            None \<Rightarrow> Undefined ((locked t s)\<lparr>world := w\<rparr>)
          | Some v \<Rightarrow> Value (v, q) ((counted s)\<lparr>
              trait_hook_call_count := trait_hook_call_count s + 1, world := w\<rparr>)))"
proof -
  have "world (locked t s) = world s" by (simp add: locked_def)
  moreover have "(locked t s)\<lparr>world := w, trait_object := Some (default_hooks, self), trait_lock := None,
      in_hook := (in_hook (locked t s))(t := False)\<rparr> =
    (counted s)\<lparr>trait_hook_call_count := trait_hook_call_count s + 1, world := w\<rparr>" for w
    using assms by (cases s) (simp add: locked_def counted_def trait_ready_def fun_upd_idem)
  ultimately show ?thesis
    by (simp add: entry_trait [OF assms] dispatch_canonical raw_call_def
        split: prod.splits option.splits)
qed

subsection \<open>The guard\<close>

text \<open>
  C16: re-entrancy is bounded: whatever hook is installed and however many rewritten system calls its
  code makes, \<open>hook\_entry\<close> nests at most two deep.  Any larger bound on the depth gives the same run,
  the bound is never exhausted, and no panic can occur.
\<close>

theorem hook_entry_depth:
  "hook_entry (Suc (Suc n)) E t q s = hook_entry 2 E t q s \<and>
   hook_entry 2 E t q s \<noteq> Out_of_fuel \<and> (\<forall>s'. hook_entry 2 E t q s \<noteq> Panic s')"
proof (cases "in_hook s t")
  case True
  then have "hook_entry (Suc m) E t q s = run_bind (nested_call E q s) (\<lambda>v. Value (v, q))" for m
    by (rule hook_entry_nested)
  then show ?thesis
    using nested_call_settled [of s E q] by (cases "nested_call E q s") (simp_all add: numeral_2_eq_2)
next
  case False
  then have "hook_entry (Suc (Suc m)) E t q s = run_bind (guarded_hook E t q s)
      (\<lambda>r s. Value r (s\<lparr>in_hook := (in_hook s)(t := False)\<rparr>))" for m
    by (rule hook_entry_outer)
  then show ?thesis
    using guarded_hook_after [of s t E q]
    by (cases "guarded_hook E t q s") (simp_all add: numeral_2_eq_2 after_hook_def)
qed

text \<open>
  A system call that hook code makes at a rewritten site goes straight to the kernel: with the
  thread's guard set, \<open>hook\_entry\<close> is the raw system call with the same registers, whatever hook is
  installed and whoever holds the mutex; only the call counter shows it.
\<close>

lemma hook_entry_reentrant:
  assumes "in_hook s t"
  shows "hook_entry (Suc n) E t q s =
    (case kernel E q (world s) of
       (None, w) \<Rightarrow> No_return (s\<lparr>hook_entry_call_count := hook_entry_call_count s + 1, world := w\<rparr>)
     | (Some v, w) \<Rightarrow>
         Value (v, q) (s\<lparr>hook_entry_call_count := hook_entry_call_count s + 1, world := w\<rparr>))"
  by (subst hook_entry_nested [OF assms])
    (simp add: nested_call_def raw_call_def split: prod.splits option.splits)

text \<open>A kernel for the witnesses: \<open>exit\<close> does not return, every other call returns its number plus 1000
  and is logged.\<close>

definition log_kernel :: "syscall_regs list kernel" where
  "log_kernel q w = (if rax q = 60 then (None, w @ [q]) else (Some (rax q + 1000), w @ [q]))"

definition log_env :: "syscall_regs list hook_env" where
  "log_env = \<lparr>kernel = log_kernel, code_of = (\<lambda>_. default_hook)\<rparr>"

definition trait_state :: "('s, syscall_regs list) hook_state \<Rightarrow> 's \<Rightarrow> ('s, syscall_regs list) hook_state" where
  "trait_state s self = s\<lparr>hook_function := Trait_based_hook, trait_object := Some (default_hooks, self)\<rparr>"

text \<open>
  C18: the guard protocol.  When \<open>hook\_entry\<close> returns, it has released what it took: the thread's guard
  is as it was (set exactly if it was set before), so are the guards of all other threads, the mutex,
  its poison flag and the hook pointer, for every hook, result and kernel.
\<close>

theorem hook_entry_restores:
  assumes "hook_entry 2 E t q s = Value r s'"
  shows "in_hook s' = in_hook s \<and> trait_lock s' = trait_lock s \<and>
    trait_poisoned s' = trait_poisoned s \<and> hook_function s' = hook_function s"
  using assms by (rule hook_entry_clean)

lemma canonical_uname:
  "canonical_regs (syscall_regs_new 63 a b c d e f) = syscall_regs_new 63 a b c d e f"
  "canonical_ret 63 r = Some r"
  by (simp_all add: canonical_regs_def canonical_ret_def signature_def syscall_regs_new_def)

definition example_regs :: syscall_regs where
  "example_regs = syscall_regs_new 63 1 2 3 4 5 6"

lemma example_canonical [simp]:
  "rax example_regs = 63" "canonical_regs example_regs = example_regs" "canonical_ret 63 r = Some r"
  by (simp_all add: example_regs_def canonical_uname) (simp add: syscall_regs_new_def)

lemma trait_state_ready [simp]:
  "trait_ready t (trait_state (initial_state w) self)" "\<not> trait_poisoned (trait_state (initial_state w) self)"
  "trait_object (trait_state (initial_state w) self) = Some (default_hooks, self)"
  "world (trait_state (initial_state w) self) = w" "kernel log_env = log_kernel"
  by (simp_all add: trait_ready_def trait_state_def initial_state_def log_env_def)

theorem hook_entry_restores_witness:
  "\<exists>r s'. hook_entry 2 log_env 3 example_regs (trait_state (initial_state []) ()) = Value r s' \<and>
     \<not> in_hook s' 3 \<and> trait_lock s' = None"
proof -
  obtain r s' where run: "hook_entry 2 log_env 3 example_regs (trait_state (initial_state []) ()) = Value r s'"
    by (simp add: entry_trait_default log_kernel_def)
  then show ?thesis
    using hook_entry_restores [OF run] by (simp add: trait_state_def initial_state_def)
qed

subsection \<open>Transparency\<close>

text \<open>
  Without a registered hook the detour is invisible: a system call at a rewritten site is exactly
  the raw system call, with the same registers, result and effect on the kernel; the call counter goes
  up by one and every other static is as before.  (If the kernel does not return, neither does
  \<open>hook\_entry\<close>, and the guard stays set.)
\<close>

lemma default_site_call:
  assumes "hook_function s = Default_hook" and "\<not> in_hook s t"
  shows "site_call E t q s =
    (case kernel E q (world s) of
       (None, w) \<Rightarrow> No_return ((counted s)\<lparr>in_hook := (in_hook s)(t := True), world := w\<rparr>)
     | (Some v, w) \<Rightarrow> Value v ((counted s)\<lparr>world := w\<rparr>))"
proof -
  have "(counted s)\<lparr>in_hook := (in_hook s)(t := True), world := w, in_hook := (in_hook s)(t := False)\<rparr> =
      (counted s)\<lparr>world := w\<rparr>" for w
    using assms(2) by (cases s) (simp add: counted_def fun_upd_idem)
  then show ?thesis
    unfolding site_call_def entry_default [OF assms]
    by (simp add: raw_call_def site_result_def counted_def split: prod.splits option.splits)
qed

text \<open>
  The fallbacks of the trait hook.  With no object registered, or with the mutex poisoned, the
  trait hook makes the raw system call with the registers as they are and returns its result; the
  mutex and the guard are free again afterwards and the statics are unchanged but for the two counters.
\<close>

lemma trait_hook_fallback:
  assumes "trait_ready t s" and "trait_poisoned s \<or> trait_object s = None"
  shows "site_call E t q s =
    (case kernel E q (world s) of
       (None, w) \<Rightarrow> No_return ((locked t s)\<lparr>world := w\<rparr>)
     | (Some v, w) \<Rightarrow> Value v ((counted s)\<lparr>
         trait_hook_call_count := trait_hook_call_count s + 1, world := w\<rparr>))"
proof -
  have "world (locked t s) = world s" by (simp add: locked_def)
  moreover have "(locked t s)\<lparr>world := w, trait_lock := None, in_hook := (in_hook (locked t s))(t := False)\<rparr> =
      (counted s)\<lparr>trait_hook_call_count := trait_hook_call_count s + 1, world := w\<rparr>" for w
    using assms(1) by (cases s) (simp add: locked_def counted_def trait_ready_def fun_upd_idem)
  ultimately show ?thesis
    unfolding site_call_def entry_trait_fallback [OF assms]
    by (simp add: raw_call_def site_result_def split: prod.splits option.splits)
qed

text \<open>
  A call that the trait's typed signature represents: the kernel looks only at the part of the
  registers that the C types keep, and its answer fits the result type.
\<close>

definition fits_signature :: "'w kernel \<Rightarrow> syscall_regs \<Rightarrow> 'w \<Rightarrow> bool" where
  "fits_signature K q w \<longleftrightarrow> K (canonical_regs q) w = K q w \<and>
     (case fst (K q w) of None \<Rightarrow> True | Some r \<Rightarrow> canonical_ret (rax q) r = Some r)"

text \<open>
  C26: registering an object that overrides nothing is transparent for every call its signatures
  represent: the rewritten call has the result and the effect of the raw one, the object's state and
  all other statics are as before, and both counters have gone up by one.
\<close>

theorem trait_default_transparent:
  assumes "trait_ready t s" and "\<not> trait_poisoned s" and "trait_object s = Some (default_hooks, self)"
    and "fits_signature (kernel E) q (world s)"
  shows "site_call E t q s =
    (case kernel E q (world s) of
       (None, w) \<Rightarrow> No_return ((locked t s)\<lparr>world := w\<rparr>)
     | (Some v, w) \<Rightarrow> Value v ((counted s)\<lparr>
         trait_hook_call_count := trait_hook_call_count s + 1, world := w\<rparr>))"
  using assms(4) unfolding site_call_def entry_trait_default [OF assms(1-3)]
  by (auto simp: fits_signature_def site_result_def split: prod.splits option.splits)

theorem trait_default_transparent_witness:
  "\<exists>s'. site_call log_env 3 example_regs (trait_state (initial_state []) ()) = Value 1063 s' \<and>
     world s' = [example_regs]"
  by (subst trait_default_transparent)
    (simp_all add: fits_signature_def log_kernel_def)

text \<open>
  C32: what the typed signatures lose.  Under the default methods an answer of the kernel that does not
  fit a C integer comes back as a different value for every call with an integer result; this
  includes \<open>brk\<close>, whose answer is an address.
\<close>

theorem trait_default_truncates:
  assumes "trait_ready t s" and "\<not> trait_poisoned s" and "trait_object s = Some (default_hooks, self)"
    and "signature (rax q) = Some (ks, RetInt)"
    and "kernel E (canonical_regs q) (world s) = (Some r, w)" and "\<not> fits_i32 r"
  shows "signature 12 = Some ([Wide], RetInt) \<and>
    (\<exists>v s'. site_call E t q s = Value v s' \<and> world s' = w \<and> v = narrow r \<and> v \<noteq> r)"
  using assms(4-6) unfolding site_call_def entry_trait_default [OF assms(1-3)]
  by (simp add: site_result_def canonical_ret_def narrow_fits counted_def signature_def)

text \<open>A kernel whose heap ends at 0x555555576000.\<close>

definition brk_env :: "unit hook_env" where
  "brk_env = \<lparr>kernel = (\<lambda>q w. (Some 0x555555576000, w)), code_of = (\<lambda>_. default_hook)\<rparr>"

theorem trait_default_truncates_witness:
  "\<exists>v s'. site_call brk_env 3 (syscall_regs_new 12 0 0 0 0 0 0)
      ((initial_state ())\<lparr>hook_function := Trait_based_hook, trait_object := Some (default_hooks, ())\<rparr>) =
      Value v s' \<and> v \<noteq> 0x555555576000"
proof -
  let ?s = "(initial_state ())\<lparr>hook_function := Trait_based_hook, trait_object := Some (default_hooks, ())\<rparr>
    :: (unit, unit) hook_state"
  have ready: "trait_ready 3 ?s" "\<not> trait_poisoned ?s" "trait_object ?s = Some (default_hooks, ())"
    by (simp_all add: trait_ready_def initial_state_def)
  have call: "signature (rax (syscall_regs_new 12 0 0 0 0 0 0)) = Some ([Wide], RetInt)"
    "kernel brk_env (canonical_regs (syscall_regs_new 12 0 0 0 0 0 0)) (world ?s) = (Some 0x555555576000, ())"
    "\<not> fits_i32 0x555555576000"
    by (simp_all add: signature_def syscall_regs_new_def brk_env_def fits_i32_def)
  show ?thesis
    using trait_default_truncates [OF ready call] by blast
qed

subsection \<open>The mutex that stays locked\<close>

text \<open>
  C30: a thread that ends inside the trait hook takes the mutex with it.  When the registered object
  leaves \<open>exit\<close> to the default and the kernel ends the thread, the mutex stays locked in its name and its
  guard stays set; from then on every rewritten system call of every other thread blocks, and so does
  every further registration.
\<close>

theorem exit_in_trait_hook_deadlocks:
  assumes "trait_ready t s" and "\<not> trait_poisoned s" and "trait_object s = Some (default_hooks, self)"
    and "rax q = 60" and "kernel E (canonical_regs q) (world s) = (None, w)"
    and "t' \<noteq> t" and "\<not> in_hook s t'"
  shows "\<exists>s1. site_call E t q s = No_return s1 \<and> trait_lock s1 = Some t \<and> in_hook s1 t \<and>
    (\<exists>s2. site_call E t' p s1 = Blocked s2) \<and>
    (\<exists>s3. register_syscall_hooks E alloc dealloc t' h' self' s1 = Blocked s3)"
proof -
  let ?s1 = "(locked t s)\<lparr>world := w\<rparr>"
  have exit: "site_call E t q s = No_return ?s1"
    using assms(5) unfolding site_call_def entry_trait_default [OF assms(1-3)]
    by (simp add: site_result_def)
  have held: "trait_lock ?s1 = Some t" "in_hook ?s1 t" "\<not> in_hook ?s1 t'"
    "hook_function ?s1 = Trait_based_hook"
    using assms(1,6,7) by (simp_all add: locked_def trait_ready_def)
  have "\<exists>s2. guarded_hook E t' p ?s1 = Blocked s2"
    using held by (simp add: guarded_hook_def call_hook_def trait_based_hook_def Let_def)
  then have "\<exists>s2. site_call E t' p ?s1 = Blocked s2"
    using hook_entry_outer [OF held(3), of 0] by (auto simp: site_call_def numeral_2_eq_2 site_result_def)
  moreover have "register_syscall_hooks E alloc dealloc t' h' self' ?s1 = Blocked ?s1"
    using held by (simp add: register_syscall_hooks_def)
  ultimately show ?thesis using exit held by blast
qed

theorem exit_in_trait_hook_deadlocks_witness:
  "\<exists>s1 s2. site_call log_env 3 (syscall_regs_new 60 0 0 0 0 0 0) (trait_state (initial_state []) ()) =
       No_return s1 \<and> site_call log_env 4 example_regs s1 = Blocked s2"
proof -
  have q: "rax (syscall_regs_new 60 0 0 0 0 0 0) = 60"
    "kernel log_env (canonical_regs (syscall_regs_new 60 0 0 0 0 0 0)) (world (trait_state (initial_state []) ())) =
      (None, [canonical_regs (syscall_regs_new 60 0 0 0 0 0 0)])"
    by (simp_all add: syscall_regs_new_def log_kernel_def canonical_defs)
  have "(4 :: tid) \<noteq> 3" "\<not> in_hook (trait_state (initial_state []) ()) 4"
    by (simp_all add: trait_state_def initial_state_def)
  then show ?thesis
    using exit_in_trait_hook_deadlocks [OF trait_state_ready(1-3) q] by blast
qed

subsection \<open>Registration\<close>

text \<open>Allocator code while registration holds the mutex, under the default hook.\<close>

lemma comes_back_run:
  assumes "comes_back c" "hook_function s = Default_hook" "\<And>q w. fst (kernel E q w) \<noteq> None"
  shows "\<exists>a s'. run_act (raw_call (kernel E)) (site_call E t) c s = Value a s' \<and> quiet s s'"
  using assms(1,2)
proof (induction c arbitrary: s)
  case (Raw q k)
  have "\<exists>v s1. raw_call (kernel E) q s = Value v s1 \<and> quiet s s1"
    using assms(3) [of q "world s"] by (auto simp: raw_call_def split: prod.splits option.splits)
  then obtain v s1 where s1: "raw_call (kernel E) q s = Value v s1" "quiet s s1" by blast
  then have "\<exists>a s'. run_act (raw_call (kernel E)) (site_call E t) (k v) s1 = Value a s' \<and> quiet s1 s'"
    using Raw.prems by (intro Raw.IH) (simp_all add: quiet_fields)
  with s1 show ?case by (auto intro: quiet_trans)
next
  case (Site q k)
  have "\<exists>v s'. site_call E t q s = Value v s' \<and> quiet s s'"
  proof (cases "in_hook s t")
    case True
    then have "site_call E t q s = nested_call E q s"
      using hook_entry_nested [of s t 1] by (simp add: site_call_def numeral_2_eq_2)
    then show ?thesis
      using assms(3) [of q "world s"]
      by (auto simp: nested_call_def raw_call_def split: prod.splits option.splits)
  next
    case False
    have "s\<lparr>hook_entry_call_count := hook_entry_call_count s + 1, in_hook := (in_hook s)(t := True),
        world := w, in_hook := (in_hook s)(t := False)\<rparr> =
      s\<lparr>hook_entry_call_count := hook_entry_call_count s + 1, world := w\<rparr>" for w
      using False by (cases s) (simp add: fun_upd_idem)
    then show ?thesis
      using assms(3) [of q "world s"]
      unfolding site_call_def entry_default [OF Site.prems(2) False]
      by (auto simp: raw_call_def site_result_def split: prod.splits option.splits)
  qed
  then obtain v s1 where s1: "site_call E t q s = Value v s1" "quiet s s1" by blast
  then have "\<exists>a s'. run_act (raw_call (kernel E)) (site_call E t) (k v) s1 = Value a s' \<and> quiet s1 s'"
    using Site.prems by (intro Site.IH) (simp_all add: quiet_fields)
  with s1 show ?case by (auto intro: quiet_trans)
qed simp_all

lemma register_returns:
  assumes "hook_function s = Default_hook" and "trait_lock s = None" and "\<not> trait_poisoned s"
    and "comes_back alloc" and "comes_back dealloc" and "\<And>q w. fst (kernel E q w) \<noteq> None"
  obtains s1 where "register_syscall_hooks E alloc dealloc t h self s = Value () s1"
    and "hook_function s1 = Trait_based_hook" and "trait_object s1 = Some (h, self)"
    and "trait_lock s1 = None" and "in_hook s1 = in_hook s" and "\<not> trait_poisoned s1"
proof -
  let ?run = "run_act (raw_call (kernel E)) (site_call E t)"
  let ?s0 = "s\<lparr>trait_lock := Some t\<rparr>"
  obtain x sa where sa: "?run alloc ?s0 = Value x sa" "quiet ?s0 sa"
    using comes_back_run [OF assms(4) _ assms(6), of ?s0 t] assms(1) by auto
  obtain y sb where sb: "(if trait_object s = None then Value () sa else ?run dealloc sa) = Value y sb"
    "quiet sa sb"
    using comes_back_run [OF assms(5) _ assms(6), of sa t] assms(1) quiet_fields(1) [OF sa(2)]
    by (cases "trait_object s") auto
  let ?s1 = "hook_init Trait_based_hook (sb\<lparr>trait_object := Some (h, self), trait_lock := None\<rparr>)"
  have kept: "in_hook sb = in_hook s" "trait_poisoned sb = trait_poisoned s"
    using quiet_fields [OF sa(2)] quiet_fields [OF sb(2)] by simp_all
  have "register_syscall_hooks E alloc dealloc t h self s = Value () ?s1"
    using assms(2,3) sa(1) sb(1) by (simp add: register_syscall_hooks_def Let_def)
  with kept assms(3) show ?thesis
    by (intro that [of ?s1]) (simp_all add: hook_init_def)
qed

lemma register_installs:
  assumes "hook_function s = Default_hook" and "trait_lock s = None" and "\<not> trait_poisoned s"
    and "comes_back alloc" and "comes_back dealloc" and "\<And>q w. fst (kernel E q w) \<noteq> None"
  shows "\<exists>s1. register_syscall_hooks E alloc dealloc t h self s = Value () s1 \<and>
    hook_function s1 = Trait_based_hook \<and> trait_object s1 = Some (h, self) \<and>
    trait_lock s1 = None \<and> in_hook s1 = in_hook s \<and>
    (in_hook s u \<or> hook_entry 2 E u q s1 =
       run_bind (hook_run E (dispatch_syscall_hooks h q self) (locked u s1))
         (\<lambda>(v, self') s'. Value (v, q) (s'\<lparr>trait_object := Some (h, self'), trait_lock := None,
            in_hook := (in_hook s')(u := False)\<rparr>)))"
proof -
  obtain s1 where s1: "register_syscall_hooks E alloc dealloc t h self s = Value () s1"
    "hook_function s1 = Trait_based_hook" "trait_object s1 = Some (h, self)"
    "trait_lock s1 = None" "in_hook s1 = in_hook s" "\<not> trait_poisoned s1"
    using register_returns [OF assms] by metis
  then have "trait_ready u s1" if "\<not> in_hook s u" using that by (simp add: trait_ready_def)
  then show ?thesis
    using s1 entry_trait [of u s1 h self E q] by auto
qed

text \<open>
  Registering works: on a free, unpoisoned mutex, while the default hook is installed, with
  allocator code that makes any calls the kernel answers, \<open>register\_syscall\_hooks\<close> returns; the
  object is stored, the mutex is free, the trait hook is installed, no guard has changed, and the next
  rewritten call of a thread outside a hook is the dispatch to the object.
\<close>

lemma register_syscall_hooks_installs:
  assumes "hook_function s = Default_hook" and "trait_lock s = None" and "\<not> trait_poisoned s"
    and "comes_back alloc" and "comes_back dealloc" and "\<And>q w. fst (kernel E q w) \<noteq> None"
  shows "\<exists>s1. register_syscall_hooks E alloc dealloc t h self s = Value () s1 \<and>
    hook_function s1 = Trait_based_hook \<and> trait_object s1 = Some (h, self) \<and>
    trait_lock s1 = None \<and> in_hook s1 = in_hook s \<and>
    (in_hook s u \<or> hook_entry 2 E u q s1 =
       run_bind (hook_run E (dispatch_syscall_hooks h q self) (locked u s1))
         (\<lambda>(v, self') s'. Value (v, q) (s'\<lparr>trait_object := Some (h, self'), trait_lock := None,
            in_hook := (in_hook s')(u := False)\<rparr>)))"
  by (rule register_installs [OF assms])

definition answering_env :: "syscall_regs list hook_env" where
  "answering_env = \<lparr>kernel = (\<lambda>q w. (Some 0, w @ [q])), code_of = (\<lambda>_. default_hook)\<rparr>"

text \<open>
  C31: registering while the trait hook is already installed deadlocks as soon as the allocation of the
  new box makes a rewritten system call: the thread holds the mutex, its guard is not set, and
  \<open>hook\_entry\<close> asks the trait hook, which waits for that same mutex.
\<close>

theorem register_again_deadlocks:
  assumes "trait_ready t s" and "\<not> trait_poisoned s"
  shows "\<exists>s1. register_syscall_hooks E (Site q k) dealloc t h self s = Blocked s1 \<and> trait_lock s1 = Some t"
proof -
  let ?s = "s\<lparr>trait_lock := Some t\<rparr>"
  have free: "\<not> in_hook ?s t" using assms(1) by (simp add: trait_ready_def)
  have "\<exists>s1. guarded_hook E t q ?s = Blocked s1 \<and> trait_lock s1 = Some t"
    using assms(1) by (simp add: guarded_hook_def call_hook_def trait_based_hook_def Let_def trait_ready_def)
  then have "\<exists>s1. site_call E t q ?s = Blocked s1 \<and> trait_lock s1 = Some t"
    using hook_entry_outer [OF free, of 0] by (auto simp: site_call_def numeral_2_eq_2 site_result_def)
  then show ?thesis
    using assms by (auto simp: register_syscall_hooks_def Let_def trait_ready_def)
qed

theorem register_again_deadlocks_witness:
  "\<exists>s1. register_syscall_hooks log_env (Site example_regs (\<lambda>_. Done ())) (Done ()) 3 default_hooks ()
     (trait_state (initial_state []) ()) = Blocked s1"
  using register_again_deadlocks [OF trait_state_ready(1) [of 3 "[]" "()"]
      trait_state_ready(2) [of "[]" "()"], of log_env] by blast

end
