(* ===== verification/HookLibraries.thy ===== *)
theory HookLibraries
  imports HookProperties
begin

section \<open>The hooks of the repository\<close>

text \<open>
  The tracing hooks (\<open>zpoline\_hook\_impl\<close>, \<open>zpoline\_samples/src/main.rs\<close>) and the implementations of
  the trait (\<open>zpoline\_hook\_trait\_example\<close>, \<open>zpoline\_samples/examples\<close>).  Printing is a parameter
  \<open>eprint\<close>, code that may make any system calls.  Two interfaces collect what they have in
  common: a \<open>passthrough_hook\<close> makes the original call exactly once and returns the kernel's answer;
  a \<open>counting_object\<close> does so through the trait and updates its counters.
\<close>

subsection \<open>Formatting\<close>

definition show_dec :: "u64 \<Rightarrow> rstr" where
  "show_dec n = show_radix 10 (unat n)"

definition show_hex :: "u64 \<Rightarrow> rstr" where
  "show_hex n = lit ''0x'' @ show_radix 16 (unat n)"

definition show_i32 :: "i32 \<Rightarrow> rstr" where
  "show_i32 n = (if sint n < 0 then lit ''-'' @ show_radix 10 (nat (- sint n))
     else show_radix 10 (nat (sint n)))"

definition show_args :: "syscall_regs \<Rightarrow> rstr" where
  "show_args q = join (lit '', '')
     [show_hex (rdi q), show_hex (rsi q), show_hex (rdx q), show_hex (r10 q), show_hex (r8 q), show_hex (r9 q)]"

type_synonym printer = "rstr \<Rightarrow> unit act"

subsection \<open>The tracing hooks\<close>

definition name_in :: "(u64 \<times> string) list \<Rightarrow> u64 \<Rightarrow> rstr" where
  "name_in names nr = (case map_of names nr of Some s \<Rightarrow> lit s | None \<Rightarrow> lit ''<unknown>'')"

definition hook_impl_names :: "(u64 \<times> string) list" where
  "hook_impl_names =
     [(0, ''read''), (1, ''write''), (2, ''open''), (3, ''close''), (4, ''stat''), (5, ''fstat''),
      (6, ''lstat''), (7, ''poll''), (8, ''lseek''), (9, ''mmap''), (10, ''mprotect''),
      (11, ''munmap''), (12, ''brk''), (13, ''rt_sigaction''), (14, ''rt_sigprocmask''),
      (15, ''rt_sigreturn''), (16, ''ioctl''), (17, ''pread64''), (18, ''pwrite64''),
      (19, ''readv''), (20, ''writev''), (21, ''access''), (22, ''pipe''), (23, ''select''),
      (24, ''sched_yield''), (25, ''mremap''), (26, ''msync''), (27, ''mincore''),
      (28, ''madvise''), (29, ''shmget''), (30, ''shmat''), (31, ''shmctl''), (32, ''dup''),
      (33, ''dup2''), (34, ''pause''), (35, ''nanosleep''), (36, ''getitimer''), (37, ''alarm''),
      (38, ''setitimer''), (39, ''getpid''), (40, ''sendfile''), (41, ''socket''),
      (42, ''connect''), (43, ''accept''), (44, ''sendto''), (45, ''recvfrom''), (46, ''sendmsg''),
      (47, ''recvmsg''), (48, ''shutdown''), (49, ''bind''), (50, ''listen''),
      (51, ''getsockname''), (52, ''getpeername''), (53, ''socketpair''), (54, ''setsockopt''),
      (55, ''getsockopt''), (56, ''clone''), (57, ''fork''), (58, ''vfork''), (59, ''execve''),
      (60, ''exit''), (61, ''wait4''), (62, ''kill''), (63, ''uname''), (186, ''gettid''),
      (231, ''exit_group''), (257, ''openat''), (262, ''newfstatat'')]"

definition zpoline_hook_function :: "printer \<Rightarrow> hook_code" where
  "zpoline_hook_function eprint q =
     act_bind (eprint (lit ''[HOOK] '' @ name_in hook_impl_names (rax q) @ lit '' (nr='' @ show_dec (rax q) @
       lit '', args=['' @ show_args q @ lit ''])'')) (\<lambda>_.
     act_bind (raw_syscall q) (\<lambda>r. Done (r, q)))"

definition zpoline_hook_init :: "printer \<Rightarrow> u64 \<Rightarrow> hook_fn act" where
  "zpoline_hook_init eprint zpoline_hook_function_addr =
     act_bind (eprint (lit ''[zpoline_hook_impl] Hook library loaded in separate namespace''))
       (\<lambda>_. Done (Hook_at zpoline_hook_function_addr))"

definition trace_names :: "(u64 \<times> string) list" where
  "trace_names =
     [(0, ''read''), (1, ''write''), (2, ''open''), (3, ''close''), (4, ''stat''), (5, ''fstat''),
      (9, ''mmap''), (10, ''mprotect''), (11, ''munmap''), (39, ''getpid''), (60, ''exit''),
      (158, ''arch_prctl''), (186, ''gettid''), (231, ''exit_group'')]"

definition trace_hook :: "printer \<Rightarrow> hook_code" where
  "trace_hook eprint q =
     act_bind (eprint (lit ''[TRACE] syscall: '' @ name_in trace_names (rax q) @ lit '' (nr='' @ show_dec (rax q) @
       lit '', args=['' @ show_args q @ lit ''])'')) (\<lambda>_.
     act_bind (raw_syscall q) (\<lambda>r. Done (r, q)))"

subsection \<open>\<open>StatsHook\<close> (\<open>zpoline\_hook\_trait\_example\<close>)\<close>

text \<open>The library's four static counters are the object's state.\<close>

record stats_counters =
  WRITE_COUNT :: usize
  READ_COUNT :: usize
  OPEN_COUNT :: usize
  GETPID_COUNT :: usize

definition stats_counters_zero :: stats_counters where
  "stats_counters_zero = \<lparr>WRITE_COUNT = 0, READ_COUNT = 0, OPEN_COUNT = 0, GETPID_COUNT = 0\<rparr>"

definition stats_log :: "printer \<Rightarrow> string \<Rightarrow> i32 \<Rightarrow> usize \<Rightarrow> usize \<Rightarrow> unit act" where
  "stats_log eprint name fd count count_val =
     (if count_val < 3 then
        eprint (lit ''[TRAIT HOOK] '' @ lit name @ lit ''(fd='' @ show_i32 fd @ lit '', count='' @
          show_dec count @ lit '') - call #'' @ show_dec (count_val + 1))
      else Done ())"

definition stats_hook_write :: "printer \<Rightarrow> i32 \<Rightarrow> u64 \<Rightarrow> usize \<Rightarrow> stats_counters \<Rightarrow> (i64 \<times> stats_counters) act" where
  "stats_hook_write eprint fd buf count self =
     (let count_val = WRITE_COUNT self; self = self\<lparr>WRITE_COUNT := count_val + 1\<rparr> in
      act_bind (stats_log eprint ''write'' fd count count_val) (\<lambda>_.
      act_bind (default_write fd buf count) (\<lambda>r. Done (r, self))))"

definition stats_hook_read :: "printer \<Rightarrow> i32 \<Rightarrow> u64 \<Rightarrow> usize \<Rightarrow> stats_counters \<Rightarrow> (i64 \<times> stats_counters) act" where
  "stats_hook_read eprint fd buf count self =
     (let count_val = READ_COUNT self; self = self\<lparr>READ_COUNT := count_val + 1\<rparr> in
      act_bind (stats_log eprint ''read'' fd count count_val) (\<lambda>_.
      act_bind (default_read fd buf count) (\<lambda>r. Done (r, self))))"

definition stats_hook_open :: "u64 \<Rightarrow> i32 \<Rightarrow> u32 \<Rightarrow> stats_counters \<Rightarrow> (i32 \<times> stats_counters) act" where
  "stats_hook_open pathname flags mode self =
     (let self = self\<lparr>OPEN_COUNT := OPEN_COUNT self + 1\<rparr> in
      act_bind (default_open pathname flags mode) (\<lambda>r. Done (r, self)))"

definition stats_hook_getpid :: "stats_counters \<Rightarrow> (i32 \<times> stats_counters) act" where
  "stats_hook_getpid self =
     (let self = self\<lparr>GETPID_COUNT := GETPID_COUNT self + 1\<rparr> in
      act_bind default_getpid (\<lambda>r. Done (r, self)))"

definition stats_hook :: "printer \<Rightarrow> stats_counters syscall_hooks" where
  "stats_hook eprint = default_hooks\<lparr>hook_write := stats_hook_write eprint,
     hook_read := stats_hook_read eprint, hook_open := stats_hook_open, hook_getpid := stats_hook_getpid\<rparr>"

text \<open>\<open>init_hooks\<close>, run by the library's constructor, and its entry point for the loader.\<close>

definition init_hooks ::
  "'w hook_env \<Rightarrow> printer \<Rightarrow> unit act \<Rightarrow> unit act \<Rightarrow> tid \<Rightarrow> stats_counters \<Rightarrow>
   (stats_counters, 'w) hook_state \<Rightarrow> (unit, (stats_counters, 'w) hook_state) run" where
  "init_hooks E eprint alloc dealloc t counters s =
     (let run = run_act (raw_call (kernel E)) (site_call E t) in
      run_bind (run (eprint (lit ''[zpoline_hook_trait_example] Initializing trait-based hooks...'')) s) (\<lambda>_ s.
      run_bind (register_syscall_hooks E alloc dealloc t (stats_hook eprint) counters s) (\<lambda>_ s.
      run (eprint (lit ''[zpoline_hook_trait_example] Hooks registered successfully'')) s)))"

definition trait_example_hook_init :: "printer \<Rightarrow> hook_fn act" where
  "trait_example_hook_init eprint =
     act_bind (eprint (lit ''[zpoline_hook_trait_example] zpoline_hook_init called''))
       (\<lambda>_. Done get_trait_dispatch_hook)"

definition stats_get_stats :: "printer \<Rightarrow> stats_counters \<Rightarrow> unit act" where
  "stats_get_stats eprint counters =
     act_bind (eprint (lit ''=== Syscall Statistics (from hook library) ==='')) (\<lambda>_.
     act_bind (eprint (lit ''write() calls: '' @ show_dec (WRITE_COUNT counters))) (\<lambda>_.
     act_bind (eprint (lit ''read() calls: '' @ show_dec (READ_COUNT counters))) (\<lambda>_.
     act_bind (eprint (lit ''open() calls: '' @ show_dec (OPEN_COUNT counters))) (\<lambda>_.
     eprint (lit ''getpid() calls: '' @ show_dec (GETPID_COUNT counters))))))"

subsection \<open>\<open>LoggingHook\<close> (\<open>zpoline\_samples/examples/simple\_hooks.rs\<close>)\<close>

record logging_counters =
  log_write_count :: usize
  log_read_count :: usize
  log_open_count :: usize
  log_getpid_count :: usize

definition logging_hook_write :: "i32 \<Rightarrow> u64 \<Rightarrow> usize \<Rightarrow> logging_counters \<Rightarrow> (i64 \<times> logging_counters) act" where
  "logging_hook_write fd buf count self =
     (let self = self\<lparr>log_write_count := log_write_count self + 1\<rparr> in
      act_bind (default_write fd buf count) (\<lambda>r. Done (r, self)))"

definition logging_hook_read :: "i32 \<Rightarrow> u64 \<Rightarrow> usize \<Rightarrow> logging_counters \<Rightarrow> (i64 \<times> logging_counters) act" where
  "logging_hook_read fd buf count self =
     (let self = self\<lparr>log_read_count := log_read_count self + 1\<rparr> in
      act_bind (default_read fd buf count) (\<lambda>r. Done (r, self)))"

definition logging_hook_open :: "u64 \<Rightarrow> i32 \<Rightarrow> u32 \<Rightarrow> logging_counters \<Rightarrow> (i32 \<times> logging_counters) act" where
  "logging_hook_open pathname flags mode self =
     (let self = self\<lparr>log_open_count := log_open_count self + 1\<rparr> in
      act_bind (default_open pathname flags mode) (\<lambda>r. Done (r, self)))"

definition logging_hook_getpid :: "logging_counters \<Rightarrow> (i32 \<times> logging_counters) act" where
  "logging_hook_getpid self =
     (let self = self\<lparr>log_getpid_count := log_getpid_count self + 1\<rparr> in
      act_bind default_getpid (\<lambda>r. Done (r, self)))"

definition logging_hook :: "logging_counters syscall_hooks" where
  "logging_hook = default_hooks\<lparr>hook_write := logging_hook_write, hook_read := logging_hook_read,
     hook_open := logging_hook_open, hook_getpid := logging_hook_getpid\<rparr>"

subsection \<open>\<open>StatisticsHook\<close> (\<open>zpoline\_samples/examples/trait\_hooks.rs\<close>)\<close>

record statistics_hook_state =
  write_count :: usize
  read_count :: usize
  open_count :: usize
  total_bytes_written :: usize
  total_bytes_read :: usize

definition statistics_new :: statistics_hook_state where
  "statistics_new = \<lparr>write_count = 0, read_count = 0, open_count = 0, total_bytes_written = 0,
     total_bytes_read = 0\<rparr>"

definition newline :: rstr where
  "newline = [10]"

definition print_statistics :: "printer \<Rightarrow> statistics_hook_state \<Rightarrow> unit act" where
  "print_statistics eprint self =
     act_bind (eprint (newline @ lit ''========== Syscall Statistics =========='')) (\<lambda>_.
     act_bind (eprint (lit ''write() calls: '' @ show_dec (write_count self))) (\<lambda>_.
     act_bind (eprint (lit ''  Total bytes written: '' @ show_dec (total_bytes_written self))) (\<lambda>_.
     act_bind (eprint (lit ''read() calls: '' @ show_dec (read_count self))) (\<lambda>_.
     act_bind (eprint (lit ''  Total bytes read: '' @ show_dec (total_bytes_read self))) (\<lambda>_.
     act_bind (eprint (lit ''open() calls: '' @ show_dec (open_count self))) (\<lambda>_.
     eprint (lit ''========================================'' @ newline)))))))"

definition statistics_hook_write ::
  "i32 \<Rightarrow> u64 \<Rightarrow> usize \<Rightarrow> statistics_hook_state \<Rightarrow> (i64 \<times> statistics_hook_state) act" where
  "statistics_hook_write fd buf count self =
     (let self = self\<lparr>write_count := write_count self + 1\<rparr> in
      act_bind (default_write fd buf count) (\<lambda>result.
      Done (result,
        if 0 < sint result then self\<lparr>total_bytes_written := total_bytes_written self + result\<rparr> else self)))"

definition statistics_hook_read ::
  "i32 \<Rightarrow> u64 \<Rightarrow> usize \<Rightarrow> statistics_hook_state \<Rightarrow> (i64 \<times> statistics_hook_state) act" where
  "statistics_hook_read fd buf count self =
     (let self = self\<lparr>read_count := read_count self + 1\<rparr> in
      act_bind (default_read fd buf count) (\<lambda>result.
      Done (result,
        if 0 < sint result then self\<lparr>total_bytes_read := total_bytes_read self + result\<rparr> else self)))"

text \<open>\<open>c_str\<close> is the text of the C string at an address.\<close>

definition statistics_hook_open ::
  "printer \<Rightarrow> (u64 \<Rightarrow> rstr) \<Rightarrow> u64 \<Rightarrow> i32 \<Rightarrow> u32 \<Rightarrow> statistics_hook_state \<Rightarrow> (i32 \<times> statistics_hook_state) act" where
  "statistics_hook_open eprint c_str pathname flags mode self =
     (let self = self\<lparr>open_count := open_count self + 1\<rparr>;
          path_str = (if pathname \<noteq> 0 then c_str pathname else lit ''<null>'') in
      act_bind (eprint (lit ''[HOOK] open('' @ [34] @ path_str @ [34] @ lit '', flags='' @
        lit ''0x'' @ show_radix 16 (unat flags) @ lit '', mode='' @ lit ''0o'' @ show_radix 8 (unat mode) @
        lit '')'')) (\<lambda>_.
      act_bind (default_open pathname flags mode) (\<lambda>r. Done (r, self))))"

definition statistics_hook_getpid ::
  "printer \<Rightarrow> statistics_hook_state \<Rightarrow> (i32 \<times> statistics_hook_state) act" where
  "statistics_hook_getpid eprint self =
     act_bind default_getpid (\<lambda>pid.
     act_bind (eprint (lit ''[HOOK] getpid() = '' @ show_i32 pid)) (\<lambda>_. Done (pid, self)))"

definition statistics_hook :: "printer \<Rightarrow> (u64 \<Rightarrow> rstr) \<Rightarrow> statistics_hook_state syscall_hooks" where
  "statistics_hook eprint c_str = default_hooks\<lparr>hook_write := statistics_hook_write,
     hook_read := statistics_hook_read, hook_open := statistics_hook_open eprint c_str,
     hook_getpid := statistics_hook_getpid eprint\<rparr>"

end
