(* ===== verification/Loader.thy ===== *)
theory Loader
  imports Trampoline HookLibraries
begin

section \<open>The loader (\<open>zpoline\_loader/src/{lib,init,dlmopen}.rs\<close>)\<close>

text \<open>
  The constructor of the preloaded library: set the trampoline up, rewrite the process, load the hook
  library.  The standard library's environment (\<open>env::var\<close>, \<open>current_exe\<close>, \<open>Path::exists\<close>, the file
  \<^verbatim>\<open>/proc/self/maps\<close>), \<open>mmap\<close>, \<open>mprotect\<close>, the decoder and the dynamic linker are the fields of
  \<open>loader_env\<close>.  The lines printed to standard error are kept in the state.
\<close>

subsection \<open>State and environment\<close>

record 'os loader_state =
  proc :: "'os process"
  stderr_lines :: "rstr list"
  installed_hook :: hook_fn
  init_done :: bool

text \<open>
  \<open>dlmopen\<close> and \<open>dlsym\<close> return 0 for a null pointer; \<open>call_init\<close> is the call of the symbol at an
  address, \<open>debug_path\<close> is \<open>\{:?\}\<close> on a path, \<open>show_errno\<close> and \<open>show_io\<close> are \<open>\{\}\<close> on errors.
\<close>

record ('os, 'e) loader_env =
  platform_of :: "'os platform"
  mmap_of :: "'os mmap"
  open_file :: "'os process \<Rightarrow> rstr \<Rightarrow> 'e + ('e + rstr) list"
  show_io :: "'e \<Rightarrow> rstr"
  show_errno :: "errno \<Rightarrow> rstr"
  debug_path :: "path \<Rightarrow> rstr"
  env_var :: "rstr \<Rightarrow> rstr option"
  current_exe :: "path option"
  path_exists :: "path \<Rightarrow> bool"
  hook_entry_at :: u64
  raw_syscall_at :: u64
  dlmopen :: "rstr \<Rightarrow> 'os process \<Rightarrow> u64 \<times> 'os process"
  dlerror :: "rstr option"
  dlsym :: "u64 \<Rightarrow> rstr \<Rightarrow> u64"
  call_init :: "u64 \<Rightarrow> 'os process \<Rightarrow> u64 \<times> 'os process"

definition eprintln :: "rstr \<Rightarrow> 'os loader_state \<Rightarrow> 'os loader_state" where
  "eprintln m s = s\<lparr>stderr_lines := stderr_lines s @ [m]\<rparr>"

text \<open>How an operation ends: with a value, by \<open>process::exit\<close>, by a panic, or never.\<close>

datatype 'a ending = Ended 'a | Exits i32 | Panics | Runs_forever

subsection \<open>\<open>init.rs\<close>\<close>

definition build_rewrite_config :: "('os, 'e) loader_env \<Rightarrow> rewrite_config" where
  "build_rewrite_config env =
     (let config = new_config;
          config =
            (case current_exe env of
               None \<Rightarrow> config
             | Some exe_path \<Rightarrow>
                 (case path_parent exe_path of
                    None \<Rightarrow> config
                  | Some parent \<Rightarrow>
                      exclude_path (path_join parent (lit ''libzpoline_loader.so'')) config));
          hook_api_start = raw_syscall_at env;
          hook_api_end = hook_api_start + 4096;
          config = exclude_range hook_api_start hook_api_end config;
          config = exclude_range 0 65536 config in
      case env_var env (lit ''ZPOLINE_EXCLUDE'') of
        None \<Rightarrow> config
      | Some paths \<Rightarrow>
          fold (\<lambda>path config. if path \<noteq> [] then exclude_path path config else config)
            (split_on (\<lambda>c. c = 58) paths) config)"

definition is_special :: "memory_region \<Rightarrow> bool" where
  "is_special region =
     (case pathname region of
        None \<Rightarrow> False
      | Some path \<Rightarrow> contains_str path (lit ''[vdso]'') \<or> contains_str path (lit ''[vsyscall]''))"

definition region_name :: "('os, 'e) loader_env \<Rightarrow> memory_region \<Rightarrow> rstr" where
  "region_name env region =
     debug_path env (case pathname region of None \<Rightarrow> lit ''[anonymous]'' | Some path \<Rightarrow> path)"

text \<open>One turn of the loop; \<open>None\<close> in the first component is a \<open>continue\<close> or the end of the body.\<close>

definition rewrite_one ::
  "('os, 'e) loader_env \<Rightarrow> memory_region \<Rightarrow> rewriter \<Rightarrow> 'os loader_state \<Rightarrow>
   unit ending \<times> rewriter \<times> 'os loader_state" where
  "rewrite_one env region rw s =
     (if \<not> is_executable region then (Ended (), rw, s)
      else if is_special region then
        (Ended (), rw,
         eprintln (lit ''[zpoline]   Skipping '' @ the (pathname region) @ lit '' (special kernel region)'') s)
      else
        (case rewrite_region (platform_of env) region rw (proc s) of
           (Panicked, rw', p) \<Rightarrow> (Panics, rw', s\<lparr>proc := p\<rparr>)
         | (Loops, rw', p) \<Rightarrow> (Runs_forever, rw', s\<lparr>proc := p\<rparr>)
         | (Returned (Inr count), rw', p) \<Rightarrow>
             (Ended (), rw',
              (if 0 < count then
                 eprintln (lit ''[zpoline]   Rewritten '' @ show_dec count @ lit '' syscalls in '' @
                   region_name env region @ lit '' ('' @ show_hex (mr_start region) @ lit ''-'' @
                   show_hex (mr_end region) @ lit '')'') (s\<lparr>proc := p\<rparr>)
               else s\<lparr>proc := p\<rparr>))
         | (Returned (Inl e), rw', p) \<Rightarrow>
             (Ended (), rw',
              eprintln (lit ''[zpoline]   Warning: Failed to rewrite region '' @ region_name env region @
                lit '': '' @ display_rewrite_error (show_errno env) e) (s\<lparr>proc := p\<rparr>))))"

fun rewrite_regions ::
  "('os, 'e) loader_env \<Rightarrow> memory_region list \<Rightarrow> rewriter \<Rightarrow> 'os loader_state \<Rightarrow>
   unit ending \<times> rewriter \<times> 'os loader_state" where
  "rewrite_regions env [] rw s = (Ended (), rw, s)"
| "rewrite_regions env (region # regions) rw s =
     (case rewrite_one env region rw s of
        (Ended _, rw', s') \<Rightarrow> rewrite_regions env regions rw' s'
      | (crash, rw', s') \<Rightarrow> (crash, rw', s'))"

definition rewrite_syscalls ::
  "('os, 'e) loader_env \<Rightarrow> 'os loader_state \<Rightarrow> (rewrite_error + rewrite_stats) ending \<times> 'os loader_state" where
  "rewrite_syscalls env s =
     (case parse_proc_maps (open_file env (proc s)) of
        Inl e \<Rightarrow> (Ended (Inl (OtherError (lit ''Failed to parse /proc/self/maps: '' @ show_io env e))), s)
      | Inr regions \<Rightarrow>
          (case rewrite_regions env regions (new_rewriter (build_rewrite_config env)) s of
             (Ended _, rw, s') \<Rightarrow> (Ended (Inr (get_stats rw)), s')
           | (Exits c, rw, s') \<Rightarrow> (Exits c, s')
           | (Panics, rw, s') \<Rightarrow> (Panics, s')
           | (Runs_forever, rw, s') \<Rightarrow> (Runs_forever, s')))"

subsection \<open>\<open>dlmopen.rs\<close>\<close>

datatype dlmopen_error = LibraryNotSpecified | DlmopenFailed rstr | SymbolNotFound rstr

definition display_dlmopen_error :: "dlmopen_error \<Rightarrow> rstr" where
  "display_dlmopen_error err =
     (case err of
        LibraryNotSpecified \<Rightarrow> lit ''Hook library path not specified''
      | DlmopenFailed e \<Rightarrow> lit ''dlmopen failed: '' @ e
      | SymbolNotFound s \<Rightarrow> lit ''Symbol not found: '' @ s)"

text \<open>\<open>CString::new\<close> fails on the first nul character, with its byte position in the message.\<close>

definition nul_error :: "rstr \<Rightarrow> rstr" where
  "nul_error s = lit ''nul byte found in provided data at position: '' @
     show_radix 10 (utf8_len (takeWhile (\<lambda>c. c \<noteq> 0) s))"

definition load_hook_library ::
  "('os, 'e) loader_env \<Rightarrow> rstr option \<Rightarrow> 'os loader_state \<Rightarrow> (dlmopen_error + hook_fn) \<times> 'os loader_state" where
  "load_hook_library env lib_path s =
     (case lib_path of
        None \<Rightarrow> (Inl LibraryNotSpecified, s)
      | Some lib_path \<Rightarrow>
          (let s = eprintln (lit ''[zpoline] Loading hook library: '' @ lib_path) s in
           if 0 \<in> set lib_path then
             (Inl (DlmopenFailed (lit ''Invalid path string: '' @ nul_error lib_path)), s)
           else
             (case dlmopen env lib_path (proc s) of (handle, p) \<Rightarrow>
                let s = s\<lparr>proc := p\<rparr> in
                if handle = 0 then
                  (Inl (DlmopenFailed
                     (case dlerror env of None \<Rightarrow> lit ''Unknown error'' | Some m \<Rightarrow> m)), s)
                else
                  (let s = eprintln (lit ''[zpoline] Hook library loaded at handle: '' @ show_hex handle) s;
                       init_fn_ptr = dlsym env handle (lit ''zpoline_hook_init'') in
                   if init_fn_ptr = 0 then (Inl (SymbolNotFound (lit ''zpoline_hook_init'')), s)
                   else
                     (case call_init env init_fn_ptr (proc s) of (hook_fn_ptr, p) \<Rightarrow>
                        let s = s\<lparr>proc := p\<rparr> in
                        if hook_fn_ptr = 0 then
                          (Inl (SymbolNotFound (lit ''hook function returned null'')), s)
                        else
                          (Inr (Hook_at hook_fn_ptr),
                           eprintln (lit ''[zpoline] Hook function initialized: '' @ show_hex hook_fn_ptr) s))))))"

definition get_hook_library_path ::
  "('os, 'e) loader_env \<Rightarrow> 'os loader_state \<Rightarrow> rstr option \<times> 'os loader_state" where
  "get_hook_library_path env s =
     (case env_var env (lit ''ZPOLINE_HOOK'') of
        Some custom_path \<Rightarrow>
          (Some custom_path,
           eprintln (lit ''[zpoline] Using custom hook library from ZPOLINE_HOOK: '' @ custom_path) s)
      | None \<Rightarrow>
          (let default_path =
             (case current_exe env of
                None \<Rightarrow> None
              | Some exe_path \<Rightarrow>
                  (case path_parent exe_path of
                     None \<Rightarrow> None
                   | Some dir \<Rightarrow>
                       (let default_path = path_join dir (lit ''libzpoline_hook_impl.so'') in
                        if path_exists env default_path then Some default_path else None))) in
           case default_path of
             Some p \<Rightarrow> (Some p, eprintln (lit ''[zpoline] Using default hook library: '' @ p) s)
           | None \<Rightarrow>
               (None, eprintln (lit ''[zpoline] No hook library specified, using built-in hook'') s)))"

subsection \<open>\<open>lib.rs\<close>\<close>

definition init_trampoline :: "('os, 'e) loader_env \<Rightarrow> 'os loader_state \<Rightarrow> unit ending \<times> 'os loader_state" where
  "init_trampoline env s =
     (case setup_trampoline (mmap_of env) (hook_entry_at env) (proc s) of
        (None, p) \<Rightarrow> (Panics, s\<lparr>proc := p\<rparr>)
      | (Some (Inr _), p) \<Rightarrow>
          (Ended (), eprintln (lit ''[zpoline] Trampoline setup successful at address 0x0'') (s\<lparr>proc := p\<rparr>))
      | (Some (Inl e), p) \<Rightarrow>
          (Exits 1,
           eprintln (lit ''[zpoline] Run: sudo sysctl -w vm.mmap_min_addr=0'')
             (eprintln (lit ''[zpoline] Make sure /proc/sys/vm/mmap_min_addr is set to 0'')
               (eprintln (lit ''[zpoline] ERROR: Failed to setup trampoline: '' @
                 display_trampoline_error (show_errno env) e) (s\<lparr>proc := p\<rparr>)))))"

definition report_stats :: "rewrite_stats \<Rightarrow> 'os loader_state \<Rightarrow> 'os loader_state" where
  "report_stats st s = fold eprintln
     [lit ''[zpoline] Code rewriting completed:'',
      lit ''[zpoline]   Regions scanned: '' @ show_dec (regions_scanned st),
      lit ''[zpoline]   Regions rewritten: '' @ show_dec (regions_rewritten st),
      lit ''[zpoline]   Syscalls replaced: '' @ show_dec (syscalls_replaced st),
      lit ''[zpoline]   Sysenters replaced: '' @ show_dec (sysenters_replaced st),
      lit ''[zpoline]   Regions skipped: '' @ show_dec (regions_skipped st)] s"

definition init_rewrite :: "('os, 'e) loader_env \<Rightarrow> 'os loader_state \<Rightarrow> unit ending \<times> 'os loader_state" where
  "init_rewrite env s =
     (case rewrite_syscalls env s of
        (Ended (Inr st), s) \<Rightarrow> (Ended (), report_stats st s)
      | (Ended (Inl e), s) \<Rightarrow>
          (Exits 1, eprintln (lit ''[zpoline] ERROR: Failed to rewrite syscalls: '' @
             display_rewrite_error (show_errno env) e) s)
      | (Exits c, s) \<Rightarrow> (Exits c, s)
      | (Panics, s) \<Rightarrow> (Panics, s)
      | (Runs_forever, s) \<Rightarrow> (Runs_forever, s))"

definition init_hook_library :: "('os, 'e) loader_env \<Rightarrow> 'os loader_state \<Rightarrow> 'os loader_state" where
  "init_hook_library env s =
     (case get_hook_library_path env s of
        (Some lib_path, s) \<Rightarrow>
          (case load_hook_library env (Some lib_path) s of
             (Inr hook_fn, s) \<Rightarrow>
               (eprintln (lit ''[zpoline] Hook library loaded successfully'') s)\<lparr>installed_hook := hook_fn\<rparr>
           | (Inl e, s) \<Rightarrow>
               eprintln (lit ''[zpoline] Continuing with default hook'')
                 (eprintln (lit ''[zpoline] Warning: Failed to load hook library: '' @
                   display_dlmopen_error e) s))
      | (None, s) \<Rightarrow>
          eprintln (lit ''[zpoline] Using built-in default hook (no separate namespace)'') s)"

text \<open>The closure of \<open>call_once\<close>, and the constructor: \<open>Once\<close> runs it at most once.\<close>

definition zpoline_init_body :: "('os, 'e) loader_env \<Rightarrow> 'os loader_state \<Rightarrow> unit ending \<times> 'os loader_state" where
  "zpoline_init_body env s =
     (case init_trampoline env (eprintln (lit ''[zpoline] Initializing zpoline-rs...'') s) of
        (Ended _, s) \<Rightarrow>
          (case init_rewrite env s of
             (Ended _, s) \<Rightarrow>
               (Ended (), eprintln (lit ''[zpoline] Initialization complete!'') (init_hook_library env s))
           | (crash, s) \<Rightarrow> (crash, s))
      | (crash, s) \<Rightarrow> (crash, s))"

definition zpoline_init :: "('os, 'e) loader_env \<Rightarrow> 'os loader_state \<Rightarrow> unit ending \<times> 'os loader_state" where
  "zpoline_init env s =
     (if init_done s then (Ended (), s)
      else
        (case zpoline_init_body env s of
           (Ended _, s) \<Rightarrow> (Ended (), s\<lparr>init_done := True\<rparr>)
         | (crash, s) \<Rightarrow> (crash, s)))"

definition zpoline_get_version :: rstr where
  "zpoline_get_version = lit ''zpoline-rs 0.1.0'' @ [0]"

end
