(* ===== verification/RewriterProperties.thy ===== *)
theory RewriterProperties
  imports Rewriter
begin

section \<open>Correctness of \<open>rewrite\_region\<close>\<close>

text \<open>
  The properties of one region's rewriting: its exact effect on memory, what it never touches,
  that it neither panics nor loops, that it is idempotent (re-decoding the patched code finds the
  same instruction boundaries), its page arithmetic, the protections it requests, its error paths
  and its dry run.  The witnesses run it on a small address space with a concrete platform.
\<close>

subsection \<open>Re-decoding patched code\<close>

lemma is_site_patched: "is_site (patched code S) q \<longleftrightarrow> is_site code q \<and> q \<notin> S"
proof (cases "Suc q < length code")
  case True
  then have "q < length code" by simp
  have "is_site code q \<Longrightarrow> 0 < q \<Longrightarrow> \<not> is_site code (q - 1)"
    using is_site_neighbour(2) by blast
  with True \<open>q < length code\<close> show ?thesis
    by (cases "is_site code q") (auto simp: is_site_def dest: is_siteD)
qed (simp add: is_site_def)

lemma patched_at_site:
  assumes "p \<in> S" "is_site code p"
  shows "drop p (patched code S) = 0xff # 0xd0 # drop (p + 2) (patched code S)"
proof -
  note site = is_siteD [OF assms(2)] is_site_neighbour(1) [OF assms(2)]
  have "patched code S ! p = 0xff" "patched code S ! Suc p = 0xd0"
    using assms site by (simp_all add: patched_def del: upt_Suc)
  then show ?thesis
    using site(1,2) by (simp add: Cons_nth_drop_Suc [symmetric])
qed

lemma unpatched_at_site:
  assumes "is_site code p"
  shows "drop p code = 0x0f # 0x05 # drop (p + 2) code \<or> drop p code = 0x0f # 0x34 # drop (p + 2) code"
  using is_siteD [OF assms] by (auto simp: Cons_nth_drop_Suc [symmetric])

text \<open>At every instruction boundary the patched code decodes to an instruction of the same
  length: \<open>call rax\<close> where a site was replaced, the same instruction elsewhere.\<close>

lemma redecode:
  fixes dec base code
  defines "S \<equiv> {p. (\<exists>t. decoded dec base code p t) \<and> is_site code p}"
  assumes "decoder_progress dec" "decoder_x86 dec" "decoder_local dec"
    and p: "boundary dec base code 0 p" "p < length code"
  shows "len_at dec base (patched code S) p = len_at dec base code p"
    and "kind_at dec base (patched code S) p = (if p \<in> S then None else kind_at dec base code p)"
proof -
  let ?code = "patched code S" and ?l = "len_at dec base code p"
  have "len_at dec base ?code p = ?l \<and>
      kind_at dec base ?code p = (if p \<in> S then None else kind_at dec base code p)"
  proof (cases "p \<in> S")
    case True
    then have site: "is_site code p" by (simp add: S_def)
    have "?l = 2"
      using unpatched_at_site [OF site] \<open>decoder_x86 dec\<close> by (auto simp: len_at_def decoder_x86_def)
    moreover have "dec (base + of_nat p) (drop p ?code) = (2, MOther)"
      using patched_at_site [OF True site] \<open>decoder_x86 dec\<close> by (simp add: decoder_x86_def)
    ultimately show ?thesis
      using True by (simp add: len_at_def kind_at_def type_of_mnemonic_def)
  next
    case False
    have clear: "q \<notin> S" if q: "p \<le> q + 1" "q < p + ?l" for q
    proof
      assume "q \<in> S"
      then have "boundary dec base code 0 q" and site: "is_site code q"
        by (auto simp: S_def decoded_def)
      have "len_at dec base code q = 2"
        using unpatched_at_site [OF site] \<open>decoder_x86 dec\<close> by (auto simp: len_at_def decoder_x86_def)
      moreover have "q \<noteq> p" using False \<open>q \<in> S\<close> by auto
      ultimately show False
        using boundary_disjoint [OF \<open>decoder_progress dec\<close> \<open>boundary dec base code 0 q\<close> p(1)]
          boundary_disjoint [OF \<open>decoder_progress dec\<close> p(1) \<open>boundary dec base code 0 q\<close>]
          q p(2) is_siteD(2) [OF site] by linarith
    qed
    have "?code ! j = code ! j" if "p \<le> j" "j < p + ?l" "j < length code" for j
    proof -
      have "j \<notin> S" using that clear by simp
      moreover have "0 < j \<Longrightarrow> j - 1 \<notin> S" using that clear by simp
      ultimately show ?thesis using that(3) by (cases j) auto
    qed
    then have "take ?l (drop p ?code) = take ?l (drop p code)"
      by (intro nth_equalityI) auto
    then have "dec (base + of_nat p) (drop p ?code) = dec (base + of_nat p) (drop p code)"
      using \<open>decoder_local dec\<close> by (auto simp: decoder_local_def len_at_def)
    with False show ?thesis by (simp add: len_at_def kind_at_def)
  qed
  then show "len_at dec base ?code p = ?l"
    and "kind_at dec base ?code p = (if p \<in> S then None else kind_at dec base code p)"
    by auto
qed

lemma redecode_boundary:
  fixes dec base code
  defines "S \<equiv> {p. (\<exists>t. decoded dec base code p t) \<and> is_site code p}"
  assumes dec: "decoder_progress dec" "decoder_x86 dec" "decoder_local dec"
  shows "boundary dec base (patched code S) 0 p \<longleftrightarrow> boundary dec base code 0 p"
proof
  assume "boundary dec base (patched code S) 0 p"
  then show "boundary dec base code 0 p"
  proof (induction rule: boundary.induct)
    case (boundary_next p)
    with redecode(1) [OF dec, of base code p] show ?case
      unfolding S_def by (auto intro: boundary.boundary_next)
  qed (rule boundary_start)
next
  assume "boundary dec base code 0 p"
  then show "boundary dec base (patched code S) 0 p"
  proof (induction rule: boundary.induct)
    case (boundary_next p)
    then show ?case
      using redecode(1) [OF dec, of base code p] boundary.boundary_next [of dec base "patched code S" 0 p]
      unfolding S_def by simp
  qed (rule boundary_start)
qed

lemma redecode_decoded:
  fixes dec base code
  defines "S \<equiv> {p. (\<exists>t. decoded dec base code p t) \<and> is_site code p}"
  assumes dec: "decoder_progress dec" "decoder_x86 dec" "decoder_local dec"
  shows "decoded dec base (patched code S) p t \<longleftrightarrow> decoded dec base code p t \<and> p \<notin> S"
  using redecode_boundary [OF dec, of base code p] redecode(2) [OF dec, of base code p]
  unfolding decoded_def S_def by auto

lemma replaceable_rewritten:
  assumes "good_platform P" "decoder_local (decode P)" "mem s' = rewritten_mem P region s"
  shows "replaceable P region s' = {}"
  using assms(1) region_code_rewritten [OF assms(3)]
  by (auto simp: replaceable_def region_decoded_def rewritten_code_def is_site_patched
      redecode_decoded [OF _ _ assms(2)] good_platform_def)

subsection \<open>Page arithmetic\<close>

lemma unat_aligned_start:
  "unat (aligned_start ps region) = (unat (mr_start region) div unat ps) * unat ps"
proof -
  have "unat (mr_start region) div unat ps * unat ps \<le> unat (mr_start region)" by simp
  also have "\<dots> < 2 ^ 64" using unsigned_less [of "mr_start region", where 'a = nat] by simp
  finally show ?thesis
    by (simp add: aligned_start_def unat_mult_lem [THEN iffD1] unat_div_distrib)
qed

lemma round_up:
  fixes n ps :: nat
  assumes "0 < ps"
  shows "n \<le> (n + ps - 1) div ps * ps" "(n + ps - 1) div ps * ps < n + ps"
proof -
  have eq: "(n + ps - 1) div ps * ps + (n + ps - 1) mod ps = n + ps - 1" by simp
  have "(n + ps - 1) mod ps < ps" using assms by simp
  with eq show "n \<le> (n + ps - 1) div ps * ps" by linarith
  show "(n + ps - 1) div ps * ps < n + ps" using eq assms by linarith
qed

lemma unat_mult_div_le:
  fixes x ps :: "'a::len word"
  shows "unat (x div ps * ps) = unat x div unat ps * unat ps"
proof -
  have "unat x div unat ps * unat ps \<le> unat x" by simp
  also have "\<dots> < 2 ^ LENGTH('a)" by (rule unsigned_less)
  finally show ?thesis by (simp add: unat_mult_lem [THEN iffD1] unat_div_distrib)
qed

lemma unat_aligned_size:
  assumes "0 < ps" "mr_start region \<le> mr_end region" "unat (mr_end region) + unat ps < 2 ^ 64"
  shows "unat (aligned_size ps region) =
    (unat (mr_end region) - unat (aligned_start ps region) + unat ps - 1) div unat ps * unat ps"
proof -
  let ?a = "aligned_start ps region" and ?e = "mr_end region"
  have ps: "1 \<le> unat ps" using assms(1) by (simp add: word_less_nat_alt)
  have "unat ?a \<le> unat (mr_start region)" by (simp add: unat_aligned_start)
  then have le: "?a \<le> ?e" using assms(2) by (simp add: word_le_nat_alt)
  then have diff: "unat (?e - ?a) = unat ?e - unat ?a" by (rule unat_sub)
  with assms(3) have sum: "unat (?e - ?a + ps) = unat ?e - unat ?a + unat ps"
    by (simp add: unat_add_lem [THEN iffD1])
  with ps have "1 \<le> ?e - ?a + ps" by (simp add: word_le_nat_alt)
  with sum have "unat (?e - ?a + ps - 1) = unat ?e - unat ?a + unat ps - 1"
    by (simp add: unat_sub)
  then show ?thesis by (simp add: aligned_size_def unat_mult_div_le)
qed

text \<open>
  The page range \<open>rewrite\_region\<close> protects, for any positive page size and a region that ends
  at least one page below \<open>2^64\<close>, is computed without wrap-around: it starts at the page of
  \<open>start\<close>, is a whole number of pages, covers \<open>[start, end)\<close>, and is the smallest such range.
\<close>

lemma aligned_range_covers:
  assumes "0 < ps" and "mr_start region \<le> mr_end region"
    and "unat (mr_end region) + unat ps < 2 ^ 64"
  defines "s \<equiv> unat (aligned_start ps region)" and "n \<equiv> unat (aligned_size ps region)"
  shows "unat ps dvd s \<and> unat ps dvd n \<and>
    s \<le> unat (mr_start region) \<and> unat (mr_start region) < s + unat ps \<and>
    unat (mr_end region) \<le> s + n \<and> s + n < unat (mr_end region) + unat ps"
proof -
  have ps: "0 < unat ps" using assms(1) by (simp add: word_less_nat_alt)
  have s: "s = unat (mr_start region) div unat ps * unat ps"
    by (simp add: s_def unat_aligned_start)
  then have "s \<le> unat (mr_start region)" by simp
  moreover have "unat (mr_start region) < s + unat ps"
    using ps s by (metis add.commute dividend_less_div_times)
  moreover have "s \<le> unat (mr_end region)"
    using calculation(1) assms(2) by (simp add: word_le_nat_alt)
  moreover have "n = (unat (mr_end region) - s + unat ps - 1) div unat ps * unat ps"
    using unat_aligned_size [OF assms(1-3)] by (simp add: n_def s_def)
  moreover have "unat ps dvd s" "unat ps dvd n"
    using s calculation(4) by simp_all
  ultimately show ?thesis
    using round_up [OF ps, of "unat (mr_end region) - s"] by linarith
qed

subsection \<open>Memory\<close>

text \<open>A platform whose kernel records the \<open>mprotect\<close> calls and answers the \<open>n\<close>-th as \<open>f n\<close> says:
  every failure behaviour of \<open>mprotect\<close> is some \<open>f\<close>.\<close>

type_synonym mprotect_log = "(usize \<times> usize \<times> prot) list"

definition logging_platform :: "usize \<Rightarrow> decoder \<Rightarrow> (nat \<Rightarrow> errno option) \<Rightarrow> mprotect_log platform" where
  "logging_platform ps dec f =
     \<lparr>page_size = ps, mprotect = (\<lambda>a n p log. (f (length log), log @ [(a, n, p)])), decode = dec\<rparr>"

lemma logging_platform_sel [simp]:
  "page_size (logging_platform ps dec f) = ps" "decode (logging_platform ps dec f) = dec"
  "mprotect (logging_platform ps dec f) a n p log = (f (length log), log @ [(a, n, p)])"
  by (simp_all add: logging_platform_def)

definition test_platform :: "(nat \<Rightarrow> errno option) \<Rightarrow> mprotect_log platform" where
  "test_platform f = logging_platform 0x1000 small_decoder f"

lemma test_platform_good [simp]:
  "good_platform (test_platform f)" "decoder_local (decode (test_platform f))"
  by (simp_all add: good_platform_def test_platform_def small_decoder_progress small_decoder_x86
      small_decoder_local)

text \<open>Five bytes of code at \<open>0x1000\<close>: \<open>nop; syscall; sysenter\<close>.\<close>

definition test_region :: memory_region where
  "test_region = example_region\<lparr>mr_start := 0x1000, mr_end := 0x1005\<rparr>"

definition test_process :: "mprotect_log process" where
  "test_process = \<lparr>mem = (\<lambda>a. if a = 0x1001 \<or> a = 0x1003 then 0x0f else if a = 0x1002 then 0x05
     else if a = 0x1004 then 0x34 else 0x90), os = []\<rparr>"

lemmas run_simps = test_platform_def logging_platform_def test_region_def example_region_def
  test_process_def new_config_def default_config_def new_rewriter_def default_stats_def

lemma test_region_sel [simp]:
  "is_executable test_region" "\<not> is_excluded (config (new_rewriter new_config)) test_region"
  "\<not> dry_run (config (new_rewriter new_config))" "aligned_start (page_size (test_platform f)) test_region \<noteq> 0"
  by (simp_all add: is_executable_def new_rewriter_def aligned_start_def run_simps)
    (simp_all add: is_excluded_def)

lemma protect_pages_ok:
  assumes "aligned_start (page_size P) region \<noteq> 0" "\<forall>a n prot o'. fst (mprotect P a n prot o') = None"
  obtains s' where "protect_pages P region prot s = (None, s')" "mem s' = mem s"
proof -
  obtain o' where "mprotect P (aligned_start (page_size P) region) (aligned_size (page_size P) region) prot (os s)
      = (None, o')"
    using assms(2) by (metis prod.collapse)
  with assms(1) have "protect_pages P region prot s = (None, s\<lparr>os := o'\<rparr>)"
    by (simp add: protect_pages_def Let_def)
  then show thesis by (rule that) simp
qed

lemma card_replaceable_pos:
  "(0 :: usize) < of_nat (card (replaceable P region s)) \<longleftrightarrow> replaceable P region s \<noteq> {}"
proof -
  have sub: "replaceable P region s \<subseteq> {..<unat (region_size region)}"
    using replaceable_in_region Suc_lessD by blast
  then have "card (replaceable P region s) \<le> unat (region_size region)"
    using card_mono [OF _ sub] by simp
  then have "card (replaceable P region s) < 2 ^ 64"
    using unsigned_less [of "region_size region", where 'a = nat] by simp
  then have "unat (of_nat (card (replaceable P region s)) :: usize) = card (replaceable P region s)"
    by (simp add: unat_of_nat)
  moreover have "finite (replaceable P region s)" using sub finite_subset by blast
  ultimately show ?thesis by (simp add: word_less_nat_alt card_gt_0_iff)
qed

lemma site_count_empty [simp]: "replaceable P region s = {} \<Longrightarrow> site_count P region s t = 0"
  by (simp add: site_count_def)

text \<open>What a run that protects, patches and restores successfully gives.\<close>

lemma rewrite_region_success:
  assumes P: "good_platform P"
    and region: "is_executable region" "\<not> is_excluded (config rw) region" "\<not> dry_run (config rw)"
    and prot: "aligned_start (page_size P) region \<noteq> 0"
      "\<forall>a n prot o'. fst (mprotect P a n prot o') = None"
  obtains rw' s' where
    "rewrite_region P region rw s =
       (Returned (Inr (of_nat (card (replaceable P region s)))), rw', s')"
    "mem s' = rewritten_mem P region s" "config rw' = config rw"
    "stats rw' = (let st = patched_stats P region s (stats (scanned rw)) in
       if replaceable P region s = {} then st
       else st\<lparr>regions_rewritten := regions_rewritten st + 1\<rparr>)"
proof -
  obtain reps where run: "rewrite_region P region rw s =
       (if reps = [] then (Returned (Inr 0), scanned rw, s)
        else if dry_run (config rw) then dry_result (length reps) (scanned rw) s
        else patch_result P region (scanned rw) s)"
    and reps: "set reps = {(p, t). region_decoded P region s p t}" and "distinct (map fst reps)"
    by (rule rewrite_region_active [OF P region(1,2), where s = s])
  show thesis
  proof (cases "reps = []")
    case True
    with reps have none: "replaceable P region s = {}" by (auto simp: replaceable_def)
    then have "rewritten_mem P region s = mem s" by (simp add: rewritten_mem_at fun_eq_iff)
    with True run none show thesis
      by (intro that [of "scanned rw" s]) (simp_all add: Let_def patched_stats_def)
  next
    case False
    obtain s1 where s1: "protect_pages P region {PROT_READ, PROT_WRITE, PROT_EXEC} s = (None, s1)"
      by (rule protect_pages_ok [OF prot])
    obtain s3 where s3: "protect_pages P region (original_prot region)
        (s1\<lparr>mem := rewritten_mem P region s\<rparr>) = (None, s3)"
      and m3: "mem s3 = rewritten_mem P region s"
      by (rule protect_pages_ok [OF prot, of "original_prot region" "s1\<lparr>mem := rewritten_mem P region s\<rparr>"])
        simp
    let ?st = "patched_stats P region s (stats (scanned rw))"
    have "rewrite_region P region rw s =
      (Returned (Inr (of_nat (card (replaceable P region s)))),
       (if replaceable P region s = {} then (scanned rw)\<lparr>stats := ?st\<rparr>
        else (scanned rw)\<lparr>stats := ?st\<lparr>regions_rewritten := regions_rewritten ?st + 1\<rparr>\<rparr>), s3)"
      using False run region(3) s1 s3
      by (simp add: patch_result_def Let_def card_replaceable_pos)
    then show thesis
      by (rule that [OF _ m3]) (simp_all add: Let_def)
  qed
qed

text \<open>
  C3: the exact effect of a successful \<open>rewrite\_region\<close>.  For any decoder with the documented
  behaviour, on an executable region that is not excluded, outside dry-run mode, when the
  \<open>mprotect\<close> calls succeed: the byte at the start of every decoded, unprefixed \<open>syscall\<close> or
  \<open>sysenter\<close> becomes \<open>ff\<close> and the next one \<open>d0\<close>, every other byte of the address space is
  unchanged, the count returned is the number of instructions replaced, and the statistics grow by
  the replaced instructions of each kind and by one scanned and, if any was replaced, one
  rewritten region.
\<close>

theorem rewrite_region_exact:
  assumes "good_platform P"
    and "is_executable region" and "\<not> is_excluded (config rw) region" and "\<not> dry_run (config rw)"
    and "aligned_start (page_size P) region \<noteq> 0"
    and "\<forall>a n prot o'. fst (mprotect P a n prot o') = None"
  shows "\<exists>rw' s'. rewrite_region P region rw s =
      (Returned (Inr (of_nat (card (replaceable P region s)))), rw', s') \<and>
    (\<forall>a. mem s' a =
       (if \<exists>p\<in>replaceable P region s. a = mr_start region + of_nat p then 0xff
        else if \<exists>p\<in>replaceable P region s. a = mr_start region + of_nat (Suc p) then 0xd0
        else mem s a)) \<and>
    stats rw' = \<lparr>
      regions_scanned = regions_scanned (stats rw) + 1,
      regions_rewritten = regions_rewritten (stats rw) + (if replaceable P region s = {} then 0 else 1),
      syscalls_replaced = syscalls_replaced (stats rw) + of_nat (site_count P region s Syscall),
      sysenters_replaced = sysenters_replaced (stats rw) + of_nat (site_count P region s Sysenter),
      regions_skipped = regions_skipped (stats rw)\<rparr>"
proof -
  obtain rw' s' where "rewrite_region P region rw s =
       (Returned (Inr (of_nat (card (replaceable P region s)))), rw', s')"
    and "mem s' = rewritten_mem P region s"
    and "stats rw' = (let st = patched_stats P region s (stats (scanned rw)) in
       if replaceable P region s = {} then st
       else st\<lparr>regions_rewritten := regions_rewritten st + 1\<rparr>)"
    using rewrite_region_success [OF assms] by metis
  then show ?thesis
    by (intro exI [of _ rw'] exI [of _ s'])
      (simp add: rewritten_mem_at patched_stats_def scanned_def Let_def)
qed

text \<open>The run of the example, evaluated.\<close>

lemma test_code: "region_code test_process test_region = [0x90, 0x0f, 0x05, 0x0f, 0x34]"
  by (simp add: region_code_def read_slice_def region_size_def run_simps upt_rec)

lemma test_find:
  "find_syscalls (decode (test_platform f)) (mr_start test_region) (region_code test_process test_region) =
     Some [(1, Syscall), (3, Sysenter)]"
  unfolding test_code
  by (simp add: find_syscalls_def find_loop.simps small_decoder_def type_of_mnemonic_def run_simps)

lemma test_replaceable: "replaceable (test_platform f) test_region test_process = {1, 3}"
proof -
  obtain reps where
    "find_syscalls (decode (test_platform f)) (mr_start test_region)
       (region_code test_process test_region) = Some reps"
    "\<And>p t. (p, t) \<in> set reps \<longleftrightarrow> region_decoded (test_platform f) test_region test_process p t"
    using region_replacements [OF test_platform_good(1)] by metis
  then have "region_decoded (test_platform f) test_region test_process p t \<longleftrightarrow>
      (p, t) \<in> set [(1, Syscall), (3, Sysenter)]" for p t
    unfolding test_find by blast
  then show ?thesis
    by (auto simp: replaceable_def test_code is_site_def)
qed

theorem rewrite_region_exact_witness:
  "\<exists>rw' s'. rewrite_region (test_platform (\<lambda>n. None)) test_region (new_rewriter new_config) test_process =
      (Returned (Inr 2), rw', s') \<and>
    map (mem s') [0x1000, 0x1001, 0x1002, 0x1003, 0x1004, 0x1005] = [0x90, 0xff, 0xd0, 0xff, 0xd0, 0x90]"
proof -
  have ok: "\<forall>a n prot o'. fst (mprotect (test_platform (\<lambda>n. None)) a n prot o') = None"
    by (simp add: test_platform_def)
  let ?R = "replaceable (test_platform (\<lambda>n. None)) test_region test_process"
  obtain rw' s' where "rewrite_region (test_platform (\<lambda>n. None)) test_region (new_rewriter new_config)
      test_process = (Returned (Inr (of_nat (card ?R))), rw', s')"
    and "\<forall>a. mem s' a =
       (if \<exists>p\<in>?R. a = mr_start test_region + of_nat p then 0xff
        else if \<exists>p\<in>?R. a = mr_start test_region + of_nat (Suc p) then 0xd0
        else mem test_process a)"
    using rewrite_region_exact [OF test_platform_good(1) test_region_sel(1-4) ok, of test_process] by blast
  moreover have "mr_start test_region = 0x1000" "mem test_process 0x1000 = 0x90" "mem test_process 0x1005 = 0x90"
    by (simp_all add: run_simps)
  ultimately show ?thesis by (intro exI [of _ rw'] exI [of _ s']) (simp add: test_replaceable)
qed

text \<open>
  C21: rewriting is idempotent.  After a successful run, a second run over the same region decodes
  the same instruction boundaries (a \<open>call rax\<close> is as long as what it replaced), replaces
  nothing, returns 0, and leaves every byte as it is.
\<close>

theorem rewrite_region_idempotent:
  assumes "good_platform P" and "decoder_local (decode P)"
    and "is_executable region" and "\<not> is_excluded (config rw) region" and "\<not> dry_run (config rw)"
    and "aligned_start (page_size P) region \<noteq> 0"
    and "\<forall>a n prot o'. fst (mprotect P a n prot o') = None"
    and "rewrite_region P region rw s = (out, rw', s')"
  shows "\<exists>rw'' s''. rewrite_region P region rw' s' = (Returned (Inr 0), rw'', s'') \<and> mem s'' = mem s'"
proof -
  obtain rw1 s1 where run: "rewrite_region P region rw s =
       (Returned (Inr (of_nat (card (replaceable P region s)))), rw1, s1)"
    and m1: "mem s1 = rewritten_mem P region s" and c1: "config rw1 = config rw"
    using rewrite_region_success [OF assms(1,3-7)] by metis
  have none: "replaceable P region s1 = {}"
    using assms(1,2) m1 by (rule replaceable_rewritten)
  have c: "\<not> is_excluded (config rw1) region" "\<not> dry_run (config rw1)"
    using assms(4,5) c1 by simp_all
  obtain rw2 s2 where "rewrite_region P region rw1 s1 =
       (Returned (Inr (of_nat (card (replaceable P region s1)))), rw2, s2)"
    and "mem s2 = rewritten_mem P region s1"
    using rewrite_region_success [OF assms(1,3) c assms(6,7)] by metis
  then have "rewrite_region P region rw1 s1 = (Returned (Inr 0), rw2, s2) \<and> mem s2 = mem s1"
    using none by (simp add: rewritten_mem_at fun_eq_iff)
  then show ?thesis using run assms(8) by auto
qed

theorem rewrite_region_idempotent_witness:
  "\<exists>rw' s' rw'' s''.
     rewrite_region (test_platform (\<lambda>n. None)) test_region (new_rewriter new_config) test_process =
       (Returned (Inr 2), rw', s') \<and>
     rewrite_region (test_platform (\<lambda>n. None)) test_region rw' s' = (Returned (Inr 0), rw'', s'') \<and>
     mem s'' = mem s'"
proof -
  have ok: "\<forall>a n prot o'. fst (mprotect (test_platform (\<lambda>n. None)) a n prot o') = None"
    by (simp add: test_platform_def)
  obtain rw' s' where "rewrite_region (test_platform (\<lambda>n. None)) test_region
      (new_rewriter new_config) test_process =
        (Returned (Inr (of_nat (card (replaceable (test_platform (\<lambda>n. None)) test_region test_process)))),
         rw', s')"
    using rewrite_region_success [OF test_platform_good(1) test_region_sel(1-4) ok, of test_process]
    by blast
  then have run: "rewrite_region (test_platform (\<lambda>n. None)) test_region
      (new_rewriter new_config) test_process = (Returned (Inr 2), rw', s')"
    by (simp add: test_replaceable)
  show ?thesis
    using run rewrite_region_idempotent [OF test_platform_good test_region_sel(1-4) ok run] by blast
qed

text \<open>
  C22: the frame of \<open>rewrite\_region\<close>, on every outcome and whatever the platform does: a byte
  outside the region is never changed, and no byte at all is changed when the region is not
  executable, is excluded, or the configuration is a dry run.
\<close>

theorem rewrite_region_leaves_alone:
  assumes "rewrite_region P region rw s = (out, rw', s')"
    and "\<not> in_region region a \<or> \<not> is_executable region \<or> is_excluded (config rw) region \<or>
      dry_run (config rw)"
  shows "mem s' a = mem s a"
  using assms by (rule rewrite_region_frame)

theorem rewrite_region_leaves_alone_witness:
  "let (out, rw', s') = rewrite_region (test_platform (\<lambda>n. None)) test_region
        (new_rewriter new_config) test_process
   in \<not> in_region test_region 0x1005 \<and> mem s' 0x1005 = 0x90"
proof -
  obtain out rw' s' where run: "rewrite_region (test_platform (\<lambda>n. None)) test_region
      (new_rewriter new_config) test_process = (out, rw', s')"
    using prod_cases3 by blast
  have "\<not> in_region test_region 0x1005"
    by (simp add: in_region_def region_size_def run_simps)
  then show ?thesis
    using run rewrite_region_leaves_alone [OF run, of "0x1005"] by (simp add: run_simps)
qed

text \<open>
  C28: with a decoder that behaves as documented, \<open>rewrite\_region\<close> always returns: the sweep
  terminates, and neither \<open>code\_slice\_mut[offset]\<close> nor \<open>code\_slice\_mut[offset + 1]\<close> is ever out of
  bounds, whatever the region, the memory, the configuration and \<open>mprotect\<close>.
\<close>

theorem rewrite_region_returns:
  assumes "good_platform P"
  shows "\<exists>r rw' s'. rewrite_region P region rw s = (Returned r, rw', s')"
proof (cases "is_executable region \<and> \<not> is_excluded (config rw) region")
  case False
  then show ?thesis using rewrite_region_skip by blast
next
  case True
  then have "is_executable region" "\<not> is_excluded (config rw) region" by simp_all
  then obtain reps where "rewrite_region P region rw s =
       (if reps = [] then (Returned (Inr 0), scanned rw, s)
        else if dry_run (config rw) then dry_result (length reps) (scanned rw) s
        else patch_result P region (scanned rw) s)"
    and "set reps = {(p, t). region_decoded P region s p t}" and "distinct (map fst reps)"
    by (rule rewrite_region_active [OF assms _ _, where s = s])
  then show ?thesis
    by (auto simp: dry_result_def patch_result_def Let_def split: prod.splits option.splits)
qed

theorem rewrite_region_returns_witness:
  "\<exists>r rw' s'. rewrite_region (test_platform (\<lambda>n. Some 12)) test_region (new_rewriter new_config)
     test_process = (Returned r, rw', s')"
  using rewrite_region_returns [OF test_platform_good(1)] by blast

subsection \<open>Protections, errors and the dry run\<close>

lemma rewrite_region_found:
  assumes "good_platform P" "is_executable region" "\<not> is_excluded (config rw) region"
    and "region_decoded P region s p t"
  shows "rewrite_region P region rw s =
    (if dry_run (config rw) then dry_result (card {p. \<exists>t. region_decoded P region s p t}) (scanned rw) s
     else patch_result P region (scanned rw) s)"
proof -
  obtain reps where run: "rewrite_region P region rw s =
       (if reps = [] then (Returned (Inr 0), scanned rw, s)
        else if dry_run (config rw) then dry_result (length reps) (scanned rw) s
        else patch_result P region (scanned rw) s)"
    and reps: "set reps = {(p, t). region_decoded P region s p t}" and distinct: "distinct (map fst reps)"
    by (rule rewrite_region_active [OF assms(1-3), where s = s])
  have "fst ` set reps = {p. \<exists>t. region_decoded P region s p t}" using reps by force
  then have "length reps = card {p. \<exists>t. region_decoded P region s p t}"
    using distinct_card [OF distinct] by simp
  moreover have "reps \<noteq> []" using reps assms(4) by auto
  ultimately show ?thesis using run by simp
qed

lemma test_region_decoded:
  "region_decoded (test_platform f) test_region test_process 1 Syscall"
  "{p. \<exists>t. region_decoded (test_platform f) test_region test_process p t} = {1, 3}"
proof -
  obtain reps where
    "find_syscalls (decode (test_platform f)) (mr_start test_region)
       (region_code test_process test_region) = Some reps"
    "\<And>p t. (p, t) \<in> set reps \<longleftrightarrow> region_decoded (test_platform f) test_region test_process p t"
    using region_replacements [OF test_platform_good(1)] by metis
  then have "region_decoded (test_platform f) test_region test_process p t \<longleftrightarrow>
      (p, t) \<in> set [(1, Syscall), (3, Sysenter)]" for p t
    unfolding test_find by blast
  then show "region_decoded (test_platform f) test_region test_process 1 Syscall"
    "{p. \<exists>t. region_decoded (test_platform f) test_region test_process p t} = {1, 3}"
    by auto
qed

text \<open>
  C37: the protection protocol.  When an instruction is to be patched, \<open>rewrite\_region\<close> makes exactly
  two \<open>mprotect\<close> calls, both over the region's pages: the first asks for read, write and execute,
  the last takes write away again unless the region was mapped writable, so a region mapped \<open>r-x\<close>
  is never left writable and executable.
\<close>

theorem rewrite_region_protections:
  assumes "decoder_progress dec" and "decoder_x86 dec"
    and "is_executable region" and "\<not> is_excluded (config rw) region" and "\<not> dry_run (config rw)"
    and "aligned_start ps region \<noteq> 0"
    and "region_decoded (logging_platform ps dec (\<lambda>n. None)) region s p t" and "os s = []"
    and "rewrite_region (logging_platform ps dec (\<lambda>n. None)) region rw s = (out, rw', s')"
  shows "os s' =
    [(aligned_start ps region, aligned_size ps region, {PROT_READ, PROT_WRITE, PROT_EXEC}),
     (aligned_start ps region, aligned_size ps region,
      {PROT_READ, PROT_EXEC} \<union> (if writable region then {PROT_WRITE} else {}))]"
proof -
  have "good_platform (logging_platform ps dec (\<lambda>n. None))"
    using assms(1,2) by (simp add: good_platform_def)
  from rewrite_region_found [OF this assms(3,4,7)] assms(5,6,8,9) show ?thesis
    by (auto simp: patch_result_def protect_pages_def original_prot_def is_writable_def Let_def
        split: if_splits)
qed

theorem rewrite_region_protections_witness:
  "\<exists>out rw' s'. rewrite_region (test_platform (\<lambda>n. None)) test_region (new_rewriter new_config)
      test_process = (out, rw', s') \<and>
    os s' = [(0x1000, 0x1000, {PROT_READ, PROT_WRITE, PROT_EXEC}), (0x1000, 0x1000, {PROT_READ, PROT_EXEC})]"
proof -
  obtain out rw' s' where run: "rewrite_region (test_platform (\<lambda>n. None)) test_region
      (new_rewriter new_config) test_process = (out, rw', s')"
    using prod_cases3 by blast
  have "aligned_start 0x1000 test_region = 0x1000" "aligned_size 0x1000 test_region = 0x1000"
    "\<not> writable test_region" "os test_process = []"
    by (simp_all add: aligned_start_def aligned_size_def run_simps)
  then show ?thesis
    using run rewrite_region_protections [OF small_decoder_progress small_decoder_x86
        test_region_sel(1-3), of "0x1000" test_process 1 Syscall out rw' s']
      test_region_decoded(1) [of "\<lambda>n. None"]
    by (simp add: test_platform_def)
qed

text \<open>
  C38: the error paths.  If the first \<open>mprotect\<close> fails, its error is returned and nothing but the
  count of scanned regions has changed.  If the second fails, its error is returned although every
  replaceable instruction of the region has been replaced and counted: the region stays rewritten
  and writable, and only \<open>regions\_rewritten\<close> misses it.
\<close>

theorem rewrite_region_errors:
  assumes "decoder_progress dec" and "decoder_x86 dec"
    and "is_executable region" and "\<not> is_excluded (config rw) region" and "\<not> dry_run (config rw)"
    and "aligned_start ps region \<noteq> 0"
    and "region_decoded (logging_platform ps dec f) region s p t" and "os s = []"
    and "f 0 = Some e \<or> f 0 = None \<and> f 1 = Some e"
  shows "\<exists>rw' s'. rewrite_region (logging_platform ps dec f) region rw s =
      (Returned (Inl (ProtectError e)), rw', s') \<and>
    mem s' = (if f 0 = None then rewritten_mem (logging_platform ps dec f) region s else mem s) \<and>
    length (os s') = (if f 0 = None then 2 else 1) \<and>
    stats rw' = (stats rw)\<lparr>
      regions_scanned := regions_scanned (stats rw) + 1,
      syscalls_replaced := syscalls_replaced (stats rw) +
        (if f 0 = None then of_nat (site_count (logging_platform ps dec f) region s Syscall) else 0),
      sysenters_replaced := sysenters_replaced (stats rw) +
        (if f 0 = None then of_nat (site_count (logging_platform ps dec f) region s Sysenter) else 0)\<rparr>"
proof -
  have "good_platform (logging_platform ps dec f)"
    using assms(1,2) by (simp add: good_platform_def)
  from rewrite_region_found [OF this assms(3,4,7)] assms(5,6,8,9) show ?thesis
    by (auto simp: patch_result_def protect_pages_def Let_def patched_stats_def scanned_def)
qed

theorem rewrite_region_errors_witness:
  "\<exists>rw' s'. rewrite_region (test_platform (\<lambda>n. if n = 1 then Some 12 else None)) test_region
      (new_rewriter new_config) test_process = (Returned (Inl (ProtectError 12)), rw', s') \<and>
    length (os s') = 2 \<and> regions_rewritten (stats rw') = 0"
proof -
  let ?f = "\<lambda>n :: nat. if n = 1 then Some 12 else None :: errno option"
  have h: "aligned_start 0x1000 test_region \<noteq> 0" "os test_process = []"
    "region_decoded (logging_platform 0x1000 small_decoder ?f) test_region test_process 1 Syscall"
    "?f 0 = Some 12 \<or> ?f 0 = None \<and> ?f 1 = Some 12"
    using test_region_decoded(1) [of ?f] by (simp_all add: aligned_start_def run_simps)
  show ?thesis
    using rewrite_region_errors [OF small_decoder_progress small_decoder_x86 test_region_sel(1-3) h(1,3,2,4)]
    by (auto simp: test_platform_def) (simp add: new_rewriter_def default_stats_def)
qed

text \<open>
  C39: the dry run changes no byte and makes no kernel call; it returns the number of decoded
  instructions and adds all of them, \<open>sysenter\<close>s and prefixed instructions included, to
  \<open>syscalls\_replaced\<close>, while \<open>sysenters\_replaced\<close> stays as it is: its statistics differ from a
  real run's whenever the region holds a \<open>sysenter\<close>.
\<close>

theorem rewrite_region_dry_run:
  assumes "good_platform P"
    and "is_executable region" and "\<not> is_excluded (config rw) region" and "dry_run (config rw)"
    and "region_decoded P region s p t"
  shows "\<exists>rw'. rewrite_region P region rw s =
      (Returned (Inr (of_nat (card {p. \<exists>t. region_decoded P region s p t}))), rw', s) \<and>
    syscalls_replaced (stats rw') =
      syscalls_replaced (stats rw) + of_nat (card {p. \<exists>t. region_decoded P region s p t}) \<and>
    sysenters_replaced (stats rw') = sysenters_replaced (stats rw)"
  using rewrite_region_found [OF assms(1-3,5)] assms(4) by (simp add: dry_result_def scanned_def)

theorem rewrite_region_dry_run_witness:
  "\<exists>rw'. rewrite_region (test_platform (\<lambda>n. None)) test_region
      (new_rewriter (set_dry_run True new_config)) test_process = (Returned (Inr 2), rw', test_process) \<and>
    syscalls_replaced (stats rw') = 2 \<and> sysenters_replaced (stats rw') = 0"
proof -
  have c: "\<not> is_excluded (config (new_rewriter (set_dry_run True new_config))) test_region"
    "dry_run (config (new_rewriter (set_dry_run True new_config)))"
    by (simp_all add: new_rewriter_def) (simp add: set_dry_run_def)
  show ?thesis
    using rewrite_region_dry_run [OF test_platform_good(1) test_region_sel(1) c test_region_decoded(1)]
    by (auto simp: test_region_decoded(2) new_rewriter_def default_stats_def)
qed

end
