(* ===== verification/TrampolineExecution.thy ===== *)
theory TrampolineExecution
  imports Trampoline
begin

section \<open>Executing the trampoline\<close>

text \<open>
  The bytes \<open>generate_trampoline_code\<close> writes, run on the machine of \<open>X86\<close>: the sled leads from every
  system call number to the stub, the stub hands \<open>hook_entry\<close> a pointer to the caller's registers
  and returns behind the rewritten instruction.  \<open>hook_entry\<close> itself is compiled Rust: the machine
  treats its address as one step \<open>callee\<close>, of which only the C calling convention is assumed.
\<close>

definition trampoline_at :: "(u64 \<Rightarrow> u8) \<Rightarrow> u64 \<Rightarrow> bool" where
  "trampoline_at m addr \<longleftrightarrow> code_at m 0 (trampoline_bytes addr)"

lemma code_at_store64:
  assumes "code_at m 0 bs" "length bs \<le> unat b" "unat b + 8 \<le> 2 ^ 64"
  shows "code_at (store64 b v m) 0 bs"
proof -
  have "store64 b v m (of_nat i) = m (of_nat i)" if "i < length bs" for i
  proof (rule store64_outside, rule ccontr)
    let ?d = "of_nat i - b"
    assume "\<not> 8 \<le> unat ?d"
    then have "unat (b + ?d) = unat b + unat ?d"
      using assms(3) by (intro unat_add_lem [THEN iffD1]) simp
    moreover have "unat (of_nat i :: u64) = i"
      using that assms(2) by (intro unat_of_nat_below [of _ b]) simp
    ultimately show False using that assms(2) by simp
  qed
  with assms(1) show ?thesis by (simp add: code_at_def)
qed

text \<open>A stack slot above the trampoline.\<close>

definition above_trampoline :: "u64 \<Rightarrow> bool" where
  "above_trampoline b \<longleftrightarrow> 562 \<le> unat b \<and> unat b + 8 \<le> 2 ^ 64"

lemma trampoline_at_store64 [simp]:
  "trampoline_at m addr \<Longrightarrow> above_trampoline b \<Longrightarrow> trampoline_at (store64 b v m) addr"
  unfolding trampoline_at_def above_trampoline_def
  by (rule code_at_store64) (simp_all add: length_trampoline_bytes MAX_SYSCALL_NR_def)

lemma above_trampoline_sub:
  assumes "562 + k \<le> unat r" "8 \<le> k" "k < 2 ^ 64"
  shows "above_trampoline (r - of_nat k)"
proof -
  have "unat (of_nat k :: u64) = k" using assms(3) by (simp add: unat_of_nat)
  then have "unat (r - of_nat k) = unat r - k"
    using assms(1) by (simp add: unat_sub word_le_nat_alt)
  then show ?thesis
    using assms(1,2) unsigned_less [of r, where 'a = nat] unfolding above_trampoline_def by simp arith
qed

subsection \<open>The sled\<close>

lemma step_at:
  assumes "code_at (cmem s) a (encode i)" "rip s = a" "a' = a + of_nat (length (encode i))"
  shows "step s = Some (exec i (s\<lparr>rip := a'\<rparr>))"
  using assms step_code by simp

lemma trampoline_nop:
  assumes "trampoline_at m addr" "k < 512"
  shows "code_at m (of_nat k) (encode Nop)"
proof -
  have "k < length (trampoline_bytes addr)" "trampoline_bytes addr ! k = 0x90"
    using assms(2) by (simp_all add: length_trampoline_bytes)
      (simp_all add: trampoline_bytes_def assemble_nops MAX_SYSCALL_NR_def nth_append)
  then have "m (0 + of_nat k) = 0x90"
    using assms(1) unfolding trampoline_at_def code_at_def by metis
  then show ?thesis by (simp add: code_at_def encode_def)
qed

lemma sled:
  assumes "trampoline_at (cmem s) addr" "rip s = of_nat k" "k \<le> 512"
  shows "steps (512 - k) s = Some (s\<lparr>rip := 0x200\<rparr>)"
  using assms
proof (induction "512 - k" arbitrary: s k)
  case 0
  then have k: "k = 512" by arith
  with 0 have "rip s = 0x200" by simp
  then have "s\<lparr>rip := 0x200\<rparr> = s" by (cases s) simp
  then show ?case unfolding k by simp
next
  case (Suc d)
  then have k: "k < 512" by simp
  have "step s = Some (s\<lparr>rip := of_nat (Suc k)\<rparr>)"
    using step_at [OF trampoline_nop [OF Suc.prems(1) k] Suc.prems(2), of "of_nat (Suc k)"]
    by (simp add: exec_def encode_def)
  moreover have d: "d = 512 - Suc k" using Suc.hyps(2) by arith
  have "steps d (s\<lparr>rip := of_nat (Suc k)\<rparr>) = Some (s\<lparr>rip := 0x200\<rparr>)"
    using Suc.hyps(1) [OF d, of "s\<lparr>rip := of_nat (Suc k)\<rparr>"] Suc.prems k unfolding d by simp
  ultimately show ?case using Suc.hyps(2) [symmetric] by simp
qed

subsection \<open>The stub, instruction by instruction\<close>

lemma encode_lengths [simp]:
  "length (encode Nop) = 1" "length (encode Ret) = 1"
  "length (encode (Push r)) = (if low_reg r = None then 2 else 1)"
  "length (encode (Pop r)) = (if low_reg r = None then 2 else 1)"
  "length (encode (Call r)) = (if low_reg r = None then 3 else 2)"
  "length (encode (Sub_rsp n)) = 4" "length (encode (Add_rsp n)) = 4"
  "length (encode (Lea_rdi_rsp n)) = 5" "length (encode (Movabs_r11 v)) = 10"
  by (auto simp: encode_def with_reg_def split: option.splits)

lemma stub_code:
  assumes "trampoline_at m addr"
  shows "code_at m 0x200 (encode (Push R9))" "code_at m 0x202 (encode (Push R8))"
    "code_at m 0x204 (encode (Push R10))" "code_at m 0x206 (encode (Push RDX))"
    "code_at m 0x207 (encode (Push RSI))" "code_at m 0x208 (encode (Push RDI))"
    "code_at m 0x209 (encode (Push RAX))" "code_at m 0x20a (encode (Sub_rsp 8))"
    "code_at m 0x20e (encode (Lea_rdi_rsp 8))" "code_at m 0x213 (encode (Movabs_r11 addr))"
    "code_at m 0x21d (encode (Call R11))" "code_at m 0x220 (encode (Add_rsp 8))"
    "code_at m 0x224 (encode (Add_rsp 8))" "code_at m 0x228 (encode (Pop RDI))"
    "code_at m 0x229 (encode (Pop RSI))" "code_at m 0x22a (encode (Pop RDX))"
    "code_at m 0x22b (encode (Pop R10))" "code_at m 0x22d (encode (Pop R8))"
    "code_at m 0x22f (encode (Pop R9))" "code_at m 0x231 (encode Ret)"
  using assms
  by (simp_all add: trampoline_at_def trampoline_bytes_def stub_listing_def code_at_append
      assemble_nops MAX_SYSCALL_NR_def low_reg_def)

lemma stub_steps:
  assumes "trampoline_at (cmem s) addr"
  shows "rip s = 0x200 \<Longrightarrow> step s = Some (exec (Push R9) (s\<lparr>rip := 0x202\<rparr>))"
    "rip s = 0x202 \<Longrightarrow> step s = Some (exec (Push R8) (s\<lparr>rip := 0x204\<rparr>))"
    "rip s = 0x204 \<Longrightarrow> step s = Some (exec (Push R10) (s\<lparr>rip := 0x206\<rparr>))"
    "rip s = 0x206 \<Longrightarrow> step s = Some (exec (Push RDX) (s\<lparr>rip := 0x207\<rparr>))"
    "rip s = 0x207 \<Longrightarrow> step s = Some (exec (Push RSI) (s\<lparr>rip := 0x208\<rparr>))"
    "rip s = 0x208 \<Longrightarrow> step s = Some (exec (Push RDI) (s\<lparr>rip := 0x209\<rparr>))"
    "rip s = 0x209 \<Longrightarrow> step s = Some (exec (Push RAX) (s\<lparr>rip := 0x20a\<rparr>))"
    "rip s = 0x20a \<Longrightarrow> step s = Some (exec (Sub_rsp 8) (s\<lparr>rip := 0x20e\<rparr>))"
    "rip s = 0x20e \<Longrightarrow> step s = Some (exec (Lea_rdi_rsp 8) (s\<lparr>rip := 0x213\<rparr>))"
    "rip s = 0x213 \<Longrightarrow> step s = Some (exec (Movabs_r11 addr) (s\<lparr>rip := 0x21d\<rparr>))"
    "rip s = 0x21d \<Longrightarrow> step s = Some (exec (Call R11) (s\<lparr>rip := 0x220\<rparr>))"
    "rip s = 0x220 \<Longrightarrow> step s = Some (exec (Add_rsp 8) (s\<lparr>rip := 0x224\<rparr>))"
    "rip s = 0x224 \<Longrightarrow> step s = Some (exec (Add_rsp 8) (s\<lparr>rip := 0x228\<rparr>))"
    "rip s = 0x228 \<Longrightarrow> step s = Some (exec (Pop RDI) (s\<lparr>rip := 0x229\<rparr>))"
    "rip s = 0x229 \<Longrightarrow> step s = Some (exec (Pop RSI) (s\<lparr>rip := 0x22a\<rparr>))"
    "rip s = 0x22a \<Longrightarrow> step s = Some (exec (Pop RDX) (s\<lparr>rip := 0x22b\<rparr>))"
    "rip s = 0x22b \<Longrightarrow> step s = Some (exec (Pop R10) (s\<lparr>rip := 0x22d\<rparr>))"
    "rip s = 0x22d \<Longrightarrow> step s = Some (exec (Pop R8) (s\<lparr>rip := 0x22f\<rparr>))"
    "rip s = 0x22f \<Longrightarrow> step s = Some (exec (Pop R9) (s\<lparr>rip := 0x231\<rparr>))"
    "rip s = 0x231 \<Longrightarrow> step s = Some (exec Ret (s\<lparr>rip := 0x232\<rparr>))"
  by (rule step_at [OF stub_code(1) [OF assms]] step_at [OF stub_code(2) [OF assms]]
      step_at [OF stub_code(3) [OF assms]] step_at [OF stub_code(4) [OF assms]]
      step_at [OF stub_code(5) [OF assms]] step_at [OF stub_code(6) [OF assms]]
      step_at [OF stub_code(7) [OF assms]] step_at [OF stub_code(8) [OF assms]]
      step_at [OF stub_code(9) [OF assms]] step_at [OF stub_code(10) [OF assms]]
      step_at [OF stub_code(11) [OF assms]] step_at [OF stub_code(12) [OF assms]]
      step_at [OF stub_code(13) [OF assms]] step_at [OF stub_code(14) [OF assms]]
      step_at [OF stub_code(15) [OF assms]] step_at [OF stub_code(16) [OF assms]]
      step_at [OF stub_code(17) [OF assms]] step_at [OF stub_code(18) [OF assms]]
      step_at [OF stub_code(19) [OF assms]] step_at [OF stub_code(20) [OF assms]];
      simp add: low_reg_def)+

subsection \<open>From the stub to \<open>hook_entry\<close>, and back\<close>

text \<open>What \<open>hook_entry\<close> finds, when the stub is entered in state \<open>s\<close> with the return address of the
  rewritten site on top of the stack: \<open>rdi\<close> points to the saved registers, which lie between the
  padding and that return address.\<close>

definition at_hook_entry :: "u64 \<Rightarrow> cpu \<Rightarrow> cpu" where
  "at_hook_entry addr s = (let r = regs s RSP in
     \<lparr>rip = addr,
      regs = (regs s)(RSP := r - 72, RDI := r - 56, R11 := addr),
      cmem = store64 (r - 72) 0x220 (store64 (r - 56) (regs s RAX) (store64 (r - 48) (regs s RDI)
        (store64 (r - 40) (regs s RSI) (store64 (r - 32) (regs s RDX) (store64 (r - 24) (regs s R10)
        (store64 (r - 16) (regs s R8) (store64 (r - 8) (regs s R9) (cmem s))))))))\<rparr>)"

lemmas exec_simps = exec_def push64_def set_reg_def

lemma above_trampoline_slots:
  assumes "634 \<le> unat r"
  shows "above_trampoline (r - 8)" "above_trampoline (r - 16)" "above_trampoline (r - 24)"
    "above_trampoline (r - 32)" "above_trampoline (r - 40)" "above_trampoline (r - 48)"
    "above_trampoline (r - 56)" "above_trampoline (r - 72)"
  using assms above_trampoline_sub [of 8 r] above_trampoline_sub [of 16 r]
    above_trampoline_sub [of 24 r] above_trampoline_sub [of 32 r] above_trampoline_sub [of 40 r]
    above_trampoline_sub [of 48 r] above_trampoline_sub [of 56 r] above_trampoline_sub [of 72 r]
  by simp_all

lemma stub_to_hook_entry:
  assumes "trampoline_at (cmem s) addr" "rip s = 0x200" "634 \<le> unat (regs s RSP)"
  shows "steps 11 s = Some (at_hook_entry addr s)"
proof -
  have n: "11 = Suc (Suc (Suc (Suc (Suc (Suc (Suc (Suc (Suc (Suc (Suc 0))))))))))" by simp
  show ?thesis
    unfolding n using assms above_trampoline_slots [OF assms(3)]
    by (simp add: stub_steps [where addr = addr] exec_simps at_hook_entry_def Let_def)
      (simp add: fun_eq_iff)
qed

text \<open>The state behind the site, when \<open>hook_entry\<close> has returned to the stub in state \<open>s\<close>.\<close>

definition behind_site :: "cpu \<Rightarrow> cpu" where
  "behind_site s = (let q = regs s RSP; m = cmem s in
     \<lparr>rip = load64 m (q + 64),
      regs = (regs s)(RSP := q + 72, RDI := load64 m (q + 16), RSI := load64 m (q + 24),
        RDX := load64 m (q + 32), R10 := load64 m (q + 40), R8 := load64 m (q + 48),
        R9 := load64 m (q + 56)),
      cmem = m\<rparr>)"

lemma stub_return:
  assumes "trampoline_at (cmem s) addr" "rip s = 0x220"
  shows "steps 9 s = Some (behind_site s)"
proof -
  have n: "9 = Suc (Suc (Suc (Suc (Suc (Suc (Suc (Suc (Suc 0))))))))" by simp
  show ?thesis
    unfolding n using assms
    by (simp add: stub_steps [where addr = addr] exec_simps behind_site_def Let_def add.assoc)
      (simp add: fun_eq_iff)
qed

subsection \<open>A rewritten site\<close>

text \<open>The state of a program about to execute \<open>call rax\<close> where it had a \<open>syscall\<close>: the trampoline is
  installed, the number in \<open>rax\<close> is one the sled covers, and the stack is not in the first page.\<close>

definition at_site :: "u64 \<Rightarrow> cpu \<Rightarrow> bool" where
  "at_site addr s \<longleftrightarrow> code_at (cmem s) (rip s) [0xff, 0xd0] \<and> trampoline_at (cmem s) addr \<and>
     unat (regs s RAX) \<le> MAX_SYSCALL_NR \<and> 642 \<le> unat (regs s RSP)"

text \<open>The number of instructions from the site to \<open>hook_entry\<close>.\<close>

definition entry_steps :: "cpu \<Rightarrow> nat" where
  "entry_steps s = 1 + (512 - unat (regs s RAX) + 11)"

lemma site_to_hook_entry:
  assumes "at_site addr s"
  shows "steps (entry_steps s) s =
    Some (at_hook_entry addr (s\<lparr>regs := (regs s)(RSP := regs s RSP - 8),
      cmem := store64 (regs s RSP - 8) (rip s + 2) (cmem s)\<rparr>))"
proof -
  let ?t = "s\<lparr>rip := regs s RAX, regs := (regs s)(RSP := regs s RSP - 8),
      cmem := store64 (regs s RSP - 8) (rip s + 2) (cmem s)\<rparr>"
  have site: "code_at (cmem s) (rip s) (encode (Call RAX))" and tramp: "trampoline_at (cmem s) addr"
    and nr: "unat (regs s RAX) \<le> 512" and room: "642 \<le> unat (regs s RSP)"
    using assms by (simp_all add: at_site_def encode_def with_reg_def low_reg_def MAX_SYSCALL_NR_def)
  have call: "steps 1 s = Some ?t"
    using step_code [OF site] by (simp add: exec_simps low_reg_def)
  have "above_trampoline (regs s RSP - 8)"
    using room by (intro above_trampoline_slots) simp
  with tramp have t: "trampoline_at (cmem ?t) addr" by simp
  have "unat (regs s RSP - 8) = unat (regs s RSP) - 8"
    using room by (simp add: unat_sub word_le_nat_alt)
  with room have r: "634 \<le> unat (regs ?t RSP)" by simp
  have "steps (512 - unat (regs s RAX)) ?t = Some (?t\<lparr>rip := 0x200\<rparr>)"
    using t nr by (intro sled) simp_all
  moreover have "steps 11 (?t\<lparr>rip := 0x200\<rparr>) = Some (at_hook_entry addr (?t\<lparr>rip := 0x200\<rparr>))"
    using t r by (intro stub_to_hook_entry) simp_all
  ultimately have "steps (512 - unat (regs s RAX) + 11) ?t = Some (at_hook_entry addr (?t\<lparr>rip := 0x200\<rparr>))"
    by (rule steps_trans)
  with call have "steps (entry_steps s) s = Some (at_hook_entry addr (?t\<lparr>rip := 0x200\<rparr>))"
    unfolding entry_steps_def by (rule steps_trans)
  then show ?thesis by (simp add: at_hook_entry_def)
qed

lemma outside_slots:
  fixes a r :: u64
  assumes "80 \<le> unat (a - (r - 80))" "8 \<le> k" "k \<le> 80"
  shows "8 \<le> unat (a - (r - of_nat k))"
proof -
  have k: "unat (of_nat (80 - k) :: u64) = 80 - k"
    using assms(1) by (intro unat_of_nat_below [of _ "a - (r - 80)"]) (use assms(2) in simp)
  have "a - (r - of_nat k) = (a - (r - 80)) - of_nat (80 - k)"
    using assms(3) by (simp add: of_nat_diff)
  also have "unat \<dots> = unat (a - (r - 80)) - (80 - k)"
    using assms(1,3) k by (simp only: unat_sub word_le_nat_alt)
  finally show ?thesis using assms by arith
qed

text \<open>What the machine shows \<open>hook_entry\<close>, in terms of the state at the site.\<close>

lemma hook_entry_view:
  assumes "at_site addr s" "steps (entry_steps s) s = Some s1"
  shows "rip s1 = addr" "regs s1 RSP = regs s RSP - 80" "regs s1 RDI = regs s RSP - 64"
    "regs_at (cmem s1) (regs s1 RDI) = regs_of_cpu s"
    "load64 (cmem s1) (regs s1 RSP) = 0x220"
    "load64 (cmem s1) (regs s1 RDI + 56) = rip s + 2"
    "r \<notin> {RSP, RDI, R11} \<Longrightarrow> regs s1 r = regs s r"
    "80 \<le> unat (a - (regs s RSP - 80)) \<Longrightarrow> cmem s1 a = cmem s a"
proof -
  have s1: "s1 = at_hook_entry addr (s\<lparr>regs := (regs s)(RSP := regs s RSP - 8),
      cmem := store64 (regs s RSP - 8) (rip s + 2) (cmem s)\<rparr>)"
    using site_to_hook_entry [OF assms(1)] assms(2) by simp
  show "rip s1 = addr" "regs s1 RSP = regs s RSP - 80" "regs s1 RDI = regs s RSP - 64"
    "r \<notin> {RSP, RDI, R11} \<Longrightarrow> regs s1 r = regs s r"
    by (simp_all add: s1 at_hook_entry_def Let_def)
  show "regs_at (cmem s1) (regs s1 RDI) = regs_of_cpu s"
    "load64 (cmem s1) (regs s1 RSP) = 0x220"
    "load64 (cmem s1) (regs s1 RDI + 56) = rip s + 2"
    by (simp_all add: s1 at_hook_entry_def Let_def regs_at_def regs_of_cpu_def memory_simps)
  show "cmem s1 a = cmem s a" if "80 \<le> unat (a - (regs s RSP - 80))"
    using outside_slots [OF that, of 8] outside_slots [OF that, of 16] outside_slots [OF that, of 24]
      outside_slots [OF that, of 32] outside_slots [OF that, of 40] outside_slots [OF that, of 48]
      outside_slots [OF that, of 56] outside_slots [OF that, of 64] outside_slots [OF that, of 80]
    by (simp add: s1 at_hook_entry_def Let_def store64_outside)
qed

lemma trampoline_kept:
  assumes "at_site addr s" "steps (entry_steps s) s = Some s1"
  shows "trampoline_at (cmem s1) addr"
proof -
  let ?r = "regs s RSP"
  have "s1 = at_hook_entry addr (s\<lparr>regs := (regs s)(RSP := ?r - 8),
      cmem := store64 (?r - 8) (rip s + 2) (cmem s)\<rparr>)"
    using site_to_hook_entry [OF assms(1)] assms(2) by simp
  moreover have "trampoline_at (cmem s) addr" "642 \<le> unat ?r"
    using assms(1) by (simp_all add: at_site_def)
  ultimately show ?thesis
    using above_trampoline_sub [of 8 ?r] above_trampoline_sub [of 16 ?r]
      above_trampoline_sub [of 24 ?r] above_trampoline_sub [of 32 ?r] above_trampoline_sub [of 40 ?r]
      above_trampoline_sub [of 48 ?r] above_trampoline_sub [of 56 ?r] above_trampoline_sub [of 64 ?r]
      above_trampoline_sub [of 80 ?r]
    by (simp add: at_hook_entry_def Let_def)
qed

subsection \<open>The properties of the trampoline\<close>

text \<open>
  The C calling convention, for the call of \<open>hook_entry\<close> in state \<open>s\<close> returning in state \<open>s'\<close>: control
  is back behind the call with the stack pointer restored, the callee-saved registers and the
  trampoline are as they were, and so is the word of the caller's frame above the structure the
  callee was given.
\<close>

definition c_return :: "u64 \<Rightarrow> cpu \<Rightarrow> cpu \<Rightarrow> bool" where
  "c_return addr s s' \<longleftrightarrow>
     rip s' = load64 (cmem s) (regs s RSP) \<and> regs s' RSP = regs s RSP + 8 \<and>
     list_all (\<lambda>r. regs s' r = regs s r) [RBX, RBP, R12, R13, R14, R15] \<and>
     (trampoline_at (cmem s) addr \<longrightarrow> trampoline_at (cmem s') addr) \<and>
     load64 (cmem s') (regs s RDI + 56) = load64 (cmem s) (regs s RDI + 56)"

lemma trampoline_round_trip:
  assumes "at_site addr s" and "\<And>s1. steps (entry_steps s) s = Some s1 \<Longrightarrow> c_return addr s1 (callee s1)"
  shows "\<exists>s1 s2. steps (entry_steps s) s = Some s1 \<and> rip s1 = addr \<and>
    regs_at (cmem s1) (regs s1 RDI) = regs_of_cpu s \<and>
    steps 9 (callee s1) = Some s2 \<and>
    rip s2 = rip s + 2 \<and> regs s2 RSP = regs s RSP \<and>
    regs s2 RAX = regs (callee s1) RAX \<and>
    regs_of_cpu s2 = (regs_at (cmem (callee s1)) (regs s1 RDI))\<lparr>rax := regs (callee s1) RAX\<rparr> \<and>
    map (regs s2) [RBX, RBP, R12, R13, R14, R15] = map (regs s) [RBX, RBP, R12, R13, R14, R15]"
proof -
  obtain s1 where s1: "steps (entry_steps s) s = Some s1"
    using site_to_hook_entry [OF assms(1)] by blast
  note view = hook_entry_view [OF assms(1) s1]
  have ret: "c_return addr s1 (callee s1)" using s1 by (rule assms(2))
  then have "steps 9 (callee s1) = Some (behind_site (callee s1))"
    using view(5) trampoline_kept [OF assms(1) s1]
    by (intro stub_return [of _ addr]) (simp_all add: c_return_def)
  moreover have "regs (callee s1) RSP = regs s RSP - 72" using ret view(2) by (simp add: c_return_def)
  moreover have "load64 (cmem (callee s1)) (regs s RSP - 8) = rip s + 2"
    using ret view(3,6) by (simp add: c_return_def)
  ultimately show ?thesis
    using s1 view ret
    by (intro exI [of _ s1] exI [of _ "behind_site (callee s1)"])
      (simp add: behind_site_def Let_def regs_of_cpu_def regs_at_def c_return_def)
qed

text \<open>
  C7: a rewritten site is a call of \<open>hook_entry\<close>, whatever the system call number, the registers and
  the memory: in \<open>entry\_steps\<close> instructions the machine is at \<open>hook_entry\<close> with \<open>rdi\<close> pointing to a
  \<open>SyscallRegs\<close> that holds the number and the six arguments; and from any state in which
  \<open>hook_entry\<close> may return, nine instructions lead behind the site, with the stack pointer and the
  callee-saved registers as before, the hook's result in \<open>rax\<close>, and the argument registers as the
  hook left them in the structure.
\<close>

theorem trampoline_calls_hook:
  assumes "at_site addr s" and "\<And>s1. c_return addr s1 (callee s1)"
  shows "\<exists>s1 s2. steps (entry_steps s) s = Some s1 \<and> rip s1 = addr \<and>
    regs_at (cmem s1) (regs s1 RDI) = regs_of_cpu s \<and>
    steps 9 (callee s1) = Some s2 \<and>
    rip s2 = rip s + 2 \<and> regs s2 RSP = regs s RSP \<and>
    regs s2 RAX = regs (callee s1) RAX \<and>
    regs_of_cpu s2 = (regs_at (cmem (callee s1)) (regs s1 RDI))\<lparr>rax := regs (callee s1) RAX\<rparr> \<and>
    map (regs s2) [RBX, RBP, R12, R13, R14, R15] = map (regs s) [RBX, RBP, R12, R13, R14, R15]"
  using assms by (rule trampoline_round_trip)

text \<open>A concrete site: \<open>getpid\<close> at address 0x5000, with a hook that returns 42.\<close>

definition site_memory :: "u64 \<Rightarrow> u64 \<Rightarrow> u8" where
  "site_memory addr a =
     (if unat a < 562 then trampoline_bytes addr ! unat a
      else if a = 0x5000 then 0xff else if a = 0x5001 then 0xd0 else 0)"

definition site_cpu :: cpu where
  "site_cpu = \<lparr>rip = 0x5000,
     regs = (\<lambda>r. if r = RAX then 39 else if r = RDI then 7 else if r = RSP then 0x8008 else 0),
     cmem = site_memory 0x7000\<rparr>"

definition return_42 :: "cpu \<Rightarrow> cpu" where
  "return_42 s = s\<lparr>rip := load64 (cmem s) (regs s RSP),
     regs := (regs s)(RAX := 42, RSP := regs s RSP + 8, RCX := 0)\<rparr>"

lemma site_memory_trampoline: "trampoline_at (site_memory addr) addr"
proof -
  have "unat (of_nat i :: u64) = i" if "i < 562" for i
    using that by (simp add: unat_of_nat)
  then show ?thesis
    by (simp add: trampoline_at_def code_at_def site_memory_def length_trampoline_bytes
        MAX_SYSCALL_NR_def)
qed

lemma site_cpu_at_site: "at_site 0x7000 site_cpu"
  by (simp add: at_site_def site_cpu_def site_memory_trampoline MAX_SYSCALL_NR_def)
    (simp add: site_memory_def)

lemma return_42_returns: "c_return addr s (return_42 s)"
  by (simp add: c_return_def return_42_def)

theorem trampoline_calls_hook_witness:
  "\<exists>s1 s2. steps (entry_steps site_cpu) site_cpu = Some s1 \<and> rip s1 = 0x7000 \<and>
    regs_at (cmem s1) (regs s1 RDI) = syscall_regs_new 39 7 0 0 0 0 0 \<and>
    steps 9 (return_42 s1) = Some s2 \<and> rip s2 = 0x5002 \<and> regs s2 RSP = 0x8008 \<and> regs s2 RAX = 42"
proof -
  have "regs_of_cpu site_cpu = syscall_regs_new 39 7 0 0 0 0 0"
    "rip site_cpu = 0x5000" "regs site_cpu RSP = 0x8008"
    "regs (return_42 s) RAX = 42" for s
    by (simp_all add: regs_of_cpu_def site_cpu_def syscall_regs_new_def return_42_def)
  then show ?thesis
    using trampoline_calls_hook [OF site_cpu_at_site, of return_42] return_42_returns by auto
qed

text \<open>
  C33: what the detour touches before \<open>hook\_entry\<close> runs: apart from \<open>rsp\<close>, \<open>rdi\<close> and \<open>r11\<close> every register is
  as at the site, and apart from the 80 bytes below the stack pointer every byte of memory is.  Those
  80 bytes lie in the 128-byte red zone: the return address and the seven saved registers overwrite
  what a leaf function keeps there, which a \<open>syscall\<close> instruction leaves alone.  The stack is aligned
  to 16 bytes at the call exactly when the stack pointer at the site is 8 modulo 16.
\<close>

theorem trampoline_footprint:
  assumes "at_site addr s"
  shows "\<exists>s1. steps (entry_steps s) s = Some s1 \<and>
    (\<forall>r. r = RSP \<or> r = RDI \<or> r = R11 \<or> regs s1 r = regs s r) \<and>
    (\<forall>a. unat (a - (regs s RSP - 80)) < 80 \<or> cmem s1 a = cmem s a) \<and>
    load64 (cmem s1) (regs s RSP - 8) = rip s + 2 \<and>
    load64 (cmem s1) (regs s RSP - 16) = regs s R9 \<and>
    load64 (cmem s1) (regs s RSP - 64) = regs s RAX \<and>
    (unat (regs s1 RSP + 8) mod 16 = 0 \<longleftrightarrow> unat (regs s RSP) mod 16 = 8)"
proof -
  obtain s1 where s1: "steps (entry_steps s) s = Some s1"
    using site_to_hook_entry [OF assms] by blast
  note view = hook_entry_view [OF assms s1]
  have regs_kept: "\<forall>r. r = RSP \<or> r = RDI \<or> r = R11 \<or> regs s1 r = regs s r"
    using view(7) by blast
  have bytes_kept: "\<forall>a. unat (a - (regs s RSP - 80)) < 80 \<or> cmem s1 a = cmem s a"
    using view(8) by (meson not_le)
  have "72 \<le> unat (regs s RSP)" using assms by (simp add: at_site_def)
  then have "unat (regs s1 RSP + 8) = unat (regs s RSP) - 72"
    by (simp add: view(2) unat_sub word_le_nat_alt)
  then have "unat (regs s1 RSP + 8) mod 16 = 0 \<longleftrightarrow> unat (regs s RSP) mod 16 = 8"
    using \<open>72 \<le> unat (regs s RSP)\<close> by presburger
  moreover have "load64 (cmem s1) (regs s RSP - 8) = rip s + 2"
    "load64 (cmem s1) (regs s RSP - 16) = regs s R9"
    "load64 (cmem s1) (regs s RSP - 64) = regs s RAX"
    using view(3,4,6) by (simp_all add: regs_at_def regs_of_cpu_def)
  ultimately show ?thesis
    using s1 regs_kept bytes_kept by (intro exI [of _ s1] conjI)
qed

theorem trampoline_footprint_witness:
  "\<exists>s1. steps (entry_steps site_cpu) site_cpu = Some s1 \<and> cmem s1 0x5000 = 0xff \<and>
    load64 (cmem s1) 0x8000 = 0x5002 \<and> unat (regs s1 RSP + 8) mod 16 = 0"
proof -
  have "regs site_cpu RSP = 0x8008" "rip site_cpu = 0x5000" "cmem site_cpu 0x5000 = 0xff"
    by (simp_all add: site_cpu_def site_memory_def)
  note start = this
  obtain s1 where s1: "steps (entry_steps site_cpu) site_cpu = Some s1"
    and bytes: "\<forall>a. unat (a - (regs site_cpu RSP - 80)) < 80 \<or> cmem s1 a = cmem site_cpu a"
    and rest: "load64 (cmem s1) (regs site_cpu RSP - 8) = rip site_cpu + 2"
    "unat (regs s1 RSP + 8) mod 16 = 0 \<longleftrightarrow> unat (regs site_cpu RSP) mod 16 = 8"
    using trampoline_footprint [OF site_cpu_at_site] by (elim exE conjE) (rule that; assumption)
  have "cmem s1 0x5000 = 0xff"
    using bytes [rule_format, of "0x5000"] start by simp
  then show ?thesis using s1 rest start by (intro exI [of _ s1]) simp
qed

end
