(* ===== verification/LoaderProperties.thy ===== *)
theory LoaderProperties
  imports Loader RewriterProperties TrampolineExecution
begin

section \<open>Properties of the loader\<close>

subsection \<open>The configuration\<close>

text \<open>The file \<^verbatim>\<open>libzpoline_loader.so\<close> in the directory of the executable, whether or not it exists.\<close>

definition beside_executable :: "('os, 'e) loader_env \<Rightarrow> path option" where
  "beside_executable env =
     map_option (\<lambda>d. path_join d (lit ''libzpoline_loader.so'')) (Option.bind (current_exe env) path_parent)"

definition user_exclusions :: "('os, 'e) loader_env \<Rightarrow> path list" where
  "user_exclusions env = (case env_var env (lit ''ZPOLINE_EXCLUDE'') of
       None \<Rightarrow> [] | Some paths \<Rightarrow> filter (\<lambda>p. p \<noteq> []) (split_on (\<lambda>c. c = 58) paths))"

lemma is_excluded_fold:
  "is_excluded (fold (\<lambda>p c. if p \<noteq> [] then exclude_path p c else c) ps c) r \<longleftrightarrow>
     is_excluded c r \<or> (\<exists>p\<in>set (filter (\<lambda>p. p \<noteq> []) ps). \<exists>q. pathname r = Some q \<and> path_starts_with q p)"
  by (induction ps arbitrary: c) (auto simp: is_excluded_exclude_path)

lemma dry_run_fold:
  "dry_run (fold (\<lambda>p c. if p \<noteq> [] then exclude_path p c else c) ps c) = dry_run c"
  by (induction ps arbitrary: c) (auto simp: exclude_path_def)

lemma build_config_excludes:
  "(is_excluded (build_rewrite_config env) r \<longleftrightarrow>
     mr_start r < raw_syscall_at env + 4096 \<and> raw_syscall_at env < mr_end r \<or>
     mr_start r < 65536 \<and> 0 < mr_end r \<or>
     (\<exists>q. pathname r = Some q \<and>
        ((\<exists>p. beside_executable env = Some p \<and> path_starts_with q p) \<or>
         (\<exists>p\<in>set (user_exclusions env). path_starts_with q p)))) \<and>
   \<not> dry_run (build_rewrite_config env)"
proof -
  let ?base = "case current_exe env of None \<Rightarrow> new_config
    | Some e \<Rightarrow> (case path_parent e of None \<Rightarrow> new_config
       | Some d \<Rightarrow> exclude_path (path_join d (lit ''libzpoline_loader.so'')) new_config)"
  have base: "is_excluded ?base r \<longleftrightarrow>
      (\<exists>q p. pathname r = Some q \<and> beside_executable env = Some p \<and> path_starts_with q p)" "\<not> dry_run ?base"
    by (auto simp: beside_executable_def is_excluded_exclude_path exclude_path_def new_config_def
        default_config_def split: option.splits)
      (auto simp: is_excluded_def exclude_path_def new_config_def default_config_def path_eq_starts_with
        split: option.splits)
  let ?ranges = "exclude_range 0 65536 (exclude_range (raw_syscall_at env) (raw_syscall_at env + 4096) ?base)"
  have cfg: "build_rewrite_config env = (case env_var env (lit ''ZPOLINE_EXCLUDE'') of
      None \<Rightarrow> ?ranges
    | Some paths \<Rightarrow> fold (\<lambda>p c. if p \<noteq> [] then exclude_path p c else c) (split_on (\<lambda>c. c = 58) paths) ?ranges)"
    by (simp only: build_rewrite_config_def Let_def)
  have ranges: "is_excluded ?ranges r \<longleftrightarrow> is_excluded ?base r \<or>
      mr_start r < raw_syscall_at env + 4096 \<and> raw_syscall_at env < mr_end r \<or> mr_start r < 65536 \<and> 0 < mr_end r"
    by (simp only: is_excluded_exclude_range) blast
  have dry: "\<not> dry_run ?ranges" using base(2) by (simp add: exclude_range_def)
  show ?thesis
  proof (cases "env_var env (lit ''ZPOLINE_EXCLUDE'')")
    case None
    then show ?thesis using cfg ranges dry base(1) by (simp only: user_exclusions_def option.case) auto
  next
    case (Some paths)
    then have c: "build_rewrite_config env =
        fold (\<lambda>p c. if p \<noteq> [] then exclude_path p c else c) (split_on (\<lambda>c. c = 58) paths) ?ranges"
      using cfg by simp
    from Some have u: "user_exclusions env = filter (\<lambda>p. p \<noteq> []) (split_on (\<lambda>c. c = 58) paths)"
      by (simp add: user_exclusions_def)
    show ?thesis unfolding c u is_excluded_fold dry_run_fold using ranges dry base(1) by blast
  qed
qed


text \<open>The loader preloaded into \<^verbatim>\<open>/bin/ls\<close> from the directory it was built in.\<close>

lemma preloaded_loader_not_excluded:
  assumes "current_exe env = Some (lit ''/bin/ls'')" "env_var env (lit ''ZPOLINE_EXCLUDE'') = None"
    "pathname r = Some (lit ''/opt/zpoline/libzpoline_loader.so'')"
    "raw_syscall_at env + 4096 \<le> mr_start r" "65536 \<le> mr_start r"
  shows "\<not> is_excluded (build_rewrite_config env) r"
proof -
  have "beside_executable env = Some (lit ''/bin/libzpoline_loader.so'')"
    using assms(1) by (simp add: beside_executable_def path_eval)
  moreover have "\<not> path_starts_with (lit ''/opt/zpoline/libzpoline_loader.so'') (lit ''/bin/libzpoline_loader.so'')"
    by (simp add: path_eval)
  moreover have "user_exclusions env = []" using assms(2) by (simp add: user_exclusions_def)
  ultimately show ?thesis
    using assms(3-5) unfolding build_config_excludes [THEN conjunct1] by (simp add: not_less del: lit_simps)
qed

subsection \<open>Rewriting the process\<close>

text \<open>A region that \<open>rewrite\_syscalls\<close> passes to the rewriter and that the rewriter does not skip.\<close>

definition eligible :: "('os, 'e) loader_env \<Rightarrow> memory_region \<Rightarrow> bool" where
  "eligible env region \<longleftrightarrow> is_executable region \<and> \<not> is_special region \<and>
     \<not> is_excluded (build_rewrite_config env) region"

lemma eprintln_proc [simp]: "proc (eprintln m s) = proc s" "installed_hook (eprintln m s) = installed_hook s"
  by (simp_all add: eprintln_def)

lemma rewrite_one_proc:
  assumes "rewrite_one env region rw s = (r, rw', s')" "config rw = build_rewrite_config env"
  shows "config rw' = build_rewrite_config env"
    "\<not> eligible env region \<or> \<not> in_region region a \<Longrightarrow> mem (proc s') a = mem (proc s) a"
  using assms
  by (auto simp: rewrite_one_def eligible_def split: if_splits prod.splits outcome.splits sum.splits
      dest: rewrite_region_config rewrite_region_frame)

text \<open>
  What the loop of the loader relies on: its body keeps the rewriter's configuration and changes no byte
  outside the region it is given.  Then, however the loop ends, it changes no byte outside all of them.
\<close>

locale region_loop =
  fixes body :: "memory_region \<Rightarrow> rewriter \<Rightarrow> 'os loader_state \<Rightarrow> unit ending \<times> rewriter \<times> 'os loader_state"
    and loop :: "memory_region list \<Rightarrow> rewriter \<Rightarrow> 'os loader_state \<Rightarrow> unit ending \<times> rewriter \<times> 'os loader_state"
    and configured :: "rewriter \<Rightarrow> bool" and touches :: "memory_region \<Rightarrow> u64 \<Rightarrow> bool"
  assumes loop_nil: "loop [] rw s = (Ended (), rw, s)"
    and loop_cons: "loop (region # regions) rw s = (case body region rw s of
        (Ended _, rw', s') \<Rightarrow> loop regions rw' s' | (crash, rw', s') \<Rightarrow> (crash, rw', s'))"
    and body_keeps: "configured rw \<Longrightarrow> body region rw s = (r, rw', s') \<Longrightarrow> configured rw'"
    and body_confined: "configured rw \<Longrightarrow> body region rw s = (r, rw', s') \<Longrightarrow> \<not> touches region a \<Longrightarrow>
        mem (proc s') a = mem (proc s) a"
begin

lemma loop_confined:
  assumes "loop regions rw s = (r, rw', s')" "configured rw"
    "\<And>region. region \<in> set regions \<Longrightarrow> \<not> touches region a"
  shows "mem (proc s') a = mem (proc s) a"
  using assms
proof (induction regions arbitrary: rw s)
  case (Cons region regions)
  obtain r1 rw1 s1 where one: "body region rw s = (r1, rw1, s1)" by (rule prod_cases3)
  have m1: "mem (proc s1) a = mem (proc s) a"
    using Cons.prems(3) by (intro body_confined [OF Cons.prems(2) one]) simp
  show ?case
  proof (cases r1)
    case (Ended u)
    then have "loop regions rw1 s1 = (r, rw', s')" using Cons.prems(1) one by (simp add: loop_cons)
    then have "mem (proc s') a = mem (proc s1) a"
      using body_keeps [OF Cons.prems(2) one] Cons.prems(3) by (intro Cons.IH) auto
    with m1 show ?thesis by simp
  qed (use Cons.prems(1) one m1 in \<open>auto simp: loop_cons\<close>)
qed (simp add: loop_nil)

end

interpretation loader_loop: region_loop "rewrite_one env" "rewrite_regions env"
  "\<lambda>rw. config rw = build_rewrite_config env" "\<lambda>region a. eligible env region \<and> in_region region a"
  by unfold_locales (auto split: ending.splits dest: rewrite_one_proc)

lemma rewrite_regions_frame:
  assumes "rewrite_regions env regions rw s = (r, rw', s')" "config rw = build_rewrite_config env"
    "\<And>region. region \<in> set regions \<Longrightarrow> \<not> eligible env region \<or> \<not> in_region region a"
  shows "mem (proc s') a = mem (proc s) a"
  using assms(3) by (intro loader_loop.loop_confined [OF assms(1,2)]) blast

lemma rewrite_syscalls_frame:
  assumes "rewrite_syscalls env s = (r, s')"
    "\<And>regions region. parse_proc_maps (open_file env (proc s)) = Inr regions \<Longrightarrow> region \<in> set regions \<Longrightarrow>
       \<not> eligible env region \<or> \<not> in_region region a"
  shows "mem (proc s') a = mem (proc s) a"
proof (cases "parse_proc_maps (open_file env (proc s))")
  case (Inr regions)
  obtain r1 rw1 s1 where run:
    "rewrite_regions env regions (new_rewriter (build_rewrite_config env)) s = (r1, rw1, s1)"
    by (rule prod_cases3)
  then have "s' = s1" using assms(1) Inr by (cases r1) (auto simp: rewrite_syscalls_def)
  then show ?thesis
    using rewrite_regions_frame [OF run, of a] assms(2) Inr by (auto simp: new_rewriter_def)
qed (use assms(1) in \<open>simp add: rewrite_syscalls_def\<close>)

text \<open>Addresses of a region whose end is not below its start.\<close>

lemma in_region_range:
  assumes "mr_start r \<le> mr_end r"
  shows "in_region r a \<longleftrightarrow> mr_start r \<le> a \<and> a < mr_end r"
proof -
  have size: "unat (mr_end r - mr_start r) = unat (mr_end r) - unat (mr_start r)"
    using assms by (rule unat_sub)
  show ?thesis
  proof
    assume "in_region r a"
    then have d: "unat (a - mr_start r) < unat (mr_end r) - unat (mr_start r)"
      by (simp add: in_region_def region_size_def size)
    then have "unat (mr_start r) + unat (a - mr_start r) < 2 ^ 64"
      using unsigned_less [of "mr_end r", where 'a = nat] by simp
    then have "unat (mr_start r + (a - mr_start r)) = unat (mr_start r) + unat (a - mr_start r)"
      by (intro unat_add_lem [THEN iffD1]) simp
    with d show "mr_start r \<le> a \<and> a < mr_end r"
      by (simp add: word_le_nat_alt word_less_nat_alt)
  next
    assume "mr_start r \<le> a \<and> a < mr_end r"
    then show "in_region r a"
      by (simp add: in_region_def region_size_def size unat_sub word_le_nat_alt word_less_nat_alt) arith
  qed
qed

definition proper_regions :: "memory_region list \<Rightarrow> bool" where
  "proper_regions regions \<longleftrightarrow> list_all (\<lambda>r. mr_start r < mr_end r) regions"

lemma low_not_eligible:
  assumes "mr_start r \<le> mr_end r" "in_region r a" "a < 65536"
  shows "\<not> eligible env r"
proof -
  have "mr_start r \<le> a" "a < mr_end r" using assms in_region_range by blast+
  then have "mr_start r < 65536" "0 < mr_end r"
    using assms(3) by (auto intro: le_less_trans)
  then show ?thesis by (simp add: eligible_def build_config_excludes)
qed

lemma raw_syscall_not_eligible:
  assumes "mr_start r \<le> mr_end r" "in_region r a" "raw_syscall_at env \<le> a" "a < raw_syscall_at env + 4096"
  shows "\<not> eligible env r"
proof -
  have "mr_start r \<le> a" "a < mr_end r" using assms in_region_range by blast+
  then have "mr_start r < raw_syscall_at env + 4096" "raw_syscall_at env < mr_end r"
    using assms(3,4) by (auto intro: le_less_trans)
  then show ?thesis by (simp add: eligible_def build_config_excludes)
qed

text \<open>
  C9: what stays intact.  Whatever the outcome of \<open>rewrite\_syscalls\<close>, on any machine: no byte of the
  first 64 KiB, where the trampoline is, changes; no byte of the 4096 from \<open>raw\_syscall\<close> on changes,
  so the raw system call stays one; and no byte outside the executable, ordinary, not excluded regions
  of the memory map changes.
\<close>

theorem rewrite_syscalls_preserves:
  assumes "rewrite_syscalls env s = (r, s')"
    and "parse_proc_maps (open_file env (proc s)) = Inr regions" and "proper_regions regions"
    and "a < 65536 \<or> raw_syscall_at env \<le> a \<and> a < raw_syscall_at env + 4096 \<or>
      list_all (\<lambda>region. \<not> eligible env region \<or> \<not> in_region region a) regions"
  shows "mem (proc s') a = mem (proc s) a"
proof (rule rewrite_syscalls_frame [OF assms(1)])
  fix regions' region
  assume "parse_proc_maps (open_file env (proc s)) = Inr regions'" "region \<in> set regions'"
  with assms(2,3) have "region \<in> set regions" "mr_start region \<le> mr_end region"
    by (auto simp: proper_regions_def list_all_iff less_imp_le)
  with assms(4) show "\<not> eligible env region \<or> \<not> in_region region a"
    using low_not_eligible [of region a env] raw_syscall_not_eligible [of region a env]
    by (auto simp: list_all_iff)
qed

subsection \<open>Rewriting everything\<close>

definition disjoint_regions :: "memory_region list \<Rightarrow> bool" where
  "disjoint_regions regions \<longleftrightarrow>
     sorted_wrt (\<lambda>r r'. mr_end r \<le> mr_start r' \<or> mr_end r' \<le> mr_start r) regions"

lemma disjoint_in_region:
  assumes "mr_start r < mr_end r" "mr_start r' < mr_end r'"
    "mr_end r \<le> mr_start r' \<or> mr_end r' \<le> mr_start r" "in_region r a"
  shows "\<not> in_region r' a"
  using assms in_region_range [of r a] in_region_range [of r' a]
  by (meson less_imp_le less_le_not_le order.trans)

text \<open>What the rewriter computes for a region depends on the region's bytes only.\<close>

lemma region_code_eq:
  "(\<And>a. in_region r a \<Longrightarrow> mem s' a = mem s a) \<Longrightarrow> region_code s' r = region_code s r"
  by (intro nth_equalityI) (simp_all add: in_region_def)

lemma rewritten_code_eq:
  assumes "region_code s' r = region_code s r"
  shows "rewritten_code P r s' = rewritten_code P r s"
proof -
  have "region_decoded P r s' p t = region_decoded P r s p t" for p t
    using assms by (simp add: region_decoded_def)
  then show ?thesis using assms by (simp add: rewritten_code_def replaceable_def)
qed

text \<open>The machine on which nothing fails: documented decoder, page size, and \<open>mprotect\<close>.\<close>

definition sound_machine :: "('os, 'e) loader_env \<Rightarrow> bool" where
  "sound_machine env \<longleftrightarrow> good_platform (platform_of env) \<and> 0 < page_size (platform_of env) \<and>
     page_size (platform_of env) \<le> 65536 \<and>
     (\<forall>a n prot o'. fst (mprotect (platform_of env) a n prot o') = None)"

lemma eligible_aligned_start:
  assumes "eligible env r" "mr_start r < mr_end r" "0 < ps" "ps \<le> 65536"
  shows "aligned_start ps r \<noteq> 0"
proof -
  have "0 < mr_end r" using assms(2) by (simp add: word_greater_zero_iff) auto
  then have "65536 \<le> mr_start r"
    using assms(1) by (auto simp: eligible_def build_config_excludes not_less)
  with assms(4) have "ps \<le> mr_start r" by simp
  then have "unat ps \<le> unat (mr_start r)" "0 < unat ps"
    using assms(3) by (simp_all add: word_le_nat_alt word_less_nat_alt)
  then have "0 < unat (mr_start r) div unat ps * unat ps" by (simp add: div_greater_zero_iff)
  then show ?thesis by (metis unat_aligned_start unat_0 less_irrefl)
qed

lemma rewrite_one_complete:
  assumes "sound_machine env" "config rw = build_rewrite_config env" "mr_start r < mr_end r"
  shows "\<exists>rw' s'. rewrite_one env r rw s = (Ended (), rw', s') \<and> config rw' = config rw \<and>
    mem (proc s') = (if eligible env r then rewritten_mem (platform_of env) r (proc s) else mem (proc s)) \<and>
    regions_scanned (stats rw') = regions_scanned (stats rw) +
      (if is_executable r \<and> \<not> is_special r then 1 else 0)"
proof (cases "is_executable r \<and> \<not> is_special r")
  case False
  then show ?thesis by (auto simp: rewrite_one_def eligible_def)
next
  case True
  show ?thesis
  proof (cases "eligible env r")
    case False
    with True have "is_excluded (config rw) r" using assms(2) by (simp add: eligible_def)
    with True False show ?thesis
      by (simp add: rewrite_one_def rewrite_region_skip) (simp add: scanned_def)
  next
    case el: True
    let ?P = "platform_of env"
    have region: "is_executable r" "\<not> is_excluded (config rw) r" "\<not> dry_run (config rw)"
      using el assms(2) by (simp_all add: eligible_def build_config_excludes)
    have prot: "aligned_start (page_size ?P) r \<noteq> 0" "\<forall>a n prot o'. fst (mprotect ?P a n prot o') = None"
      using eligible_aligned_start [OF el assms(3)] assms(1) by (simp_all add: sound_machine_def)
    have "good_platform ?P" using assms(1) by (simp add: sound_machine_def)
    then obtain rw' p where "rewrite_region ?P r rw (proc s) =
        (Returned (Inr (of_nat (card (replaceable ?P r (proc s))))), rw', p)"
      "mem p = rewritten_mem ?P r (proc s)" "config rw' = config rw"
      "stats rw' = (let st = patched_stats ?P r (proc s) (stats (scanned rw)) in
         if replaceable ?P r (proc s) = {} then st
         else st\<lparr>regions_rewritten := regions_rewritten st + 1\<rparr>)"
      by (rule rewrite_region_success [OF _ region prot])
    with True el show ?thesis
      by (simp add: rewrite_one_def Let_def patched_stats_def scanned_def)
  qed
qed

lemma rewrite_regions_complete:
  assumes "sound_machine env" "config rw = build_rewrite_config env" "proper_regions regions"
    "disjoint_regions regions"
  shows "\<exists>rw' s'. rewrite_regions env regions rw s = (Ended (), rw', s') \<and>
    (\<forall>r\<in>set regions. eligible env r \<longrightarrow>
       region_code (proc s') r = rewritten_code (platform_of env) r (proc s)) \<and>
    regions_scanned (stats rw') = regions_scanned (stats rw) +
      of_nat (length (filter (\<lambda>r. is_executable r \<and> \<not> is_special r) regions))"
  using assms(2-4)
proof (induction regions arbitrary: rw s)
  case (Cons r regions)
  let ?P = "platform_of env"
  have r: "mr_start r < mr_end r" and rest: "proper_regions regions" "disjoint_regions regions"
    using Cons.prems by (simp_all add: proper_regions_def disjoint_regions_def)
  obtain rw1 s1 where one: "rewrite_one env r rw s = (Ended (), rw1, s1)" "config rw1 = config rw"
    "mem (proc s1) = (if eligible env r then rewritten_mem ?P r (proc s) else mem (proc s))"
    "regions_scanned (stats rw1) = regions_scanned (stats rw) +
      (if is_executable r \<and> \<not> is_special r then 1 else 0)"
    using rewrite_one_complete [OF assms(1) Cons.prems(1) r] by blast
  have c1: "config rw1 = build_rewrite_config env" using one(2) Cons.prems(1) by simp
  obtain rw' s' where run: "rewrite_regions env regions rw1 s1 = (Ended (), rw', s')"
    and tail: "\<forall>r\<in>set regions. eligible env r \<longrightarrow> region_code (proc s') r = rewritten_code ?P r (proc s1)"
    and count: "regions_scanned (stats rw') = regions_scanned (stats rw1) +
      of_nat (length (filter (\<lambda>r. is_executable r \<and> \<not> is_special r) regions))"
    using Cons.IH [OF c1 rest] by blast
  have apart: "\<not> in_region r' a" if "r' \<in> set regions" "in_region r a" for r' a
    using that Cons.prems(2,3) by (intro disjoint_in_region [OF r, of r'])
      (auto simp: proper_regions_def disjoint_regions_def list_all_iff)
  have later: "rewritten_code ?P r' (proc s1) = rewritten_code ?P r' (proc s)" if "r' \<in> set regions" for r'
  proof (intro rewritten_code_eq region_code_eq)
    fix a
    assume "in_region r' a"
    then have "\<not> in_region r a" using apart that by blast
    then show "mem (proc s1) a = mem (proc s) a" using one(3) by (simp add: rewritten_mem_outside)
  qed
  have first: "region_code (proc s') r = rewritten_code ?P r (proc s)" if "eligible env r"
  proof -
    have "region_code (proc s') r = region_code (proc s1) r"
      using apart by (intro region_code_eq rewrite_regions_frame [OF run c1]) blast
    also have "\<dots> = rewritten_code ?P r (proc s)"
      using one(3) that by (simp add: region_code_rewritten)
    finally show ?thesis .
  qed
  show ?case
    using one(1,4) run tail count later first by (simp add: ac_simps)
qed simp

lemma rewrite_syscalls_result:
  assumes "sound_machine env" "parse_proc_maps (open_file env (proc s)) = Inr regions"
    "proper_regions regions" "disjoint_regions regions"
  shows "\<exists>st s'. rewrite_syscalls env s = (Ended (Inr st), s') \<and>
    (\<forall>r\<in>set regions. eligible env r \<longrightarrow>
       region_code (proc s') r = rewritten_code (platform_of env) r (proc s)) \<and>
    regions_scanned st = of_nat (length (filter (\<lambda>r. is_executable r \<and> \<not> is_special r) regions))"
proof -
  have "config (new_rewriter (build_rewrite_config env)) = build_rewrite_config env"
    "regions_scanned (stats (new_rewriter (build_rewrite_config env))) = 0"
    by (simp_all add: new_rewriter_def default_stats_def)
  with rewrite_regions_complete [OF assms(1) _ assms(3,4), of "new_rewriter (build_rewrite_config env)" s]
  show ?thesis by (auto simp: rewrite_syscalls_def assms(2) get_stats_def)
qed

text \<open>
  C8: everything that should be rewritten is.  On a machine where nothing fails, for a memory map of
  non-empty, disjoint regions, \<open>rewrite\_syscalls\<close> returns statistics, has passed exactly the executable
  ordinary regions to the rewriter, and every eligible region holds its original code with each
  decoded, unprefixed \<open>syscall\<close> and \<open>sysenter\<close> replaced by \<open>call rax\<close>: no region disturbs another.
\<close>

theorem rewrite_syscalls_complete:
  assumes "sound_machine env" and "parse_proc_maps (open_file env (proc s)) = Inr regions"
    and "proper_regions regions" and "disjoint_regions regions"
  shows "\<exists>st s'. rewrite_syscalls env s = (Ended (Inr st), s') \<and>
    (\<forall>r\<in>set regions. eligible env r \<longrightarrow>
       region_code (proc s') r = rewritten_code (platform_of env) r (proc s)) \<and>
    regions_scanned st = of_nat (length (filter (\<lambda>r. is_executable r \<and> \<not> is_special r) regions))"
  by (rule rewrite_syscalls_result [OF assms])

text \<open>A process with one mapping: \<open>nop; syscall; sysenter\<close> at 0x20000.\<close>

definition code_region :: memory_region where
  "code_region = \<lparr>mr_start = 0x20000, mr_end = 0x20005, readable = True, writable = False,
     executable = True, is_private = True, mr_offset = 0, device = lit ''08:01'', inode = 7,
     pathname = None\<rparr>"

definition code_memory :: "u64 \<Rightarrow> u8" where
  "code_memory a = (if a = 0x20001 \<or> a = 0x20003 then 0x0f else if a = 0x20002 then 0x05
     else if a = 0x20004 then 0x34 else 0x90)"

definition test_env :: "(mprotect_log, unit) loader_env" where
  "test_env = \<lparr>platform_of = test_platform (\<lambda>_. None), mmap_of = zero_mmap,
     open_file = (\<lambda>_ _. Inr [Inr (format_maps_line 4 1 code_region)]), show_io = (\<lambda>_. []),
     show_errno = (\<lambda>_. []), debug_path = (\<lambda>p. p), env_var = (\<lambda>_. None), current_exe = None,
     path_exists = (\<lambda>_. False), hook_entry_at = 0x9000000, raw_syscall_at = 0x9001000,
     dlmopen = (\<lambda>_ p. (0, p)), dlerror = None, dlsym = (\<lambda>_ _. 0), call_init = (\<lambda>_ p. (0, p))\<rparr>"

definition test_loader_state :: "mprotect_log loader_state" where
  "test_loader_state = \<lparr>proc = \<lparr>mem = code_memory, os = []\<rparr>, stderr_lines = [],
     installed_hook = Default_hook, init_done = False\<rparr>"

lemma test_env_maps: "parse_proc_maps (open_file test_env p) = Inr [code_region]"
proof -
  have "printable_region code_region"
    by (simp add: code_region_def printable_region_def is_word_def is_whitespace_def)
  then show ?thesis
    by (simp add: test_env_def parse_proc_maps_def parse_maps_file_def parse_format)
qed

lemma test_env_regions: "proper_regions [code_region]" "disjoint_regions [code_region]"
  by (simp_all add: proper_regions_def disjoint_regions_def code_region_def)

lemma test_env_sound: "sound_machine test_env"
  by (simp add: sound_machine_def test_env_def) (simp add: test_platform_def)

lemma code_region_eligible: "eligible test_env code_region" "is_executable code_region" "\<not> is_special code_region"
  by (simp_all add: eligible_def build_config_excludes)
    (simp_all add: test_env_def code_region_def is_executable_def is_special_def)

theorem rewrite_syscalls_complete_witness:
  "\<exists>st s'. rewrite_syscalls test_env test_loader_state = (Ended (Inr st), s') \<and> regions_scanned st = 1 \<and>
     region_code (proc s') code_region =
       rewritten_code (platform_of test_env) code_region (proc test_loader_state)"
  using rewrite_syscalls_complete [OF test_env_sound test_env_maps test_env_regions, of test_loader_state]
  by (auto simp: code_region_eligible)

theorem rewrite_syscalls_preserves_witness:
  "\<exists>r s'. rewrite_syscalls test_env test_loader_state = (r, s') \<and> mem (proc s') 0x9001004 = 0x90"
proof -
  obtain r s' where run: "rewrite_syscalls test_env test_loader_state = (r, s')" by fastforce
  have "(0x9001004 :: u64) < 65536 \<or> raw_syscall_at test_env \<le> 0x9001004 \<and>
      0x9001004 < raw_syscall_at test_env + 4096 \<or>
      list_all (\<lambda>region. \<not> eligible test_env region \<or> \<not> in_region region 0x9001004) [code_region]"
    by (simp add: test_env_def)
  from rewrite_syscalls_preserves [OF run test_env_maps test_env_regions(1) this] run show ?thesis
    by (simp add: test_loader_state_def code_memory_def)
qed

subsection \<open>The order of initialisation\<close>

text \<open>
  The dynamic linker and a library's initialisation function leave the trampoline's pages alone.
\<close>

definition linker_documented :: "('os, 'e) loader_env \<Rightarrow> bool" where
  "linker_documented env \<longleftrightarrow>
     (\<forall>path p a. unat a < 4608 \<longrightarrow> mem (snd (dlmopen env path p)) a = mem p a) \<and>
     (\<forall>f p a. unat a < 4608 \<longrightarrow> mem (snd (call_init env f p)) a = mem p a)"

lemma load_hook_library_mem:
  assumes "linker_documented env" "load_hook_library env path s = (r, s')" "unat a < 4608"
  shows "mem (proc s') a = mem (proc s) a"
  using assms(2) assms(1) [unfolded linker_documented_def] assms(3)
  by (auto simp: load_hook_library_def Let_def split: option.splits if_splits prod.splits)
    (metis snd_conv)+

lemma get_hook_library_path_proc: "get_hook_library_path env s = (r, s') \<Longrightarrow> proc s' = proc s"
  by (auto simp: get_hook_library_path_def Let_def split: option.splits)

lemma init_hook_library_mem:
  assumes "linker_documented env" "unat a < 4608"
  shows "mem (proc (init_hook_library env s)) a = mem (proc s) a"
proof -
  obtain path s1 where p: "get_hook_library_path env s = (path, s1)" by fastforce
  then have s1: "proc s1 = proc s" by (rule get_hook_library_path_proc)
  show ?thesis
  proof (cases path)
    case (Some l)
    obtain r s2 where l: "load_hook_library env (Some l) s1 = (r, s2)" by fastforce
    with load_hook_library_mem [OF assms(1) l assms(2)] p s1 Some show ?thesis
      by (cases r) (simp_all add: init_hook_library_def)
  qed (use p s1 in \<open>simp add: init_hook_library_def\<close>)
qed

lemma report_stats_proc [simp]: "proc (report_stats st s) = proc s"
  by (simp add: report_stats_def)

lemma trampoline_at_bytes:
  assumes "\<And>a. unat a < 562 \<Longrightarrow> m a = trampoline_bytes addr ! unat a"
  shows "trampoline_at m addr"
proof -
  have "m (of_nat i) = trampoline_bytes addr ! i" if "i < 562" for i
    using assms [of "of_nat i"] that by (simp add: unat_of_nat)
  then show ?thesis
    by (simp add: trampoline_at_def code_at_def length_trampoline_bytes MAX_SYSCALL_NR_def)
qed

lemma trampoline_at_cong:
  assumes "trampoline_at m addr" "\<And>a. unat a < 4608 \<Longrightarrow> m' a = m a"
  shows "trampoline_at m' addr"
proof -
  have "m' (of_nat i) = m (of_nat i)" if "i < 562" for i
    using assms(2) [of "of_nat i"] that by (simp add: unat_of_nat)
  then show ?thesis
    using assms(1) by (simp add: trampoline_at_def code_at_def length_trampoline_bytes MAX_SYSCALL_NR_def)
qed

lemma init_trampoline_result:
  assumes "mmap_documented (mmap_of env)" "init_trampoline env s = (r, s')"
  shows "(r = Exits 1 \<and> mem (proc s') = mem (proc s)) \<or>
    (r = Ended () \<and> trampoline_at (mem (proc s')) (hook_entry_at env))"
proof -
  obtain q p where q: "setup_trampoline (mmap_of env) (hook_entry_at env) (proc s) = (q, p)" by fastforce
  from setup_trampoline_result [OF assms(1) q] show ?thesis
  proof
    assume "\<exists>e. q = Some (Inl (MmapFailed e)) \<and> mem p = mem (proc s)"
    then show ?thesis using assms(2) q by (auto simp: init_trampoline_def)
  next
    assume ok: "q = Some (Inr ()) \<and> (\<forall>a. mem p a =
        (if unat a < 562 then trampoline_bytes (hook_entry_at env) ! unat a
         else if unat a < 4608 then 0 else mem (proc s) a))"
    then have "trampoline_at (mem p) (hook_entry_at env)" by (intro trampoline_at_bytes) simp
    then show ?thesis using ok assms(2) q by (auto simp: init_trampoline_def)
  qed
qed

definition maps_documented :: "('os, 'e) loader_env \<Rightarrow> bool" where
  "maps_documented env \<longleftrightarrow>
     (\<forall>p regions. parse_proc_maps (open_file env p) = Inr regions \<longrightarrow> proper_regions regions)"

lemma init_rewrite_keeps_low:
  assumes "maps_documented env" "init_rewrite env s = (r, s')" "unat a < 65536"
  shows "mem (proc s') a = mem (proc s) a"
proof -
  obtain q s1 where q: "rewrite_syscalls env s = (q, s1)" by fastforce
  have low: "\<not> eligible env region \<or> \<not> in_region region a"
    if "parse_proc_maps (open_file env (proc s)) = Inr regions" "region \<in> set regions" for regions region
    using that assms(1,3) low_not_eligible [of region a env]
    by (auto simp: maps_documented_def proper_regions_def list_all_iff less_imp_le word_less_nat_alt)
  have "mem (proc s1) a = mem (proc s) a"
    by (rule rewrite_syscalls_frame [OF q]) (rule low)
  then show ?thesis
    using assms(2) q by (auto simp: init_rewrite_def split: ending.splits sum.splits)
qed

text \<open>
  C20: code is rewritten only behind a trampoline.  However \<open>zpoline\_init\<close> ends, either the trampoline
  could not be mapped, and then the process exits with status 1 with no byte changed, or the
  trampoline is at address 0 and stays there through the rewriting and the loading of the hook
  library.  A second run of the constructor after a completed one changes nothing.
\<close>

theorem zpoline_init_order:
  assumes "mmap_documented (mmap_of env)" and "maps_documented env" and "linker_documented env"
    and "\<not> init_done s" and "zpoline_init env s = (r, s')"
  shows "((r = Exits 1 \<and> mem (proc s') = mem (proc s)) \<or>
      trampoline_at (mem (proc s')) (hook_entry_at env)) \<and>
    (r = Ended () \<longrightarrow> zpoline_init env s' = (Ended (), s'))"
proof -
  let ?s0 = "eprintln (lit ''[zpoline] Initializing zpoline-rs...'') s"
  obtain r1 s1 where t: "init_trampoline env ?s0 = (r1, s1)" by fastforce
  from init_trampoline_result [OF assms(1) t] show ?thesis
  proof
    assume "r1 = Exits 1 \<and> mem (proc s1) = mem (proc ?s0)"
    then show ?thesis
      using assms(4,5) t by (auto simp: zpoline_init_def zpoline_init_body_def)
  next
    assume ok: "r1 = Ended () \<and> trampoline_at (mem (proc s1)) (hook_entry_at env)"
    obtain r2 s2 where w: "init_rewrite env s1 = (r2, s2)" by fastforce
    have t2: "trampoline_at (mem (proc s2)) (hook_entry_at env)"
      using ok init_rewrite_keeps_low [OF assms(2) w] by (auto intro: trampoline_at_cong)
    then have t3: "trampoline_at (mem (proc (init_hook_library env s2))) (hook_entry_at env)"
      using init_hook_library_mem [OF assms(3)] by (auto intro: trampoline_at_cong)
    show ?thesis
      using assms(4,5) t ok w t2 t3
      by (cases r2) (auto simp: zpoline_init_def zpoline_init_body_def)
  qed
qed

lemma test_env_documented: "mmap_documented (mmap_of test_env)" "maps_documented test_env"
  "linker_documented test_env"
proof -
  show "mmap_documented (mmap_of test_env)"
    by (auto simp: mmap_documented_def test_env_def zero_mmap_def)
  show "maps_documented test_env"
    by (simp add: maps_documented_def test_env_maps test_env_regions(1))
  show "linker_documented test_env"
    by (simp add: linker_documented_def test_env_def)
qed

theorem zpoline_init_order_witness:
  "\<exists>r s'. zpoline_init test_env test_loader_state = (r, s') \<and>
     (r = Exits 1 \<or> trampoline_at (mem (proc s')) 0x9000000)"
proof -
  obtain r s' where run: "zpoline_init test_env test_loader_state = (r, s')" by fastforce
  have "\<not> init_done test_loader_state" "hook_entry_at test_env = 0x9000000"
    by (simp_all add: test_loader_state_def test_env_def)
  with zpoline_init_order [OF test_env_documented _ run] run show ?thesis by auto
qed

end
