(* ===== verification/HookLoading.thy ===== *)
theory HookLoading
  imports LoaderProperties
begin

section \<open>Loading the hook library (\<open>zpoline\_loader/src/dlmopen.rs\<close>)\<close>

text \<open>
  Which library the loader chooses, when loading it yields a hook function, and what is installed
  afterwards.
\<close>

text \<open>The library: \<^verbatim>\<open>ZPOLINE_HOOK\<close> as it stands, or the default next to the executable if it exists.\<close>

definition default_library :: "('os, 'e) loader_env \<Rightarrow> path option" where
  "default_library env = Option.bind (Option.bind (current_exe env) path_parent)
     (\<lambda>dir. Some (path_join dir (lit ''libzpoline_hook_impl.so'')))"

definition chosen_library :: "('os, 'e) loader_env \<Rightarrow> rstr option" where
  "chosen_library env = (case env_var env (lit ''ZPOLINE_HOOK'') of
       Some p \<Rightarrow> Some p
     | None \<Rightarrow> (case default_library env of
         Some p \<Rightarrow> if path_exists env p then Some p else None
       | None \<Rightarrow> None))"

text \<open>A library gives the hook \<open>a\<close>: it loads, it has the symbol, and the symbol's function returns \<open>a\<close>.\<close>

definition gives_hook :: "('os, 'e) loader_env \<Rightarrow> rstr \<Rightarrow> 'os process \<Rightarrow> u64 \<Rightarrow> 'os process \<Rightarrow> bool" where
  "gives_hook env lib p a p' \<longleftrightarrow> 0 \<notin> set lib \<and>
     (\<exists>handle p1. dlmopen env lib p = (handle, p1) \<and> handle \<noteq> 0 \<and>
        dlsym env handle (lit ''zpoline_hook_init'') \<noteq> 0 \<and>
        call_init env (dlsym env handle (lit ''zpoline_hook_init'')) p1 = (a, p') \<and> a \<noteq> 0)"

lemma gives_hook_unique: "gives_hook env lib p a p' \<Longrightarrow> gives_hook env lib p b p'' \<Longrightarrow> a = b \<and> p' = p''"
  by (auto simp: gives_hook_def)

lemma library_path: "fst (get_hook_library_path env s) = chosen_library env"
  by (auto simp: get_hook_library_path_def chosen_library_def default_library_def Let_def
      split: option.splits)

lemma library_path_state:
  "proc (snd (get_hook_library_path env s)) = proc s"
  "installed_hook (snd (get_hook_library_path env s)) = installed_hook s"
  by (simp_all add: get_hook_library_path_def Let_def eprintln_def split: option.splits)

lemma load_library_result:
  "fst (load_hook_library env (Some lib) s) = Inr fn \<longleftrightarrow>
     (\<exists>a p'. gives_hook env lib (proc s) a p' \<and> fn = Hook_at a)"
  by (auto simp: load_hook_library_def gives_hook_def Let_def eprintln_def split: prod.splits)

lemma load_library_state:
  "installed_hook (snd (load_hook_library env lib s)) = installed_hook s"
  "gives_hook env l (proc s) a p' \<Longrightarrow> lib = Some l \<Longrightarrow> proc (snd (load_hook_library env lib s)) = p'"
  by (auto simp: load_hook_library_def gives_hook_def Let_def eprintln_def split: prod.splits option.splits)

lemma init_hook_library_hook:
  "installed_hook (init_hook_library env s) = f \<longleftrightarrow>
     (\<exists>lib a p'. chosen_library env = Some lib \<and> gives_hook env lib (proc s) a p' \<and> f = Hook_at a) \<or>
     (\<nexists>lib a p'. chosen_library env = Some lib \<and> gives_hook env lib (proc s) a p') \<and> f = installed_hook s"
proof -
  obtain lib s1 where path: "get_hook_library_path env s = (lib, s1)" by fastforce
  then have s1: "lib = chosen_library env" "proc s1 = proc s" "installed_hook s1 = installed_hook s"
    using library_path [of env s] library_path_state [of env s] by simp_all
  show ?thesis
  proof (cases lib)
    case None
    with path s1 show ?thesis by (auto simp: init_hook_library_def eprintln_def)
  next
    case (Some l)
    obtain r s2 where load: "load_hook_library env (Some l) s1 = (r, s2)" by fastforce
    have s2: "installed_hook s2 = installed_hook s"
      using load_library_state(1) [of env "Some l" s1] load s1(3) by simp
    have r: "r = Inr fn \<longleftrightarrow> (\<exists>a p'. gives_hook env l (proc s) a p' \<and> fn = Hook_at a)" for fn
      using load_library_result [of env l s1 fn] load s1(2) by simp
    show ?thesis
    proof (cases r)
      case (Inl e)
      with r path load Some s1(1) s2 show ?thesis by (auto simp: init_hook_library_def eprintln_def)
    next
      case (Inr fn)
      with r [of fn] obtain a p' where a: "gives_hook env l (proc s) a p'" "fn = Hook_at a" by auto
      with Inr path load Some have "installed_hook (init_hook_library env s) = Hook_at a"
        by (simp add: init_hook_library_def eprintln_def)
      with a Some s1(1) show ?thesis by (auto dest: gives_hook_unique)
    qed
  qed
qed

lemma chosen_library_installed:
  "chosen_library env = Some lib \<Longrightarrow> gives_hook env lib (proc s) a p' \<Longrightarrow>
   installed_hook (init_hook_library env s) = Hook_at a"
  unfolding init_hook_library_hook by blast

text \<open>
  C19: the hook that is installed.  After the loading step the hook function is the one that the chosen
  library's \<open>zpoline\_hook\_init\<close> returned, if every step succeeded, and otherwise the one that was
  installed before, and no null pointer is ever installed.  The library
  of \<^verbatim>\<open>ZPOLINE_HOOK\<close> is chosen without asking whether it exists, the default one only if it does.
\<close>

theorem hook_library_installed:
  "(installed_hook (init_hook_library env s) = f \<longleftrightarrow>
     (\<exists>lib a p'. chosen_library env = Some lib \<and> gives_hook env lib (proc s) a p' \<and> f = Hook_at a) \<or>
     (\<nexists>lib a p'. chosen_library env = Some lib \<and> gives_hook env lib (proc s) a p') \<and> f = installed_hook s) \<and>
   fst (get_hook_library_path env s) = chosen_library env \<and>
   fst (load_hook_library env None s) = Inl LibraryNotSpecified \<and>
   fst (load_hook_library env (Some lib) s) \<noteq> Inr (Hook_at 0)"
proof -
  have "fst (load_hook_library env (Some lib) s) \<noteq> Inr (Hook_at 0)"
    by (auto simp: load_library_result gives_hook_def)
  moreover have "fst (load_hook_library env None s) = Inl LibraryNotSpecified"
    by (simp add: load_hook_library_def)
  ultimately show ?thesis using init_hook_library_hook [of env s f] library_path [of env s] by blast
qed

text \<open>A process whose \<^verbatim>\<open>ZPOLINE_HOOK\<close> names a library that gives the hook at \<open>0x7000\<close>.\<close>

definition hook_env_vars :: "('os, 'e) loader_env \<Rightarrow> ('os, 'e) loader_env" where
  "hook_env_vars env = env\<lparr>env_var := (\<lambda>v. if v = lit ''ZPOLINE_HOOK'' then Some (lit ''libtrace.so'') else None),
     dlmopen := (\<lambda>lib p. (1, p)), dlsym := (\<lambda>h sym. 0x100), call_init := (\<lambda>f p. (0x7000, p))\<rparr>"

lemma hook_env_vars_library:
  "chosen_library (hook_env_vars env) = Some (lit ''libtrace.so'')"
  "gives_hook (hook_env_vars env) (lit ''libtrace.so'') p 0x7000 p"
  by (simp_all add: chosen_library_def gives_hook_def hook_env_vars_def)

end
