(* ===== verification/HookContracts.thy ===== *)
theory HookContracts
  imports HookLibraries
begin

section \<open>The contracts of hooks\<close>

text \<open>
  Three interfaces, each with the code of the repository that provides it.  A \<open>stderr_printer\<close> makes
  system calls and comes back; a \<open>passthrough_hook\<close> is a hook function that makes the original call
  and returns the kernel's answer to it; a \<open>counting_object\<close> is an implementation of the trait
  that does so in the canonical form of the signature table and changes its state by a fixed
  \<open>effect\<close> of the number and the kernel's answer.
\<close>

subsection \<open>From the shape of the code to its runs\<close>

lemma yields_run:
  "yields R v c \<Longrightarrow> hook_run E c s = Value a s' \<Longrightarrow> R v a"
proof (induction arbitrary: s rule: yields.induct)
  case (yields_raw v k q)
  then show ?case by (cases "raw_call (kernel E) q s") auto
next
  case (yields_site v k q)
  then show ?case by (cases "nested_call E q s") auto
qed simp

lemma passes_run:
  "passes q R c \<Longrightarrow> hook_run E c s = Value a s' \<Longrightarrow> \<exists>v w w'. kernel E q w = (Some v, w') \<and> R v a"
proof (induction arbitrary: s rule: passes.induct)
  case (passes_call k)
  then obtain v s1 where v: "raw_call (kernel E) q s = Value v s1"
    by (cases "raw_call (kernel E) q s") auto
  with passes_call have "R v a" using yields_run [of R v "k v"] by simp
  moreover have "\<exists>w'. kernel E q (world s) = (Some v, w')"
    using v by (auto simp: raw_call_def split: prod.splits option.splits)
  ultimately show ?case by blast
next
  case (passes_raw k p)
  then show ?case by (cases "raw_call (kernel E) p s") auto
next
  case (passes_site k p)
  then show ?case by (cases "nested_call E p s") auto
qed

lemma diverges_run: "diverges c \<Longrightarrow> hook_run E c s \<noteq> Value a s'"
proof (induction c arbitrary: s)
  case (Raw q k)
  then show ?case by (cases "raw_call (kernel E) q s") auto
next
  case (Site q k)
  then show ?case by (cases "nested_call E q s") auto
qed simp_all

text \<open>A kernel that answers every call.\<close>

definition answering :: "'w kernel \<Rightarrow> bool" where
  "answering K \<longleftrightarrow> (\<forall>q w. fst (K q w) \<noteq> None)"

lemma raw_call_answers:
  assumes "answering K"
  shows "\<exists>v s'. raw_call K q s = Value v s'"
  using assms [unfolded answering_def, rule_format, of q "world s"]
  by (auto simp: raw_call_def split: prod.splits option.splits)

lemma nested_call_answers: "answering (kernel E) \<Longrightarrow> \<exists>v s'. nested_call E q s = Value v s'"
  unfolding nested_call_def by (rule raw_call_answers)

lemma yields_total:
  "yields R v c \<Longrightarrow> answering (kernel E) \<Longrightarrow> \<exists>a s'. hook_run E c s = Value a s'"
proof (induction arbitrary: s rule: yields.induct)
  case (yields_raw v k q)
  from raw_call_answers [OF yields_raw.prems, of q s] yields_raw show ?case by fastforce
next
  case (yields_site v k q)
  from nested_call_answers [OF yields_site.prems, of q s] yields_site show ?case by fastforce
qed simp

lemma passes_total:
  "passes q R c \<Longrightarrow> answering (kernel E) \<Longrightarrow> \<exists>a s'. hook_run E c s = Value a s'"
proof (induction arbitrary: s rule: passes.induct)
  case (passes_call k)
  obtain v s1 where "raw_call (kernel E) q s = Value v s1"
    using raw_call_answers [OF passes_call.prems] by blast
  moreover have "\<exists>a s'. hook_run E (k v) s1 = Value a s'"
    using passes_call by (intro yields_total [of R v]) simp_all
  ultimately show ?case by simp
next
  case (passes_raw k p)
  from raw_call_answers [OF passes_raw.prems, of p s] passes_raw show ?case by fastforce
next
  case (passes_site k p)
  from nested_call_answers [OF passes_site.prems, of p s] passes_site show ?case by fastforce
qed

lemma unrewritten_run:
  assumes "unrewritten c" "comes_back c" "answering K"
  shows "\<exists>v w. run_act (raw_call K) site c s = Value v (s\<lparr>world := w\<rparr>)"
  using assms(1,2)
proof (induction c arbitrary: s)
  case (Done a)
  then show ?case by (intro exI [of _ a] exI [of _ "world s"]) simp
next
  case (Raw q k)
  obtain v w where "raw_call K q s = Value v (s\<lparr>world := w\<rparr>)"
    using assms(3) [unfolded answering_def, rule_format, of q "world s"]
    by (cases "K q (world s)") (auto simp: raw_call_def)
  moreover obtain u w' where "run_act (raw_call K) site (k v) (s\<lparr>world := w\<rparr>) = Value u (s\<lparr>world := w\<rparr>\<lparr>world := w'\<rparr>)"
    using Raw by (metis comes_back.simps(2) rangeI unrewritten.simps(2))
  ultimately show ?case by auto
qed simp_all

subsection \<open>Hook functions\<close>

locale passthrough_hook =
  fixes hook :: hook_code
  assumes passes_through: "passes q (\<lambda>v (r, q'). r = v \<and> q' = q) (hook q)"
begin

lemma returns_answer:
  assumes "hook_run E (hook q) s = Value (v, q') s'"
  shows "q' = q \<and> (\<exists>w w'. kernel E q w = (Some v, w'))"
  using passes_run [OF passes_through assms] by auto

text \<open>Installed as the hook function, it answers every rewritten call with the kernel's answer.\<close>

lemma installed_returns_answer:
  assumes "hook_function s = Hook_at a" "code_of E a = hook" "\<not> in_hook s t" "answering (kernel E)"
  shows "\<exists>v s' w w'. hook_entry 2 E t q s = Value (v, q) s' \<and> kernel E q w = (Some v, w')"
proof -
  let ?s = "s\<lparr>hook_entry_call_count := hook_entry_call_count s + 1, in_hook := (in_hook s)(t := True)\<rparr>"
  obtain r s1 where run: "hook_run E (hook q) ?s = Value r s1"
    using passes_total [OF passes_through assms(4)] by blast
  obtain v q' where r: "r = (v, q')" by (cases r)
  have "guarded_hook E t q s = Value r s1"
    using run assms(1,2) by (simp add: guarded_hook_def call_hook_def)
  moreover have "q' = q \<and> (\<exists>w w'. kernel E q w = (Some v, w'))"
    using returns_answer run r by blast
  ultimately show ?thesis
    using r hook_entry_outer [OF assms(3), of 0 E q] by (auto simp: numeral_2_eq_2)
qed

end

interpretation default: passthrough_hook default_hook
  by unfold_locales (simp add: default_hook_def)

locale stderr_printer =
  fixes eprint :: printer
  assumes prints: "comes_back (eprint m)"

sublocale stderr_printer \<subseteq> impl: passthrough_hook "zpoline_hook_function eprint"
  by unfold_locales (simp add: zpoline_hook_function_def passes_after_calls prints)

sublocale stderr_printer \<subseteq> trace: passthrough_hook "trace_hook eprint"
  by unfold_locales (simp add: trace_hook_def passes_after_calls prints)

text \<open>The printer of a \<open>stderr\<close> that takes every message in one \<open>write\<close>, from a buffer at \<open>buf\<close>.\<close>

definition eprint_once :: "u64 \<Rightarrow> printer" where
  "eprint_once buf m = Site (syscall_regs_new 1 2 buf (of_nat (utf8_len m + 1)) 0 0 0) (\<lambda>_. Done ())"

interpretation once: stderr_printer "eprint_once buf"
  by unfold_locales (simp add: eprint_once_def)

subsection \<open>Implementations of the trait\<close>

text \<open>A sequence of rewritten system calls of one thread, with their results.\<close>

fun run_calls ::
  "'w hook_env \<Rightarrow> tid \<Rightarrow> syscall_regs list \<Rightarrow> ('s, 'w) hook_state \<Rightarrow> (i64 list, ('s, 'w) hook_state) run" where
  "run_calls E t [] s = Value [] s"
| "run_calls E t (q # qs) s =
     run_bind (site_call E t q s) (\<lambda>r s.
     run_bind (run_calls E t qs s) (\<lambda>rs. Value (r # rs)))"

text \<open>The state of an object after a sequence of calls with the kernel's answers.\<close>

definition effects :: "(u64 \<Rightarrow> i64 \<Rightarrow> 's \<Rightarrow> 's) \<Rightarrow> (syscall_regs \<times> i64) list \<Rightarrow> 's \<Rightarrow> 's" where
  "effects effect = fold (\<lambda>(q, v). effect (rax q) v)"

definition answers_match :: "syscall_regs list \<Rightarrow> i64 list \<Rightarrow> i64 list \<Rightarrow> bool" where
  "answers_match qs vs rs \<longleftrightarrow> length vs = length qs \<and> length rs = length qs \<and>
     (\<forall>i<length qs. canonical_ret (rax (qs ! i)) (vs ! i) = Some (rs ! i))"

lemma answers_match_Cons [simp]:
  "answers_match [] [] []"
  "answers_match (q # qs) (v # vs) (r # rs) \<longleftrightarrow>
     canonical_ret (rax q) v = Some r \<and> answers_match qs vs rs"
  by (auto simp: answers_match_def nth_Cons split: nat.splits)

lemma effects_simps [simp]:
  "effects effect [] self = self"
  "effects effect ((q, v) # rest) self = effects effect rest (effect (rax q) v self)"
  by (simp_all add: effects_def)

locale counting_object =
  fixes hooks :: "'s syscall_hooks" and effect :: "u64 \<Rightarrow> i64 \<Rightarrow> 's \<Rightarrow> 's"
  assumes dispatch_passes: "rax q \<noteq> 60 \<Longrightarrow> rax q \<noteq> 231 \<Longrightarrow> passes (canonical_regs q)
      (\<lambda>v (r, self'). canonical_ret (rax q) v = Some r \<and> self' = effect (rax q) v self)
      (dispatch_syscall_hooks hooks q self)"
    and exits_diverge: "rax q = 60 \<or> rax q = 231 \<Longrightarrow> diverges (dispatch_syscall_hooks hooks q self)"
begin

lemma dispatch_run:
  assumes "hook_run E (dispatch_syscall_hooks hooks q self) s = Value (r, self') s'"
  shows "\<exists>v w w'. kernel E (canonical_regs q) w = (Some v, w') \<and> canonical_ret (rax q) v = Some r \<and>
    self' = effect (rax q) v self"
proof -
  have "rax q \<noteq> 60" "rax q \<noteq> 231"
    using assms diverges_run [OF exits_diverge] by blast+
  from passes_run [OF dispatch_passes [OF this] assms] show ?thesis by auto
qed

text \<open>One rewritten call of a thread outside a hook, with the object registered.\<close>

lemma site_call_returns:
  assumes "trait_ready t s" "\<not> trait_poisoned s" "trait_object s = Some (hooks, self)"
    "answering (kernel E)" "rax q \<noteq> 60" "rax q \<noteq> 231"
  shows "\<exists>r s'. site_call E t q s = Value r s'"
proof -
  obtain a s1 where "hook_run E (dispatch_syscall_hooks hooks q self) (locked t s) = Value a s1"
    using passes_total [OF dispatch_passes [OF assms(5,6)] assms(4)] by blast
  then show ?thesis
    unfolding site_call_def entry_trait [OF assms(1-3)]
    by (cases a) (simp add: site_result_def)
qed

lemma site_call_effect:
  assumes "trait_ready t s" "\<not> trait_poisoned s" "trait_object s = Some (hooks, self)"
    "site_call E t q s = Value r s'"
  shows "trait_ready t s' \<and> \<not> trait_poisoned s' \<and>
    (\<exists>v w w'. kernel E (canonical_regs q) w = (Some v, w') \<and> canonical_ret (rax q) v = Some r \<and>
       trait_object s' = Some (hooks, effect (rax q) v self))"
proof -
  have run: "hook_entry 2 E t q s =
    run_bind (hook_run E (dispatch_syscall_hooks hooks q self) (locked t s))
      (\<lambda>(v, self') s'. Value (v, q) (s'\<lparr>trait_object := Some (hooks, self'), trait_lock := None,
         in_hook := (in_hook s')(t := False)\<rparr>))"
    by (rule entry_trait [OF assms(1-3)])
  obtain self' s1 where d: "hook_run E (dispatch_syscall_hooks hooks q self) (locked t s) = Value (r, self') s1"
    and s': "s' = s1\<lparr>trait_object := Some (hooks, self'), trait_lock := None,
         in_hook := (in_hook s1)(t := False)\<rparr>"
    using assms(4) unfolding site_call_def run
    by (cases "hook_run E (dispatch_syscall_hooks hooks q self) (locked t s)")
      (auto simp: site_result_def)
  have "quiet (locked t s) s1" using hook_run_settled [of "locked t s" E] d by (metis settled_simps(1))
  then have "hook_function s1 = hook_function s" "trait_poisoned s1 = trait_poisoned s"
    using quiet_fields [of "locked t s" s1] by (simp_all add: locked_def)
  then show ?thesis
    using dispatch_run [OF d] assms(1,2) s' by (auto simp: trait_ready_def)
qed

lemma run_calls_effect:
  assumes "trait_ready t s" "\<not> trait_poisoned s" "trait_object s = Some (hooks, self)"
    "run_calls E t qs s = Value rs s'"
  shows "trait_ready t s' \<and> \<not> trait_poisoned s' \<and>
    (\<exists>vs. answers_match qs vs rs \<and> trait_object s' = Some (hooks, effects effect (zip qs vs) self))"
  using assms
proof (induction qs arbitrary: s self rs)
  case Nil
  then show ?case by (auto intro!: exI [of _ "[]"])
next
  case (Cons q qs)
  obtain r s1 where r: "site_call E t q s = Value r s1"
    using Cons.prems(4) by (cases "site_call E t q s") auto
  obtain rs1 where rs: "run_calls E t qs s1 = Value rs1 s'" "rs = r # rs1"
    using Cons.prems(4) r by (cases "run_calls E t qs s1") auto
  obtain v where s1: "trait_ready t s1" "\<not> trait_poisoned s1"
    "canonical_ret (rax q) v = Some r" "trait_object s1 = Some (hooks, effect (rax q) v self)"
    using site_call_effect [OF Cons.prems(1-3) r] by blast
  obtain vs where vs: "trait_ready t s'" "\<not> trait_poisoned s'" "answers_match qs vs rs1"
    "trait_object s' = Some (hooks, effects effect (zip qs vs) (effect (rax q) v self))"
    using Cons.IH [OF s1(1,2,4) rs(1)] by blast
  with s1(3) rs(2) show ?case by (intro conjI exI [of _ "v # vs"]) simp_all
qed

lemma run_calls_returns:
  assumes "trait_ready t s" "\<not> trait_poisoned s" "trait_object s = Some (hooks, self)"
    "answering (kernel E)" "list_all (\<lambda>q. rax q \<noteq> 60 \<and> rax q \<noteq> 231) qs"
  shows "\<exists>rs s'. run_calls E t qs s = Value rs s'"
  using assms
proof (induction qs arbitrary: s self)
  case (Cons q qs)
  obtain r s1 where r: "site_call E t q s = Value r s1"
    using site_call_returns [OF Cons.prems(1-4), of q] Cons.prems(5) by auto
  with site_call_effect [OF Cons.prems(1-3) r] Cons show ?case by fastforce
qed simp

end

text \<open>The provided methods themselves.\<close>

lemma canonical_ret_exit: "canonical_ret nr v = None \<Longrightarrow> nr = 60 \<or> nr = 231"
  by (auto simp: canonical_ret_def signature_def split: if_splits)

lemma default_dispatch_passes:
  assumes "rax q \<noteq> 60" "rax q \<noteq> 231"
  shows "passes (canonical_regs q) (\<lambda>v (r, self'). canonical_ret (rax q) v = Some r \<and> self' = self)
    (dispatch_syscall_hooks default_hooks q self)"
  using assms canonical_ret_exit by (auto simp: dispatch_canonical split: option.splits)

lemma default_dispatch_diverges:
  assumes "rax q = 60 \<or> rax q = 231"
  shows "diverges (dispatch_syscall_hooks default_hooks q self)"
  using assms by (auto simp: dispatch_canonical canonical_ret_def signature_def)

interpretation default_object: counting_object default_hooks "\<lambda>nr v self. self"
  by unfold_locales (simp_all add: default_dispatch_passes default_dispatch_diverges)

text \<open>An implementation that overrides \<open>read\<close>, \<open>write\<close>, \<open>open\<close> and \<open>getpid\<close> only.\<close>

lemma dispatch_overrides:
  fixes h :: "'s syscall_hooks"
  assumes "h = default_hooks\<lparr>hook_write := w, hook_read := r, hook_open := opn, hook_getpid := g\<rparr>"
  shows "dispatch_syscall_hooks h q self =
    (if rax q = 0 then r (u64_as_i32 (rdi q)) (rsi q) (rdx q) self
     else if rax q = 1 then w (u64_as_i32 (rdi q)) (rsi q) (rdx q) self
     else if rax q = 2 then as_i64 (opn (rdi q) (u64_as_i32 (rsi q)) (u64_as_i32 (rdx q)) self)
     else if rax q = 39 then as_i64 (g self)
     else dispatch_syscall_hooks default_hooks q self)"
  unfolding assms by (simp add: dispatch_syscall_hooks_def)

abbreviation answer_rel :: "(u64 \<Rightarrow> i64 \<Rightarrow> 's \<Rightarrow> 's) \<Rightarrow> syscall_regs \<Rightarrow> 's \<Rightarrow> i64 \<Rightarrow> i64 \<times> 's \<Rightarrow> bool" where
  "answer_rel effect q self \<equiv>
     \<lambda>v (r, self'). canonical_ret (rax q) v = Some r \<and> self' = effect (rax q) v self"

lemma overriding_object:
  fixes h :: "'s syscall_hooks"
  assumes h: "h = default_hooks\<lparr>hook_write := w, hook_read := r, hook_open := opn, hook_getpid := g\<rparr>"
    and "\<And>q self. rax q = 0 \<Longrightarrow> passes (canonical_regs q) (answer_rel effect q self)
        (r (u64_as_i32 (rdi q)) (rsi q) (rdx q) self)"
    and "\<And>q self. rax q = 1 \<Longrightarrow> passes (canonical_regs q) (answer_rel effect q self)
        (w (u64_as_i32 (rdi q)) (rsi q) (rdx q) self)"
    and "\<And>q self. rax q = 2 \<Longrightarrow> passes (canonical_regs q) (answer_rel effect q self)
        (as_i64 (opn (rdi q) (u64_as_i32 (rsi q)) (u64_as_i32 (rdx q)) self))"
    and "\<And>q self. rax q = 39 \<Longrightarrow> passes (canonical_regs q) (answer_rel effect q self) (as_i64 (g self))"
    and other: "\<And>nr v self. nr \<notin> {0, 1, 2, 39} \<Longrightarrow> effect nr v self = self"
  shows "counting_object h effect"
proof
  fix q self
  note ov = dispatch_overrides [OF h, of q self]
  show "diverges (dispatch_syscall_hooks h q self)" if "rax q = 60 \<or> rax q = 231"
    unfolding ov using that by (auto simp: default_dispatch_diverges)
  show "passes (canonical_regs q) (answer_rel effect q self) (dispatch_syscall_hooks h q self)"
    if "rax q \<noteq> 60" "rax q \<noteq> 231"
  proof (cases "rax q \<in> {0, 1, 2, 39}")
    case True
    then show ?thesis unfolding ov using assms(2-5) by auto
  next
    case False
    with default_dispatch_passes [OF that, of self] other [OF False] show ?thesis
      unfolding ov by simp
  qed
qed

definition stats_effect :: "u64 \<Rightarrow> i64 \<Rightarrow> stats_counters \<Rightarrow> stats_counters" where
  "stats_effect nr v c =
     (if nr = 0 then c\<lparr>READ_COUNT := READ_COUNT c + 1\<rparr>
      else if nr = 1 then c\<lparr>WRITE_COUNT := WRITE_COUNT c + 1\<rparr>
      else if nr = 2 then c\<lparr>OPEN_COUNT := OPEN_COUNT c + 1\<rparr>
      else if nr = 39 then c\<lparr>GETPID_COUNT := GETPID_COUNT c + 1\<rparr> else c)"

definition logging_effect :: "u64 \<Rightarrow> i64 \<Rightarrow> logging_counters \<Rightarrow> logging_counters" where
  "logging_effect nr v c =
     (if nr = 0 then c\<lparr>log_read_count := log_read_count c + 1\<rparr>
      else if nr = 1 then c\<lparr>log_write_count := log_write_count c + 1\<rparr>
      else if nr = 2 then c\<lparr>log_open_count := log_open_count c + 1\<rparr>
      else if nr = 39 then c\<lparr>log_getpid_count := log_getpid_count c + 1\<rparr> else c)"

text \<open>\<open>StatisticsHook\<close> counts the bytes of successful reads and writes, and no \<open>getpid\<close>.\<close>

definition statistics_effect :: "u64 \<Rightarrow> i64 \<Rightarrow> statistics_hook_state \<Rightarrow> statistics_hook_state" where
  "statistics_effect nr v c =
     (if nr = 0 then c\<lparr>read_count := read_count c + 1,
        total_bytes_read := total_bytes_read c + (if 0 < sint v then v else 0)\<rparr>
      else if nr = 1 then c\<lparr>write_count := write_count c + 1,
        total_bytes_written := total_bytes_written c + (if 0 < sint v then v else 0)\<rparr>
      else if nr = 2 then c\<lparr>open_count := open_count c + 1\<rparr> else c)"

lemmas override_simps = as_i64_def default_method_defs canonical_defs passes_after_calls
  yields_after_calls

lemma stats_log_prints: "(\<And>m. comes_back (eprint m)) \<Longrightarrow> comes_back (stats_log eprint name fd count n)"
  by (simp add: stats_log_def)

lemmas stats_simps = stats_hook_read_def stats_hook_write_def stats_hook_open_def
  stats_hook_getpid_def stats_effect_def Let_def

lemmas logging_simps = logging_hook_read_def logging_hook_write_def logging_hook_open_def
  logging_hook_getpid_def logging_effect_def Let_def

lemmas statistics_simps = statistics_hook_read_def statistics_hook_write_def
  statistics_hook_open_def statistics_hook_getpid_def statistics_effect_def Let_def

sublocale stderr_printer \<subseteq> stats: counting_object "stats_hook eprint" stats_effect
  by (rule overriding_object [OF stats_hook_def])
    (simp_all add: stats_simps override_simps stats_log_prints prints)

interpretation logging: counting_object logging_hook logging_effect
  by (rule overriding_object [OF logging_hook_def]) (simp_all add: logging_simps override_simps)

sublocale stderr_printer \<subseteq> statistics: counting_object "statistics_hook eprint c_str" statistics_effect for c_str
  by (rule overriding_object [OF statistics_hook_def])
    (simp_all add: statistics_simps override_simps prints)

text \<open>The facts the properties use.\<close>

context stderr_printer
begin

lemmas impl_answers = impl.installed_returns_answer

lemmas trace_answers = trace.installed_returns_answer

lemmas stats_object = stats.counting_object_axioms

lemmas stats_run = stats.run_calls_returns stats.run_calls_effect

lemmas statistics_run = statistics.run_calls_returns statistics.run_calls_effect

end

end
