(* ===== verification/HookConcurrency.thy ===== *)
theory HookConcurrency
  imports HookContracts "HOL-Library.Multiset"
begin

section \<open>Threads in the hook API\<close>

text \<open>
  \<open>HookApi\<close> runs \<open>hook_entry\<close> of one thread to its end.  Here the functions of
  \<open>zpoline\_hook\_api/src/lib.rs\<close> are cut into the atomic steps that other threads may see: each access
  to an atomic, each acquisition and release of the mutex, each system call.  A thread is a program
  that makes rewritten and raw system calls and may register hook objects; what it is doing inside the
  API is its control state.  The theory holds the steps of one thread, the proof that \<open>HookApi\<close>'s runs
  are the uninterrupted ones, and the system of interleaved threads.
\<close>

subsection \<open>Programs\<close>

text \<open>
  \<open>Call\<close> is a system call at a rewritten site, \<open>Bypass\<close> one by \<open>raw_syscall_bypass\<close>.  \<open>Acquire\<close>,
  \<open>Assign\<close>, \<open>Release\<close> and \<open>Install\<close> are the steps of \<open>register_syscall_hooks\<close>; the program after
  \<open>Acquire\<close> depends on whether there is a previous object, which the assignment drops.
\<close>

datatype 's prog =
    Finished
  | Misbehaved
  | Call syscall_regs "i64 \<Rightarrow> 's prog"
  | Bypass syscall_regs "i64 \<Rightarrow> 's prog"
  | Acquire "bool \<Rightarrow> 's prog"
  | Assign "'s syscall_hooks" 's "'s prog"
  | Release "'s prog"
  | Install hook_fn "'s prog"

primrec code_then :: "'a act \<Rightarrow> ('a \<Rightarrow> 's prog) \<Rightarrow> 's prog" where
  "code_then (Done a) p = p a"
| "code_then (Raw q k) p = Bypass q (\<lambda>v. code_then (k v) p)"
| "code_then (Site q k) p = Call q (\<lambda>v. code_then (k v) p)"
| "code_then Unreachable p = Misbehaved"

definition register_prog ::
  "unit act \<Rightarrow> unit act \<Rightarrow> 's syscall_hooks \<Rightarrow> 's \<Rightarrow> 's prog \<Rightarrow> 's prog" where
  "register_prog alloc dealloc h self p =
     Acquire (\<lambda>previous. code_then alloc (\<lambda>_.
       code_then (if previous then dealloc else Done ()) (\<lambda>_.
       Assign h self (Release (Install Trait_based_hook p)))))"

text \<open>The guard of the mutex is a Rust value: a program releases what it acquired, once.\<close>

primrec bracketed :: "bool \<Rightarrow> 's prog \<Rightarrow> bool" where
  "bracketed b Finished \<longleftrightarrow> \<not> b"
| "bracketed b Misbehaved \<longleftrightarrow> True"
| "bracketed b (Call q k) \<longleftrightarrow> (\<forall>v. bracketed b (k v))"
| "bracketed b (Bypass q k) \<longleftrightarrow> (\<forall>v. bracketed b (k v))"
| "bracketed b (Acquire k) \<longleftrightarrow> \<not> b \<and> (\<forall>previous. bracketed True (k previous))"
| "bracketed b (Assign h self p) \<longleftrightarrow> b \<and> bracketed b p"
| "bracketed b (Release p) \<longleftrightarrow> b \<and> bracketed False p"
| "bracketed b (Install fn p) \<longleftrightarrow> bracketed b p"

lemma code_then_bracketed: "(\<And>a. bracketed b (p a)) \<Longrightarrow> bracketed b (code_then c p)"
  by (induction c) simp_all

lemma register_bracketed: "bracketed False p \<Longrightarrow> bracketed False (register_prog alloc dealloc h self p)"
  by (simp add: register_prog_def code_then_bracketed)

subsection \<open>The control state of a thread\<close>

text \<open>
  Who called \<open>hook_entry\<close>, and what it goes on with: the program, or hook code that made a rewritten
  call of its own (in a hook function, or in the trait hook) with the frame of the \<open>hook_entry\<close> that
  runs it.  A nested call passes through \<open>hook_entry\<close> as any other; only the guard ends it there.
\<close>

datatype 's caller =
    From_program "i64 \<Rightarrow> 's prog"
  | From_code syscall_regs "'s caller" "i64 \<Rightarrow> (i64 \<times> syscall_regs) act"
  | From_trait syscall_regs "'s caller" "i64 \<Rightarrow> (i64 \<times> ('s syscall_hooks \<times> 's) option) act"

text \<open>The activations of \<open>hook_entry\<close> below a caller, and whether it runs inside the trait hook.\<close>

primrec depth :: "'s caller \<Rightarrow> nat" where
  "depth (From_program k) = 0"
| "depth (From_code q fr c) = Suc (depth fr)"
| "depth (From_trait q fr c) = Suc (depth fr)"

primrec in_trait_hook :: "'s caller \<Rightarrow> bool" where
  "in_trait_hook (From_program k) = False"
| "in_trait_hook (From_code q fr c) = in_trait_hook fr"
| "in_trait_hook (From_trait q fr c) = True"

lemma depth_0 [simp]: "depth fr = 0 \<longleftrightarrow> (\<exists>k. fr = From_program k)"
  by (cases fr) auto

text \<open>
  \<open>Entered\<close>: \<open>hook_entry\<close> has counted the call; \<open>Guarded\<close>: the guard is set; \<open>In_code\<close>: a hook
  function other than the trait hook runs, with the code still to come; \<open>Trait_called\<close>, \<open>Locking\<close>,
  \<open>In_trait\<close>: before the counter of the trait hook, before the mutex, and with the mutex held;
  \<open>Returned\<close>: the hook function has returned; \<open>Gone\<close>: the kernel has ended the thread, with the guard
  set or not, and inside the trait hook or not.
\<close>

datatype 's control =
    Program "'s prog"
  | Entered syscall_regs "'s caller"
  | Guarded syscall_regs "'s caller"
  | In_code syscall_regs "'s caller" "(i64 \<times> syscall_regs) act"
  | Trait_called syscall_regs "'s caller"
  | Locking syscall_regs "'s caller"
  | In_trait syscall_regs "'s caller" "(i64 \<times> ('s syscall_hooks \<times> 's) option) act"
  | Returned syscall_regs "'s caller" i64
  | Gone bool bool
  | Panicked

text \<open>Where the thread goes on when the call returns \<open>v\<close>.\<close>

primrec resume :: "'s caller \<Rightarrow> i64 \<Rightarrow> 's control" where
  "resume (From_program k) v = Program (k v)"
| "resume (From_code q fr c) v = In_code q fr (c v)"
| "resume (From_trait q fr c) v = In_trait q fr (c v)"

text \<open>A thread's flag says that its program holds the mutex (inside \<open>register_syscall_hooks\<close>).\<close>

type_synonym 's thread = "bool \<times> 's control"

fun guarded_control :: "'s control \<Rightarrow> bool" where
  "guarded_control (Program p) = False"
| "guarded_control (Entered q fr) = (depth fr \<noteq> 0)"
| "guarded_control (Gone g h) = g"
| "guarded_control Panicked = False"
| "guarded_control c = True"

fun holds :: "'s thread \<Rightarrow> bool" where
  "holds (b, Entered q fr) = (b \<or> in_trait_hook fr)"
| "holds (b, Guarded q fr) = (b \<or> in_trait_hook fr)"
| "holds (b, In_code q fr c) = (b \<or> in_trait_hook fr)"
| "holds (b, Trait_called q fr) = (b \<or> in_trait_hook fr)"
| "holds (b, Locking q fr) = (b \<or> in_trait_hook fr)"
| "holds (b, In_trait q fr c) = True"
| "holds (b, Returned q fr v) = (b \<or> in_trait_hook fr)"
| "holds (b, Gone g h) = (b \<or> h)"
| "holds (b, c) = b"

subsection \<open>The steps of one thread\<close>

text \<open>A system call by the kernel: the thread goes on with the answer, or is gone.\<close>

definition kernel_step ::
  "'w hook_env \<Rightarrow> syscall_regs \<Rightarrow> 's thread \<Rightarrow> (i64 \<Rightarrow> 's thread) \<Rightarrow> ('s, 'w) hook_state \<Rightarrow>
   ('s thread \<times> ('s, 'w) hook_state) option" where
  "kernel_step E q gone f s = (case kernel E q (world s) of
       (None, w) \<Rightarrow> Some (gone, s\<lparr>world := w\<rparr>)
     | (Some v, w) \<Rightarrow> Some (f v, s\<lparr>world := w\<rparr>))"

text \<open>The code that the trait hook runs once it has the mutex.\<close>

definition trait_code ::
  "syscall_regs \<Rightarrow> ('s, 'w) hook_state \<Rightarrow> (i64 \<times> ('s syscall_hooks \<times> 's) option) act" where
  "trait_code q s =
     (if trait_poisoned s then Raw q (\<lambda>v. Done (v, trait_object s))
      else (case trait_object s of
          Some (h, self) \<Rightarrow>
            act_bind (dispatch_syscall_hooks h q self) (\<lambda>(v, self). Done (v, Some (h, self)))
        | None \<Rightarrow> Raw q (\<lambda>v. Done (v, None))))"

fun program_step ::
  "'w hook_env \<Rightarrow> tid \<Rightarrow> bool \<Rightarrow> 's prog \<Rightarrow> ('s, 'w) hook_state \<Rightarrow> ('s thread \<times> ('s, 'w) hook_state) option" where
  "program_step E t b Finished s = None"
| "program_step E t b Misbehaved s = None"
| "program_step E t b (Call q k) s = Some ((b, Entered q (From_program k)), counted s)"
| "program_step E t b (Bypass q k) s = kernel_step E q (b, Gone False False) (\<lambda>v. (b, Program (k v))) s"
| "program_step E t b (Acquire k) s =
     (if trait_lock s \<noteq> None then None
      else if trait_poisoned s then Some ((b, Panicked), s)
      else Some ((True, Program (k (trait_object s \<noteq> None))), s\<lparr>trait_lock := Some t\<rparr>))"
| "program_step E t b (Assign h self p) s = Some ((b, Program p), s\<lparr>trait_object := Some (h, self)\<rparr>)"
| "program_step E t b (Release p) s = Some ((False, Program p), s\<lparr>trait_lock := None\<rparr>)"
| "program_step E t b (Install fn p) s = Some ((b, Program p), hook_init fn s)"

fun control_step ::
  "'w hook_env \<Rightarrow> tid \<Rightarrow> 's thread \<Rightarrow> ('s, 'w) hook_state \<Rightarrow> ('s thread \<times> ('s, 'w) hook_state) option" where
  "control_step E t (b, Program p) s = program_step E t b p s"
| "control_step E t (b, Entered q fr) s =
     (if in_hook s t
      then kernel_step E q (b, Gone True (in_trait_hook fr)) (\<lambda>v. (b, resume fr v)) s
      else Some ((b, Guarded q fr), s\<lparr>in_hook := (in_hook s)(t := True)\<rparr>))"
| "control_step E t (b, Guarded q fr) s =
     (case get_hook_fn s of
        Default_hook \<Rightarrow> Some ((b, In_code q fr (default_hook q)), s)
      | Trait_based_hook \<Rightarrow> Some ((b, Trait_called q fr), s)
      | Hook_at a \<Rightarrow> Some ((b, In_code q fr (code_of E a q)), s))"
| "control_step E t (b, In_code q fr (Done (v, q'))) s = Some ((b, Returned q fr v), s)"
| "control_step E t (b, In_code q fr (Raw p c)) s =
     kernel_step E p (b, Gone True (in_trait_hook fr)) (\<lambda>v. (b, In_code q fr (c v))) s"
| "control_step E t (b, In_code q fr (Site p c)) s =
     Some ((b, Entered p (From_code q fr c)), counted s)"
| "control_step E t (b, In_code q fr Unreachable) s = None"
| "control_step E t (b, Trait_called q fr) s =
     Some ((b, Locking q fr), s\<lparr>trait_hook_call_count := trait_hook_call_count s + 1\<rparr>)"
| "control_step E t (b, Locking q fr) s =
     (if trait_lock s \<noteq> None then None
      else Some ((b, In_trait q fr (trait_code q s)), s\<lparr>trait_lock := Some t\<rparr>))"
| "control_step E t (b, In_trait q fr (Done (v, obj))) s =
     Some ((b, Returned q fr v), s\<lparr>trait_object := obj, trait_lock := None\<rparr>)"
| "control_step E t (b, In_trait q fr (Raw p c)) s =
     kernel_step E p (b, Gone True True) (\<lambda>v. (b, In_trait q fr (c v))) s"
| "control_step E t (b, In_trait q fr (Site p c)) s =
     Some ((b, Entered p (From_trait q fr c)), counted s)"
| "control_step E t (b, In_trait q fr Unreachable) s = None"
| "control_step E t (b, Returned q fr v) s =
     Some ((b, resume fr v), s\<lparr>in_hook := (in_hook s)(t := False)\<rparr>)"
| "control_step E t (b, Gone g h) s = None"
| "control_step E t (b, Panicked) s = None"

subsection \<open>Uninterrupted runs are the runs of \<open>HookApi\<close>\<close>

inductive thread_run ::
  "'w hook_env \<Rightarrow> tid \<Rightarrow> 's thread \<times> ('s, 'w) hook_state \<Rightarrow> 's thread \<times> ('s, 'w) hook_state \<Rightarrow> bool"
  for E t where
  thread_refl [intro]: "thread_run E t x x"
| thread_step: "control_step E t c s = Some x \<Longrightarrow> thread_run E t x y \<Longrightarrow> thread_run E t (c, s) y"

lemma thread_run_trans [trans]:
  "thread_run E t x y \<Longrightarrow> thread_run E t y z \<Longrightarrow> thread_run E t x z"
  by (induction rule: thread_run.induct) (auto intro: thread_step)

lemmas one_step = thread_step [OF _ thread_refl]

lemma thread_snoc:
  "thread_run E t x (c, s) \<Longrightarrow> control_step E t c s = Some y \<Longrightarrow> thread_run E t x y"
  by (blast intro: thread_run_trans one_step)

lemma step_then:
  "control_step E t c s = Some y \<Longrightarrow> \<exists>x. thread_run E t y x \<and> P x \<Longrightarrow>
   \<exists>x. thread_run E t (c, s) x \<and> P x"
  by (blast intro: thread_step)

text \<open>How a thread stands after code that ended as \<open>r\<close>: \<open>f\<close> of its value, gone, or stuck.\<close>

fun ends_as ::
  "('a, ('s, 'w) hook_state) run \<Rightarrow> ('a \<Rightarrow> 's thread) \<Rightarrow> 's thread \<Rightarrow> 's thread \<Rightarrow>
   's thread \<times> ('s, 'w) hook_state \<Rightarrow> bool" where
  "ends_as (Value a s) f gone stuck x \<longleftrightarrow> x = (f a, s)"
| "ends_as (No_return s) f gone stuck x \<longleftrightarrow> x = (gone, s)"
| "ends_as (Undefined s) f gone stuck x \<longleftrightarrow> x = (stuck, s)"
| "ends_as r f gone stuck x \<longleftrightarrow> False"

lemma kernel_step_cases:
  "kernel_step E q gone f s = (case raw_call (kernel E) q s of
     Value v s' \<Rightarrow> Some (f v, s') | No_return s' \<Rightarrow> Some (gone, s') | _ \<Rightarrow> None)"
  by (auto simp: kernel_step_def raw_call_def split: prod.splits option.splits)

text \<open>
  The two places where a thread runs hook code, with the mutex and without, have the same steps for
  the two kinds of system call.  A rewritten one enters \<open>hook_entry\<close> again, where the guard, which is
  set while hook code runs, sends it to the kernel.
\<close>

lemma nested_call_quiet: "nested_call E p s = Value v s' \<Longrightarrow> in_hook s' = in_hook s"
  by (auto simp: nested_call_def raw_call_def split: prod.splits option.splits)

lemma raw_call_quiet: "raw_call K p s = Value v s' \<Longrightarrow> in_hook s' = in_hook s"
  by (auto simp: raw_call_def split: prod.splits option.splits)

locale code_frame =
  fixes E :: "'w hook_env" and frame :: "'a act \<Rightarrow> 's control" and gone :: "'s control"
    and nest :: "(i64 \<Rightarrow> 'a act) \<Rightarrow> 's caller"
  assumes frame_raw: "control_step E t (b, frame (Raw p c)) s =
      kernel_step E p (b, gone) (\<lambda>v. (b, frame (c v))) s"
    and frame_site: "control_step E t (b, frame (Site p c)) s = Some ((b, Entered p (nest c)), counted s)"
    and frame_entered: "in_hook s t \<Longrightarrow> control_step E t (b, Entered p (nest c)) s =
      kernel_step E p (b, gone) (\<lambda>v. (b, frame (c v))) s"
begin

text \<open>A nested call is two steps: into \<open>hook_entry\<close>, and from there to the kernel and back.\<close>

lemma nested_run:
  assumes "in_hook s t"
    and "kernel_step E p (b, gone) (\<lambda>v. (b, frame (c v))) (counted s) = Some y"
  shows "thread_run E t ((b, frame (Site p c)), s) y"
proof (rule thread_step [OF frame_site one_step])
  from assms(1) have "in_hook (counted s) t" by (simp add: counted_def)
  then show "control_step E t (b, Entered p (nest c)) (counted s) = Some y"
    using assms(2) by (simp only: frame_entered)
qed

lemma frame_run:
  assumes "in_hook s t"
  shows "\<exists>x. thread_run E t ((b, frame c), s) x \<and>
     ends_as (hook_run E c s) (\<lambda>a. (b, frame (Done a))) (b, gone) (b, frame Unreachable) x"
  using assms
proof (induction c arbitrary: s)
  case (Raw p c)
  show ?case
  proof (cases "raw_call (kernel E) p s")
    case (Value v s1)
    with Raw.prems have "in_hook s1 t" by (simp add: raw_call_quiet)
    with Value Raw.IH [OF rangeI, of s1 v] obtain x where
      "thread_run E t ((b, frame (c v)), s1) x"
      "ends_as (hook_run E (Raw p c) s) (\<lambda>a. (b, frame (Done a))) (b, gone) (b, frame Unreachable) x"
      by auto
    moreover have "control_step E t (b, frame (Raw p c)) s = Some ((b, frame (c v)), s1)"
      using Value by (simp add: frame_raw kernel_step_cases)
    ultimately show ?thesis by (blast intro: thread_step)
  next
    case (No_return s1)
    then have "control_step E t (b, frame (Raw p c)) s = Some ((b, gone), s1)"
      by (simp add: frame_raw kernel_step_cases)
    with No_return show ?thesis by (auto intro: one_step)
  qed (auto simp: nested_call_def raw_call_def split: prod.splits option.splits)
next
  case (Site p c)
  note nested = nested_run [OF Site.prems]
  show ?case
  proof (cases "nested_call E p s")
    case (Value v s1)
    with Site.prems have "in_hook s1 t" by (simp add: nested_call_quiet)
    with Value Site.IH [OF rangeI, of s1 v] obtain x where
      "thread_run E t ((b, frame (c v)), s1) x"
      "ends_as (hook_run E (Site p c) s) (\<lambda>a. (b, frame (Done a))) (b, gone) (b, frame Unreachable) x"
      by auto
    moreover have "thread_run E t ((b, frame (Site p c)), s) ((b, frame (c v)), s1)"
      using Value by (intro nested) (simp add: kernel_step_cases nested_call_def counted_def)
    ultimately show ?thesis by (blast intro: thread_run_trans)
  next
    case (No_return s1)
    then have "thread_run E t ((b, frame (Site p c)), s) ((b, gone), s1)"
      by (intro nested) (simp add: kernel_step_cases nested_call_def counted_def)
    with No_return show ?thesis by auto
  qed (auto simp: nested_call_def raw_call_def split: prod.splits option.splits)
qed auto

end

interpretation in_code: code_frame E "In_code q (From_program k)" "Gone True False"
    "From_code q (From_program k)"
  by unfold_locales (simp_all)

interpretation in_trait: code_frame E "In_trait q (From_program k)" "Gone True True"
    "From_trait q (From_program k)"
  by unfold_locales (simp_all)

lemma hook_run_bind:
  "hook_run E (act_bind c f) s = run_bind (hook_run E c s) (\<lambda>a. hook_run E (f a))"
proof (induction c arbitrary: s)
  case (Raw p k)
  then show ?case by (cases "raw_call (kernel E) p s") auto
next
  case (Site p k)
  then show ?case by (cases "nested_call E p s") auto
qed simp_all

text \<open>What the trait hook runs under the mutex, in both models.\<close>

lemma trait_based_hook_code:
  fixes s :: "('s, 'w) hook_state"
  defines "s1 \<equiv> s\<lparr>trait_hook_call_count := trait_hook_call_count s + 1\<rparr>"
  assumes "trait_lock s = None"
  shows "trait_based_hook (kernel E) (nested_call E) t q s =
    run_bind (hook_run E (trait_code q s1) (s1\<lparr>trait_lock := Some t\<rparr>))
      (\<lambda>(v, obj) s. Value (v, q) (s\<lparr>trait_object := obj, trait_lock := None\<rparr>))"
proof (cases "trait_poisoned s \<or> trait_object s = None")
  case True
  then show ?thesis
    using assms by (auto simp: trait_based_hook_def trait_code_def raw_call_def Let_def
        split: prod.splits option.splits)
next
  case False
  then obtain h self where obj: "trait_object s = Some (h, self)" "\<not> trait_poisoned s" by auto
  let ?s = "s1\<lparr>trait_lock := Some t\<rparr>"
  show ?thesis
    using assms obj
    by (cases "hook_run E (dispatch_syscall_hooks h q self) ?s")
      (auto simp: trait_based_hook_def trait_code_def Let_def hook_run_bind split: prod.splits)
qed

text \<open>
  How a thread that made a rewritten call stands when \<open>hook_entry\<close> has ended as \<open>r\<close>: at \<open>f v\<close> with its
  result, gone, before the mutex that is held, or at \<open>unreachable_unchecked\<close>.
\<close>

fun after_call ::
  "bool \<Rightarrow> syscall_regs \<Rightarrow> (i64 \<Rightarrow> 's prog) \<Rightarrow> (i64 \<Rightarrow> 's control) \<Rightarrow>
   (i64 \<times> syscall_regs, ('s, 'w) hook_state) run \<Rightarrow> 's thread \<times> ('s, 'w) hook_state \<Rightarrow> bool" where
  "after_call b q k f (Value (v, q') s) x \<longleftrightarrow> x = ((b, f v), s)"
| "after_call b q k f (No_return s) x \<longleftrightarrow> (\<exists>h. x = ((b, Gone True h), s))"
| "after_call b q k f (Blocked s) x \<longleftrightarrow> x = ((b, Locking q (From_program k)), s) \<and> trait_lock s \<noteq> None"
| "after_call b q k f (Undefined s) x \<longleftrightarrow>
     x = ((b, In_code q (From_program k) Unreachable), s) \<or> x = ((b, In_trait q (From_program k) Unreachable), s)"
| "after_call b q k f (Panic s) x \<longleftrightarrow> False"
| "after_call b q k f Out_of_fuel x \<longleftrightarrow> False"

lemma code_hook_run:
  assumes "in_hook s t"
  shows "\<exists>x. thread_run E t ((b, In_code q (From_program k) c), s) x \<and>
    after_call b q k (Returned q (From_program k)) (hook_run E c s) x"
proof -
  obtain x where x: "thread_run E t ((b, In_code q (From_program k) c), s) x"
    "ends_as (hook_run E c s) (\<lambda>a. (b, In_code q (From_program k) (Done a))) (b, Gone True False)
       (b, In_code q (From_program k) Unreachable) x"
    using in_code.frame_run [OF assms] by blast
  show ?thesis
  proof (cases "hook_run E c s")
    case (Value r s1)
    moreover obtain v q' where "r = (v, q')" by (cases r)
    ultimately have "thread_run E t ((b, In_code q (From_program k) c), s) ((b, In_code q (From_program k) (Done (v, q'))), s1)"
      using x by simp
    then have "thread_run E t ((b, In_code q (From_program k) c), s) ((b, Returned q (From_program k) v), s1)"
      by (rule thread_snoc) simp
    with Value \<open>r = (v, q')\<close> show ?thesis by auto
  qed (use x in auto)
qed

lemma trait_hook_run:
  assumes "in_hook s t"
  shows "\<exists>x. thread_run E t ((b, Trait_called q (From_program k)), s) x \<and>
     after_call b q k (Returned q (From_program k)) (trait_based_hook (kernel E) (nested_call E) t q s) x"
proof -
  let ?s = "s\<lparr>trait_hook_call_count := trait_hook_call_count s + 1\<rparr>"
  let ?c = "trait_code q ?s" and ?l = "?s\<lparr>trait_lock := Some t\<rparr>"
  have to_lock: "thread_run E t ((b, Trait_called q (From_program k)), s) ((b, Locking q (From_program k)), ?s)"
    by (rule one_step) simp
  show ?thesis
  proof (cases "trait_lock s = None")
    case False
    with to_lock show ?thesis by (auto simp: trait_based_hook_def Let_def)
  next
    case True
    then have "control_step E t (b, Locking q (From_program k)) ?s = Some ((b, In_trait q (From_program k) ?c), ?l)" by simp
    with to_lock have to_trait: "thread_run E t ((b, Trait_called q (From_program k)), s) ((b, In_trait q (From_program k) ?c), ?l)"
      by (blast intro: thread_run_trans one_step)
    have lock: "in_hook ?l t" using assms by simp
    obtain x where x: "thread_run E t ((b, In_trait q (From_program k) ?c), ?l) x"
      "ends_as (hook_run E ?c ?l) (\<lambda>a. (b, In_trait q (From_program k) (Done a))) (b, Gone True True)
         (b, In_trait q (From_program k) Unreachable) x"
      using in_trait.frame_run [OF lock] by blast
    note run = thread_run_trans [OF to_trait x(1)] and code = trait_based_hook_code [OF True]
    show ?thesis
    proof (cases "hook_run E ?c ?l")
      case (Value r s1)
      moreover obtain v obj where r: "r = (v, obj)" by (cases r)
      ultimately have "thread_run E t ((b, Trait_called q (From_program k)), s)
          ((b, In_trait q (From_program k) (Done (v, obj))), s1)"
        using x(2) run by simp
      then have "thread_run E t ((b, Trait_called q (From_program k)), s)
          ((b, Returned q (From_program k) v), s1\<lparr>trait_object := obj, trait_lock := None\<rparr>)"
        by (rule thread_snoc) simp
      with Value r show ?thesis unfolding code by auto
    qed (use x(2) run in \<open>auto simp: code\<close>)
  qed
qed

lemma guarded_run:
  assumes "in_hook s t"
  shows "\<exists>x. thread_run E t ((b, Guarded q (From_program k)), s) x \<and>
     after_call b q k (Returned q (From_program k)) (call_hook E (nested_call E) t (hook_function s) q s) x"
proof (cases "hook_function s")
  case Default_hook
  then have "control_step E t (b, Guarded q (From_program k)) s = Some ((b, In_code q (From_program k) (default_hook q)), s)"
    by (simp add: get_hook_fn_def)
  moreover note code_hook_run [OF assms, of E b q k "default_hook q"]
  ultimately show ?thesis
    unfolding call_hook_def Default_hook hook_fn.case by (rule step_then)
next
  case Trait_based_hook
  then have "control_step E t (b, Guarded q (From_program k)) s = Some ((b, Trait_called q (From_program k)), s)"
    by (simp add: get_hook_fn_def)
  moreover note trait_hook_run [OF assms, of E b q k]
  ultimately show ?thesis
    unfolding call_hook_def Trait_based_hook hook_fn.case by (rule step_then)
next
  case (Hook_at a)
  then have "control_step E t (b, Guarded q (From_program k)) s = Some ((b, In_code q (From_program k) (code_of E a q)), s)"
    by (simp add: get_hook_fn_def)
  moreover note code_hook_run [OF assms, of E b q k "code_of E a q"]
  ultimately show ?thesis
    unfolding call_hook_def Hook_at hook_fn.case by (rule step_then)
qed

lemma after_call_return:
  assumes "after_call b q k (Returned q (From_program k)) r x"
  shows "\<exists>y. thread_run E t x y \<and> after_call b q k (\<lambda>v. Program (k v))
    (run_bind r (\<lambda>r s. Value r (s\<lparr>in_hook := (in_hook s)(t := False)\<rparr>))) y"
  using assms by (cases "(b, q, k, \<lambda>v. Returned q (From_program k) v, r, x)" rule: after_call.cases)
    (auto intro: one_step)

lemma hook_entry_steps:
  "\<exists>x. thread_run E t ((b, Program (Call q k)), s) x \<and>
     after_call b q k (\<lambda>v. Program (k v)) (hook_entry 2 E t q s) x"
proof -
  have call: "control_step E t (b, Program (Call q k)) s = Some ((b, Entered q (From_program k)), counted s)" by simp
  show ?thesis
  proof (cases "in_hook s t")
    case True
    then have "control_step E t (b, Entered q (From_program k)) (counted s) =
        kernel_step E q (b, Gone True False) (\<lambda>v. (b, Program (k v))) (counted s)"
      by (simp add: counted_def)
    moreover have "hook_entry 2 E t q s =
        run_bind (raw_call (kernel E) q (counted s)) (\<lambda>v. Value (v, q))"
      using True by (simp add: numeral_2_eq_2 hook_entry_nested nested_call_def counted_def)
    ultimately show ?thesis
      by (intro step_then [OF call], cases "raw_call (kernel E) q (counted s)")
        (auto intro: one_step simp: kernel_step_cases raw_call_def
          simp del: control_step.simps split: prod.splits option.splits)
  next
    case False
    let ?g = "(counted s)\<lparr>in_hook := (in_hook s)(t := True)\<rparr>"
    have "control_step E t (b, Entered q (From_program k)) (counted s) = Some ((b, Guarded q (From_program k)), ?g)"
      using False by (simp add: counted_def)
    with call have start: "thread_run E t ((b, Program (Call q k)), s) ((b, Guarded q (From_program k)), ?g)"
      by (blast intro: thread_step one_step)
    have "call_hook E (nested_call E) t (hook_function ?g) q ?g = guarded_hook E t q s"
      by (simp add: guarded_hook_def counted_def)
    then obtain x where x: "thread_run E t ((b, Guarded q (From_program k)), ?g) x"
      "after_call b q k (Returned q (From_program k)) (guarded_hook E t q s) x"
      using guarded_run [of ?g t E b q k] by auto
    from after_call_return [OF x(2), of E t] obtain y where "thread_run E t x y"
      "after_call b q k (\<lambda>v. Program (k v)) (hook_entry 2 E t q s) y"
      using hook_entry_outer [OF False, of 0 E q] by (auto simp: numeral_2_eq_2)
    with start x(1) show ?thesis by (blast intro: thread_run_trans)
  qed
qed

text \<open>Code of the program, with its rewritten calls: how the thread stands when it has ended.\<close>

fun after_code ::
  "bool \<Rightarrow> ('a \<Rightarrow> 's prog) \<Rightarrow> ('a, ('s, 'w) hook_state) run \<Rightarrow> 's thread \<times> ('s, 'w) hook_state \<Rightarrow> bool" where
  "after_code b f (Value a s) x \<longleftrightarrow> x = ((b, Program (f a)), s)"
| "after_code b f (No_return s) x \<longleftrightarrow> (\<exists>g h. x = ((b, Gone g h), s))"
| "after_code b f (Blocked s) x \<longleftrightarrow> (\<exists>q k. x = ((b, Locking q (From_program k)), s)) \<and> trait_lock s \<noteq> None"
| "after_code b f (Undefined s) x \<longleftrightarrow> x = ((b, Program Misbehaved), s) \<or>
     (\<exists>q k. x = ((b, In_code q (From_program k) Unreachable), s) \<or> x = ((b, In_trait q (From_program k) Unreachable), s))"
| "after_code b f (Panic s) x \<longleftrightarrow> False"
| "after_code b f Out_of_fuel x \<longleftrightarrow> False"

lemma after_code_bind:
  assumes "thread_run E t y x" "after_code b (\<lambda>a. g a) r x"
    "\<And>a s. r = Value a s \<Longrightarrow> \<exists>z. thread_run E t ((b, Program (g a)), s) z \<and> after_code b f (r' a s) z"
  shows "\<exists>z. thread_run E t y z \<and> after_code b f (run_bind r r') z"
proof (cases "\<exists>a s. r = Value a s")
  case True
  then obtain a s where r: "r = Value a s" by blast
  with assms(2) have "x = ((b, Program (g a)), s)" by simp
  with assms(1,3) r show ?thesis by (auto intro: thread_run_trans)
next
  case False
  with assms(2) have "after_code b f (run_bind r r') x" by (cases r) auto
  with assms(1) show ?thesis by blast
qed

lemma code_then_run:
  "\<exists>x. thread_run E t ((b, Program (code_then c f)), s) x \<and>
     after_code b f (run_act (raw_call (kernel E)) (site_call E t) c s) x"
proof (induction c arbitrary: s)
  case (Done a)
  then show ?case by (auto intro: thread_refl)
next
  case (Raw q k)
  show ?case
  proof (cases "raw_call (kernel E) q s")
    case (Value v s1)
    then have "control_step E t (b, Program (code_then (Raw q k) f)) s = Some ((b, Program (code_then (k v) f)), s1)"
      by (simp add: kernel_step_cases)
    from step_then [OF this Raw [OF rangeI, of v s1]] Value show ?thesis by simp
  next
    case (No_return s1)
    then have "control_step E t (b, Program (code_then (Raw q k) f)) s = Some ((b, Gone False False), s1)"
      by (simp add: kernel_step_cases)
    with No_return show ?thesis by (intro step_then [OF _ exI [of _ "((b, Gone False False), s1)"]]) auto
  qed (auto simp: raw_call_def split: prod.splits option.splits)
next
  case (Site q k)
  let ?f = "\<lambda>v. code_then (k v) f"
  obtain x where x: "thread_run E t ((b, Program (Call q ?f)), s) x"
    "after_call b q ?f (\<lambda>v. Program (?f v)) (hook_entry 2 E t q s) x"
    using hook_entry_steps by blast
  have "after_code b ?f (site_call E t q s) x"
    using x(2) by (cases "(b, q, ?f, \<lambda>v. Program (?f v), hook_entry 2 E t q s, x)" rule: after_call.cases)
      (auto simp: site_call_def site_result_def)
  from after_code_bind [OF x(1) this, of f] Site [OF rangeI] show ?case by simp
next
  case Unreachable
  then show ?case by (auto intro: thread_refl)
qed

text \<open>How a thread stands after \<open>register\_syscall\_hooks\<close>, which holds the mutex while it allocates.\<close>

fun after_register :: "'s prog \<Rightarrow> (unit, ('s, 'w) hook_state) run \<Rightarrow> 's thread \<times> ('s, 'w) hook_state \<Rightarrow> bool" where
  "after_register p (Value u s) x \<longleftrightarrow> x = ((False, Program p), s)"
| "after_register p (Panic s) x \<longleftrightarrow> x = ((False, Panicked), s)"
| "after_register p (Blocked s) x \<longleftrightarrow> trait_lock s \<noteq> None \<and>
     ((\<exists>k. x = ((False, Program (Acquire k)), s)) \<or> (\<exists>q k. x = ((True, Locking q (From_program k)), s)))"
| "after_register p (No_return s) x \<longleftrightarrow> (\<exists>g h. x = ((True, Gone g h), s))"
| "after_register p (Undefined s) x \<longleftrightarrow> x = ((True, Program Misbehaved), s) \<or>
     (\<exists>q k. x = ((True, In_code q (From_program k) Unreachable), s) \<or> x = ((True, In_trait q (From_program k) Unreachable), s))"
| "after_register p Out_of_fuel x \<longleftrightarrow> False"

lemma register_stored:
  fixes r :: "(unit, ('s, 'w) hook_state) run"
  assumes "thread_run E t y x" "after_code True (\<lambda>_. Assign h self (Release (Install Trait_based_hook p))) r x"
  shows "\<exists>z. thread_run E t y z \<and> after_register p (run_bind r (\<lambda>_ s. Value ()
    (hook_init Trait_based_hook (s\<lparr>trait_object := Some (h, self), trait_lock := None\<rparr>)))) z"
proof (cases "\<exists>s. r = Value () s")
  case True
  then obtain s where r: "r = Value () s" by blast
  let ?s = "s\<lparr>trait_object := Some (h, self)\<rparr>"
  have "thread_run E t ((True, Program (Assign h self (Release (Install Trait_based_hook p)))), s)
      ((True, Program (Release (Install Trait_based_hook p))), ?s)"
    by (rule one_step) simp
  also have "thread_run E t \<dots> ((False, Program (Install Trait_based_hook p)), ?s\<lparr>trait_lock := None\<rparr>)"
    by (rule one_step) simp
  also have "thread_run E t \<dots> ((False, Program p), hook_init Trait_based_hook (?s\<lparr>trait_lock := None\<rparr>))"
    by (rule one_step) simp
  finally show ?thesis using assms r by (auto intro: thread_run_trans)
next
  case False
  with assms(2) have "after_register p (run_bind r (\<lambda>_ s. Value ()
      (hook_init Trait_based_hook (s\<lparr>trait_object := Some (h, self), trait_lock := None\<rparr>)))) x"
    by (cases r) auto
  with assms(1) show ?thesis by blast
qed

lemma register_steps:
  "\<exists>x. thread_run E t ((False, Program (register_prog alloc dealloc h self p)), s) x \<and>
     after_register p (register_syscall_hooks E alloc dealloc t h self s) x"
proof -
  let ?run = "run_act (raw_call (kernel E)) (site_call E t)"
  let ?fin = "Assign h self (Release (Install Trait_based_hook p))"
  let ?drop = "if trait_object s \<noteq> None then dealloc else Done ()"
  let ?s = "s\<lparr>trait_lock := Some t\<rparr>"
  consider "trait_lock s \<noteq> None" | "trait_lock s = None" "trait_poisoned s"
    | "trait_lock s = None" "\<not> trait_poisoned s" by blast
  then show ?thesis
  proof cases
    case 1
    then have "after_register p (register_syscall_hooks E alloc dealloc t h self s)
        ((False, Program (register_prog alloc dealloc h self p)), s)"
      by (simp add: register_syscall_hooks_def register_prog_def)
    then show ?thesis by (blast intro: thread_refl)
  next
    case 2
    then have "control_step E t (False, Program (register_prog alloc dealloc h self p)) s = Some ((False, Panicked), s)"
      by (simp add: register_prog_def)
    with 2 show ?thesis
      by (intro step_then [OF _ exI [of _ "((False, Panicked), s)"]]) (auto simp: register_syscall_hooks_def)
  next
    case 3
    then have start: "control_step E t (False, Program (register_prog alloc dealloc h self p)) s =
        Some ((True, Program (code_then alloc (\<lambda>_. code_then ?drop (\<lambda>_. ?fin)))), ?s)"
      by (simp add: register_prog_def)
    obtain x where x: "thread_run E t ((True, Program (code_then alloc (\<lambda>_. code_then ?drop (\<lambda>_. ?fin)))), ?s) x"
      "after_code True (\<lambda>_. code_then ?drop (\<lambda>_. ?fin)) (?run alloc ?s) x"
      using code_then_run by blast
    obtain y where y: "thread_run E t ((True, Program (code_then alloc (\<lambda>_. code_then ?drop (\<lambda>_. ?fin)))), ?s) y"
      "after_code True (\<lambda>_. ?fin) (run_bind (?run alloc ?s) (\<lambda>_. ?run ?drop)) y"
      using after_code_bind [OF x, of "\<lambda>_. ?fin" "\<lambda>_. ?run ?drop"] code_then_run by blast
    have "run_bind (run_bind (?run alloc ?s) (\<lambda>_. ?run ?drop)) (\<lambda>_ s. Value ()
        (hook_init Trait_based_hook (s\<lparr>trait_object := Some (h, self), trait_lock := None\<rparr>))) =
        register_syscall_hooks E alloc dealloc t h self s"
      using 3 by (cases "?run alloc ?s") (auto simp: register_syscall_hooks_def Let_def)
    with register_stored [OF y] show ?thesis using start by (metis thread_step)
  qed
qed

text \<open>
  C11: the two models of the API agree.  A thread that makes a rewritten system call and is not
  interrupted goes, by atomic steps, exactly where \<open>hook\_entry\<close> of the sequential model ends: behind
  the call with its result and state when it returns, gone when the kernel ends the thread, before the
  mutex when it blocks, at the unreachable code otherwise.  A thread that registers a hook goes exactly
  where \<open>register\_syscall\_hooks\<close> ends: behind it, panicked on a poisoned mutex, or blocked, before the
  mutex or, still holding it, inside a hook that its allocation has entered.
\<close>

theorem hook_entry_uninterrupted:
  "(\<exists>x. thread_run E t ((b, Program (Call q k)), s) x \<and>
      after_call b q k (\<lambda>v. Program (k v)) (hook_entry 2 E t q s) x) \<and>
   (\<exists>x. thread_run E t ((False, Program (register_prog alloc dealloc h self p)), s) x \<and>
      after_register p (register_syscall_hooks E alloc dealloc t h self s) x)"
  using hook_entry_steps [of E t b q k s] register_steps [of E t alloc dealloc h self p s] by blast

end
