(* ===== verification/HookLibraryProperties.thy ===== *)
theory HookLibraryProperties
  imports HookContracts
begin

section \<open>Properties of the repository's hooks\<close>

lemma printer: "(\<And>m. comes_back (eprint m)) \<Longrightarrow> stderr_printer eprint"
  by unfold_locales

text \<open>
  The tracing hooks observe only.  Installed as the hook function, with a printer that makes any
  system calls it likes and a kernel that answers, \<open>zpoline\_hook\_function\<close> and \<open>trace\_hook\<close> let
  every rewritten call return, with the kernel's answer to exactly that call and the registers as
  they were.
\<close>

lemma tracing_hooks_observe:
  assumes "\<And>m. comes_back (eprint m)" and "answering (kernel E)"
    and "code_of E a = zpoline_hook_function eprint \<or> code_of E a = trace_hook eprint"
    and "hook_function s = Hook_at a" and "\<not> in_hook s t"
  shows "\<exists>v s' w w'. hook_entry 2 E t q s = Value (v, q) s' \<and> kernel E q w = (Some v, w')"
proof -
  have p: "stderr_printer eprint" using assms(1) by (rule printer)
  show ?thesis
    using assms(3) stderr_printer.impl_answers [OF p assms(4) _ assms(5,2)]
      stderr_printer.trace_answers [OF p assms(4) _ assms(5,2)] by blast
qed

definition tracing_env :: "syscall_regs list hook_env" where
  "tracing_env = \<lparr>kernel = (\<lambda>q w. (Some (rax q + 1000), w @ [q])),
     code_of = (\<lambda>a. if a = 0x7000 then zpoline_hook_function (eprint_once 0x9000)
       else trace_hook (eprint_once 0x9000))\<rparr>"

lemma tracing_env_answers: "answering (kernel tracing_env)"
  by (simp add: answering_def tracing_env_def)

lemma eprint_once_prints: "comes_back (eprint_once buf m)"
  by (simp add: eprint_once_def)

subsection \<open>Counters\<close>

definition calls_of :: "u64 \<Rightarrow> syscall_regs list \<Rightarrow> usize" where
  "calls_of nr qs = of_nat (length (filter (\<lambda>q. rax q = nr) qs))"

lemma calls_of_simps [simp]:
  "calls_of nr [] = 0" "calls_of nr (q # qs) = (if rax q = nr then 1 else 0) + calls_of nr qs"
  by (simp_all add: calls_of_def)

definition no_exit :: "syscall_regs list \<Rightarrow> bool" where
  "no_exit qs \<longleftrightarrow> list_all (\<lambda>q. rax q \<noteq> 60 \<and> rax q \<noteq> 231) qs"

lemma stats_effects:
  "length vs = length qs \<Longrightarrow> effects stats_effect (zip qs vs) c =
     \<lparr>WRITE_COUNT = WRITE_COUNT c + calls_of 1 qs, READ_COUNT = READ_COUNT c + calls_of 0 qs,
      OPEN_COUNT = OPEN_COUNT c + calls_of 2 qs, GETPID_COUNT = GETPID_COUNT c + calls_of 39 qs\<rparr>"
proof (induction vs qs arbitrary: c rule: list_induct2)
  case (Cons v vs q qs)
  then show ?case by (simp add: stats_effect_def)
qed simp

lemma logging_effects:
  "length vs = length qs \<Longrightarrow> effects logging_effect (zip qs vs) c =
     \<lparr>log_write_count = log_write_count c + calls_of 1 qs, log_read_count = log_read_count c + calls_of 0 qs,
      log_open_count = log_open_count c + calls_of 2 qs,
      log_getpid_count = log_getpid_count c + calls_of 39 qs\<rparr>"
proof (induction vs qs arbitrary: c rule: list_induct2)
  case (Cons v vs q qs)
  then show ?case by (simp add: logging_effect_def)
qed simp

text \<open>
  The counters count.  With \<open>StatsHook\<close> registered and a kernel that answers, every sequence of
  rewritten calls that does not exit returns, and afterwards each of the four counters has grown by
  the number of its calls in the sequence (modulo 2^64): the writes that the hook itself makes to
  print its log are not counted.
\<close>

lemma stats_hook_counts:
  assumes "\<And>m. comes_back (eprint m)" and "answering (kernel E)"
    and "trait_ready t s" and "\<not> trait_poisoned s" and "trait_object s = Some (stats_hook eprint, c)"
    and "no_exit qs"
  shows "\<exists>rs s'. run_calls E t qs s = Value rs s' \<and> trait_object s' = Some (stats_hook eprint,
    \<lparr>WRITE_COUNT = WRITE_COUNT c + calls_of 1 qs, READ_COUNT = READ_COUNT c + calls_of 0 qs,
     OPEN_COUNT = OPEN_COUNT c + calls_of 2 qs, GETPID_COUNT = GETPID_COUNT c + calls_of 39 qs\<rparr>)"
proof -
  have p: "stderr_printer eprint" using assms(1) by (rule printer)
  obtain rs s' where run: "run_calls E t qs s = Value rs s'"
    using stderr_printer.stats_run(1) [OF p assms(3-5,2), of qs] assms(6) by (auto simp: no_exit_def)
  from stderr_printer.stats_run(2) [OF p assms(3-5) run] run show ?thesis
    by (auto simp: answers_match_def stats_effects)
qed

definition stats_state :: "(stats_counters, syscall_regs list) hook_state" where
  "stats_state = (initial_state [])\<lparr>hook_function := Trait_based_hook,
     trait_object := Some (stats_hook (eprint_once 0x9000), stats_counters_zero)\<rparr>"

lemma stats_state_ready:
  "trait_ready 1 stats_state" "\<not> trait_poisoned stats_state"
  "trait_object stats_state = Some (stats_hook (eprint_once 0x9000), stats_counters_zero)"
  by (simp_all add: stats_state_def trait_ready_def initial_state_def)

definition two_writes :: "syscall_regs list" where
  "two_writes = [syscall_regs_new 1 1 0x5000 7 0 0 0, syscall_regs_new 39 0 0 0 0 0 0,
     syscall_regs_new 1 1 0x6000 7 0 0 0]"

lemma two_writes_calls: "no_exit two_writes" "calls_of 1 two_writes = 2" "calls_of 39 two_writes = 1"
  by (simp_all add: no_exit_def two_writes_def syscall_regs_new_def)

definition bytes_of :: "u64 \<Rightarrow> (syscall_regs \<times> i64) list \<Rightarrow> usize" where
  "bytes_of nr qrs = sum_list (map (\<lambda>(q, r). if rax q = nr \<and> 0 < sint r then r else 0) qrs)"

lemma statistics_effects:
  "length vs = length qs \<Longrightarrow> effects statistics_effect (zip qs vs) c =
     \<lparr>write_count = write_count c + calls_of 1 qs, read_count = read_count c + calls_of 0 qs,
      open_count = open_count c + calls_of 2 qs,
      total_bytes_written = total_bytes_written c + bytes_of 1 (zip qs vs),
      total_bytes_read = total_bytes_read c + bytes_of 0 (zip qs vs)\<rparr>"
proof (induction vs qs arbitrary: c rule: list_induct2)
  case (Cons v vs q qs)
  then show ?case by (simp add: statistics_effect_def bytes_of_def)
qed (simp add: bytes_of_def)

lemma canonical_ret_wide: "nr \<in> {0, 1} \<Longrightarrow> canonical_ret nr v = Some v"
  by (auto simp: canonical_ret_def signature_def)

lemma bytes_of_results:
  assumes "answers_match qs vs rs" "nr \<in> {0, 1}"
  shows "bytes_of nr (zip qs vs) = bytes_of nr (zip qs rs)"
proof -
  have "map (\<lambda>(q, r). if rax q = nr \<and> 0 < sint r then r else 0) (zip qs vs) =
      map (\<lambda>(q, r). if rax q = nr \<and> 0 < sint r then r else 0) (zip qs rs)"
    using assms canonical_ret_wide [OF assms(2)]
    by (intro nth_equalityI) (auto simp: answers_match_def)
  then show ?thesis by (simp add: bytes_of_def)
qed

text \<open>
  C29: \<open>StatisticsHook\<close> adds up what was transferred.  Its byte totals grow by the sum of the positive
  results of the reads and writes in the sequence, as the program saw them, and its three counters by
  the number of their calls; failed and empty transfers add nothing.
\<close>

theorem statistics_hook_totals:
  assumes "\<And>m. comes_back (eprint m)" and "answering (kernel E)"
    and "trait_ready t s" and "\<not> trait_poisoned s"
    and "trait_object s = Some (statistics_hook eprint c_str, c)" and "no_exit qs"
  shows "\<exists>rs s'. run_calls E t qs s = Value rs s' \<and> trait_object s' = Some (statistics_hook eprint c_str,
    \<lparr>write_count = write_count c + calls_of 1 qs, read_count = read_count c + calls_of 0 qs,
     open_count = open_count c + calls_of 2 qs,
     total_bytes_written = total_bytes_written c + bytes_of 1 (zip qs rs),
     total_bytes_read = total_bytes_read c + bytes_of 0 (zip qs rs)\<rparr>)"
proof -
  have p: "stderr_printer eprint" using assms(1) by (rule printer)
  obtain rs s' where run: "run_calls E t qs s = Value rs s'"
    using stderr_printer.statistics_run(1) [OF p assms(3-5,2), of qs] assms(6) by (auto simp: no_exit_def)
  then obtain vs where "answers_match qs vs rs"
    "trait_object s' = Some (statistics_hook eprint c_str, effects statistics_effect (zip qs vs) c)"
    using stderr_printer.statistics_run(2) [OF p assms(3-5) run] by blast
  moreover from this(1) have "length vs = length qs" by (simp add: answers_match_def)
  ultimately show ?thesis
    using run by (simp add: statistics_effects bytes_of_results)
qed

definition statistics_example :: "(statistics_hook_state, syscall_regs list) hook_state" where
  "statistics_example = (initial_state [])\<lparr>hook_function := Trait_based_hook,
     trait_object := Some (statistics_hook (eprint_once 0x9000) (\<lambda>_. lit ''f''), statistics_new)\<rparr>"

theorem statistics_hook_totals_witness:
  "\<exists>rs s' c. run_calls tracing_env 1 two_writes statistics_example = Value rs s' \<and>
     trait_object s' = Some (statistics_hook (eprint_once 0x9000) (\<lambda>_. lit ''f''), c) \<and> write_count c = 2"
proof -
  have s: "trait_ready 1 statistics_example" "\<not> trait_poisoned statistics_example"
    "trait_object statistics_example = Some (statistics_hook (eprint_once 0x9000) (\<lambda>_. lit ''f''), statistics_new)"
    by (simp_all add: statistics_example_def trait_ready_def initial_state_def)
  show ?thesis
    using statistics_hook_totals [where eprint = "eprint_once 0x9000", OF eprint_once_prints
        tracing_env_answers s two_writes_calls(1)]
    by (auto simp: two_writes_calls statistics_new_def)
qed

subsection \<open>The tables of names\<close>

text \<open>
  The number tables of the crates agree: a call that the sample's \<open>trace\_hook\<close> names has the same
  name in \<open>zpoline\_hook\_impl\<close>, \<open>arch\_prctl\<close> (158) apart, which the latter reports as unknown.
\<close>

lemma syscall_names_agree:
  "name_in trace_names nr = name_in hook_impl_names nr \<or>
   name_in trace_names nr = lit ''<unknown>'' \<or> nr = 158"
proof -
  have "list_all (\<lambda>(n, name). n = 158 \<or> map_of hook_impl_names n = Some name) trace_names"
    by (simp add: trace_names_def) (simp add: hook_impl_names_def)
  then have agree: "nr = 158 \<or> map_of hook_impl_names nr = Some name"
    if "map_of trace_names nr = Some name" for name
    using map_of_SomeD [OF that] by (auto simp: list_all_iff)
  then show ?thesis by (cases "map_of trace_names nr") (auto simp: name_in_def)
qed

end
