(* ===== verification/HookThreads.thy ===== *)
theory HookThreads
  imports HookConcurrency HookLibraryProperties
begin

section \<open>Interleaved threads\<close>

text \<open>
  Any number of threads, each making the steps of \<open>HookConcurrency\<close> on the shared state in any order.
  The theory shows what the guard and the mutex mean in every reachable state, that every run ends, and
  that the calls of the registered object are serialised.
\<close>

record ('s, 'w) system =
  shared :: "('s, 'w) hook_state"
  threads :: "tid \<Rightarrow> 's thread"

definition start_system :: "('s, 'w) hook_state \<Rightarrow> (tid \<Rightarrow> 's prog) \<Rightarrow> ('s, 'w) system" where
  "start_system s progs = \<lparr>shared = s, threads = (\<lambda>t. (False, Program (progs t)))\<rparr>"

text \<open>The events a run is observed by: rewritten calls, and completed calls of the object.\<close>

datatype event = Called syscall_regs | Dispatched syscall_regs i64

fun emits :: "'s thread \<Rightarrow> event list" where
  "emits (b, Program (Call q k)) = [Called q]"
| "emits (b, In_trait q k (Done (v, obj))) = [Dispatched q v]"
| "emits c = []"

definition called :: "event list \<Rightarrow> syscall_regs list" where
  "called es = concat (map (\<lambda>e. case e of Called q \<Rightarrow> [q] | Dispatched q v \<Rightarrow> []) es)"

definition dispatched :: "event list \<Rightarrow> (syscall_regs \<times> i64) list" where
  "dispatched es = concat (map (\<lambda>e. case e of Called q \<Rightarrow> [] | Dispatched q v \<Rightarrow> [(q, v)]) es)"

lemma history_simps [simp]:
  "called [] = []" "called (es @ es') = called es @ called es'"
  "called [Called q] = [q]" "called [Dispatched q v] = []"
  "dispatched [] = []" "dispatched (es @ es') = dispatched es @ dispatched es'"
  "dispatched [Called q] = []" "dispatched [Dispatched q v] = [(q, v)]"
  by (simp_all add: called_def dispatched_def)

inductive interleaving ::
  "'w hook_env \<Rightarrow> ('s, 'w) system \<Rightarrow> event list \<Rightarrow> ('s, 'w) system \<Rightarrow> bool" for E S0 where
  run_start: "interleaving E S0 [] S0"
| run_step: "interleaving E S0 es S \<Longrightarrow> control_step E t (threads S t) (shared S) = Some (c, s) \<Longrightarrow>
    interleaving E S0 (es @ emits (threads S t)) \<lparr>shared = s, threads = (threads S)(t := c)\<rparr>"

lemma run_to:
  "interleaving E S0 es S \<Longrightarrow> control_step E t (threads S t) (shared S) = Some (c, s) \<Longrightarrow>
   es' = es @ emits (threads S t) \<Longrightarrow> S' = \<lparr>shared = s, threads = (threads S)(t := c)\<rparr> \<Longrightarrow>
   interleaving E S0 es' S'"
  using run_step by simp

definition can_step :: "'w hook_env \<Rightarrow> tid \<Rightarrow> ('s, 'w) system \<Rightarrow> bool" where
  "can_step E t S \<longleftrightarrow> control_step E t (threads S t) (shared S) \<noteq> None"

subsection \<open>Analysis of one step\<close>

lemma kernel_step_SomeE:
  assumes "kernel_step E q gone f s = Some (c, s')"
  obtains w where "c = gone" "s' = s\<lparr>world := w\<rparr>" "fst (kernel E q (world s)) = None"
  | v w where "c = f v" "s' = s\<lparr>world := w\<rparr>" "fst (kernel E q (world s)) = Some v"
  using assms by (auto simp: kernel_step_def split: prod.splits option.splits)

lemma kernel_step_answersE:
  assumes "kernel_step E q gone f s = Some (c, s')" "answering (kernel E)"
  obtains v w where "c = f v" "s' = s\<lparr>world := w\<rparr>"
  using assms by (auto simp: kernel_step_def answering_def split: prod.splits option.splits) (metis fst_conv option.distinct(1))

text \<open>
  What a thread's program may still do: release the mutex exactly once if it holds it.  A thread is in
  \<open>hook_entry\<close> for its program, or a second time for a call of the hook that it runs, never deeper; the
  trait hook runs only while the program does not hold the mutex.
\<close>

fun wf_caller :: "bool \<Rightarrow> 's caller \<Rightarrow> bool" where
  "wf_caller b (From_program k) \<longleftrightarrow> (\<forall>v. bracketed b (k v))"
| "wf_caller b (From_code q fr c) \<longleftrightarrow> depth fr = 0 \<and> wf_caller b fr"
| "wf_caller b (From_trait q fr c) \<longleftrightarrow> \<not> b \<and> depth fr = 0 \<and> wf_caller b fr"

fun wf_thread :: "'s thread \<Rightarrow> bool" where
  "wf_thread (b, Program p) \<longleftrightarrow> bracketed b p"
| "wf_thread (b, Entered q fr) \<longleftrightarrow> wf_caller b fr"
| "wf_thread (b, Guarded q fr) \<longleftrightarrow> depth fr = 0 \<and> wf_caller b fr"
| "wf_thread (b, In_code q fr c) \<longleftrightarrow> depth fr = 0 \<and> wf_caller b fr"
| "wf_thread (b, Trait_called q fr) \<longleftrightarrow> depth fr = 0 \<and> wf_caller b fr"
| "wf_thread (b, Locking q fr) \<longleftrightarrow> depth fr = 0 \<and> wf_caller b fr"
| "wf_thread (b, In_trait q fr c) \<longleftrightarrow> \<not> b \<and> depth fr = 0 \<and> wf_caller b fr"
| "wf_thread (b, Returned q fr v) \<longleftrightarrow> depth fr = 0 \<and> wf_caller b fr"
| "wf_thread (b, Gone g h) \<longleftrightarrow> True"
| "wf_thread (b, Panicked) \<longleftrightarrow> \<not> b"

lemma wf_resume: "wf_caller b fr \<Longrightarrow> wf_thread (b, resume fr v)"
  by (cases fr) auto

lemma guarded_resume: "guarded_control (resume fr v) \<longleftrightarrow> depth fr \<noteq> 0"
  by (cases fr) auto

lemma holds_resume: "holds (b, resume fr v) \<longleftrightarrow> b \<or> in_trait_hook fr"
  by (cases fr) auto

lemmas resume_simps = wf_resume guarded_resume holds_resume

text \<open>A thread agrees with the shared state: its guard and the mutex say where it is.\<close>

definition agrees :: "tid \<Rightarrow> 's thread \<Rightarrow> ('s, 'w) hook_state \<Rightarrow> bool" where
  "agrees t c s \<longleftrightarrow> (in_hook s t \<longleftrightarrow> guarded_control (snd c)) \<and> (trait_lock s = Some t \<longleftrightarrow> holds c) \<and>
     wf_thread c"

lemma program_step_agrees:
  assumes "program_step E t b p s = Some (c, s')" "agrees t (b, Program p) s"
  shows "agrees t c s'"
  using assms by (cases p) (auto simp: agrees_def counted_def hook_init_def
      elim!: kernel_step_SomeE split: if_splits)

lemma control_step_agrees:
  assumes "control_step E t c s = Some (c', s')" "agrees t c s"
  shows "agrees t c' s'"
  using assms
  by (cases "(E, t, c, s)" rule: control_step.cases)
    (auto simp: agrees_def counted_def program_step_agrees [unfolded agrees_def] resume_simps
      elim!: kernel_step_SomeE split: if_splits hook_fn.splits)

text \<open>What one thread's step leaves alone: the guards of the others, and a mutex it does not hold.\<close>

lemma program_step_guards:
  assumes "program_step E t b p s = Some (c, s')"
  shows "in_hook s' = in_hook s"
  using assms by (cases p) (auto simp: counted_def hook_init_def elim!: kernel_step_SomeE split: if_splits)

lemma control_step_guards:
  assumes "control_step E t c s = Some (c', s')" "u \<noteq> t"
  shows "in_hook s' u = in_hook s u"
  using assms
  by (cases "(E, t, c, s)" rule: control_step.cases)
    (auto simp: counted_def program_step_guards elim!: kernel_step_SomeE split: if_splits hook_fn.splits)

lemma program_step_lock:
  assumes "program_step E t b p s = Some (c, s')" "agrees t (b, Program p) s" "u \<noteq> t"
  shows "trait_lock s' = Some u \<longleftrightarrow> trait_lock s = Some u"
  using assms by (cases p) (auto simp: agrees_def counted_def hook_init_def
      elim!: kernel_step_SomeE split: if_splits)

lemma control_step_lock:
  assumes "control_step E t c s = Some (c', s')" "agrees t c s" "u \<noteq> t"
  shows "trait_lock s' = Some u \<longleftrightarrow> trait_lock s = Some u"
  using assms
proof (cases "(E, t, c, s)" rule: control_step.cases)
  case (1 E t b p s)
  with assms program_step_lock show ?thesis by (metis Pair_inject control_step.simps(1))
qed (auto simp: agrees_def counted_def elim!: kernel_step_SomeE split: if_splits hook_fn.splits)

subsection \<open>The guard and the mutex in every reachable state\<close>

definition coherent :: "('s, 'w) system \<Rightarrow> bool" where
  "coherent S \<longleftrightarrow> (\<forall>t. agrees t (threads S t) (shared S))"

definition at_rest :: "('s, 'w) hook_state \<Rightarrow> bool" where
  "at_rest s \<longleftrightarrow> (\<forall>t. \<not> in_hook s t) \<and> trait_lock s = None"

lemma coherent_step:
  assumes "coherent S" "control_step E t (threads S t) (shared S) = Some (c, s)"
  shows "coherent \<lparr>shared = s, threads = (threads S)(t := c)\<rparr>"
proof -
  from assms(1) have "agrees t (threads S t) (shared S)" by (simp add: coherent_def)
  note step = control_step_agrees [OF assms(2) this] control_step_guards [OF assms(2)]
    control_step_lock [OF assms(2) this]
  have "agrees u (threads S u) s" if "u \<noteq> t" for u
    using assms(1) step(2,3) [OF that] by (auto simp: coherent_def agrees_def)
  with step(1) show ?thesis by (simp add: coherent_def)
qed

lemma start_coherent:
  "at_rest s \<Longrightarrow> (\<And>t. bracketed False (progs t)) \<Longrightarrow> coherent (start_system s progs)"
  by (simp add: coherent_def start_system_def agrees_def at_rest_def)

lemma interleaving_coherent: "interleaving E S0 es S \<Longrightarrow> coherent S0 \<Longrightarrow> coherent S"
  by (induction rule: interleaving.induct) (simp_all add: coherent_step)

lemma holds_unique: "coherent S \<Longrightarrow> holds (threads S t) \<Longrightarrow> holds (threads S u) \<Longrightarrow> t = u"
  unfolding coherent_def agrees_def by (metis option.inject)

text \<open>
  C12: mutual exclusion.  In every state that any interleaving of threads can reach from one at rest, a
  thread's guard is set exactly while it is between setting and clearing it in \<open>hook\_entry\<close>, the
  mutex belongs to a thread exactly while that thread is inside the trait hook's critical section or
  registering an object, and so no two threads are there at once.
\<close>

theorem mutual_exclusion:
  assumes "at_rest s" and "\<And>t. bracketed False (progs t)"
    and "interleaving E (start_system s progs) es S"
  shows "(in_hook (shared S) t \<longleftrightarrow> guarded_control (snd (threads S t))) \<and>
    (trait_lock (shared S) = Some t \<longleftrightarrow> holds (threads S t)) \<and>
    (holds (threads S t) \<and> holds (threads S u) \<longrightarrow> t = u)"
proof -
  have "coherent S" by (rule interleaving_coherent [OF assms(3) start_coherent [OF assms(1,2)]])
  then show ?thesis using holds_unique by (auto simp: coherent_def agrees_def)
qed

text \<open>Two threads, one that registers an object, one that makes a call: the first has the mutex.\<close>

definition two_progs :: "tid \<Rightarrow> unit prog" where
  "two_progs t = (if t = 1 then register_prog (Done ()) (Done ()) default_hooks () Finished
     else if t = 2 then Call example_regs (\<lambda>_. Finished) else Finished)"

definition after_two_steps :: "(unit, syscall_regs list) system" where
  "after_two_steps = \<lparr>shared = (counted (initial_state []))\<lparr>trait_lock := Some 1\<rparr>,
     threads = (\<lambda>t. (False, Program (two_progs t)))
       (2 := (False, Entered example_regs (From_program (\<lambda>_. Finished))),
        1 := (True, Program (Assign default_hooks () (Release (Install Trait_based_hook Finished)))))\<rparr>"

theorem mutual_exclusion_witness:
  "holds (threads after_two_steps 1) \<and> \<not> holds (threads after_two_steps 2) \<and>
   trait_lock (shared after_two_steps) = Some 1"
proof -
  let ?s = "initial_state [] :: (unit, syscall_regs list) hook_state"
  let ?S0 = "start_system ?s two_progs"
  define S1 where "S1 = \<lparr>shared = counted ?s,
      threads = (threads ?S0)(2 := (False, Entered example_regs (From_program (\<lambda>_. Finished))))\<rparr>"
  have "interleaving tracing_env ?S0 [Called example_regs] S1"
    by (rule run_to [OF run_start, of _ 2]) (simp_all add: S1_def start_system_def two_progs_def)
  then have run: "interleaving tracing_env ?S0 [Called example_regs] after_two_steps"
    by (rule run_to [of _ _ _ _ 1])
      (simp_all add: S1_def after_two_steps_def start_system_def two_progs_def register_prog_def
        counted_def initial_state_def)
  have rest: "at_rest ?s" by (simp add: at_rest_def initial_state_def)
  have progs: "bracketed False (two_progs t)" for t by (simp add: two_progs_def register_bracketed)
  show ?thesis
    using mutual_exclusion [OF rest progs run, of 1 2] by (auto simp: after_two_steps_def)
qed

subsection \<open>Calls of a registered object are serialised\<close>

text \<open>Programs that make system calls, do not exit, and register nothing.\<close>

primrec ordinary :: "'s prog \<Rightarrow> bool" where
  "ordinary Finished \<longleftrightarrow> True"
| "ordinary Misbehaved \<longleftrightarrow> False"
| "ordinary (Call q k) \<longleftrightarrow> rax q \<noteq> 60 \<and> rax q \<noteq> 231 \<and> (\<forall>v. ordinary (k v))"
| "ordinary (Bypass q k) \<longleftrightarrow> (\<forall>v. ordinary (k v))"
| "ordinary (Acquire k) \<longleftrightarrow> False"
| "ordinary (Assign h self p) \<longleftrightarrow> False"
| "ordinary (Release p) \<longleftrightarrow> False"
| "ordinary (Install fn p) \<longleftrightarrow> False"

lemma ordinary_bracketed: "ordinary p \<Longrightarrow> bracketed False p"
  by (induction p) auto

definition ordinary_call :: "syscall_regs \<Rightarrow> (i64 \<Rightarrow> 's prog) \<Rightarrow> bool" where
  "ordinary_call q k \<longleftrightarrow> rax q \<noteq> 60 \<and> rax q \<noteq> 231 \<and> (\<forall>v. ordinary (k v))"

text \<open>The call of the object that a thread is in the middle of: its raw call still to come, or made.\<close>

definition commits ::
  "'s syscall_hooks \<Rightarrow> (u64 \<Rightarrow> i64 \<Rightarrow> 's \<Rightarrow> 's) \<Rightarrow> syscall_regs \<Rightarrow> 's \<Rightarrow> i64 \<Rightarrow>
   i64 \<times> ('s syscall_hooks \<times> 's) option \<Rightarrow> bool" where
  "commits h effect q self v a \<longleftrightarrow>
     canonical_ret (rax q) v = Some (fst a) \<and> snd a = Some (h, effect (rax q) v self)"

definition in_progress ::
  "'s syscall_hooks \<Rightarrow> (u64 \<Rightarrow> i64 \<Rightarrow> 's \<Rightarrow> 's) \<Rightarrow> syscall_regs \<Rightarrow> 's \<Rightarrow>
   (i64 \<times> ('s syscall_hooks \<times> 's) option) act \<Rightarrow> bool" where
  "in_progress h effect q self c \<longleftrightarrow>
     passes (canonical_regs q) (commits h effect q self) c \<or> (\<exists>v. yields (commits h effect q self) v c)"

lemma in_progress_simps:
  "in_progress h effect q self (Done a) \<longleftrightarrow> (\<exists>v. commits h effect q self v a)"
  "in_progress h effect q self (Raw p c) \<Longrightarrow> in_progress h effect q self (c v)"
  "in_progress h effect q self (Site p c) \<Longrightarrow> in_progress h effect q self (c v)"
  "\<not> in_progress h effect q self Unreachable"
  by (auto simp: in_progress_def)

lemma yields_map:
  assumes "yields R v c" "\<And>v a. R v a \<Longrightarrow> R' v (f a)"
  shows "yields R' v (act_bind c (\<lambda>a. Done (f a)))"
  using assms(1) by induction (simp_all add: assms(2))

lemma passes_map:
  assumes "passes q R c" "\<And>v a. R v a \<Longrightarrow> R' v (f a)"
  shows "passes q R' (act_bind c (\<lambda>a. Done (f a)))"
  using assms(1) by induction (auto intro: yields_map assms(2))

text \<open>
  The control states of such a program while the object \<open>(h, self)\<close> serves the trait hook.  A nested
  call can only come from the trait hook, in the middle of a call of the object.
\<close>

fun serves_caller ::
  "'s syscall_hooks \<Rightarrow> (u64 \<Rightarrow> i64 \<Rightarrow> 's \<Rightarrow> 's) \<Rightarrow> 's \<Rightarrow> syscall_regs \<Rightarrow> 's caller \<Rightarrow> bool" where
  "serves_caller h effect self p (From_program k) \<longleftrightarrow> ordinary_call p k"
| "serves_caller h effect self p (From_trait q (From_program k) c) \<longleftrightarrow>
     ordinary_call q k \<and> (\<forall>v. in_progress h effect q self (c v))"
| "serves_caller h effect self p fr \<longleftrightarrow> False"

fun serves ::
  "'s syscall_hooks \<Rightarrow> (u64 \<Rightarrow> i64 \<Rightarrow> 's \<Rightarrow> 's) \<Rightarrow> 's \<Rightarrow> 's thread \<Rightarrow> bool" where
  "serves h effect self (b, Program p) \<longleftrightarrow> \<not> b \<and> ordinary p"
| "serves h effect self (b, Entered q fr) \<longleftrightarrow> \<not> b \<and> serves_caller h effect self q fr"
| "serves h effect self (b, Guarded q (From_program k)) \<longleftrightarrow> \<not> b \<and> ordinary_call q k"
| "serves h effect self (b, Trait_called q (From_program k)) \<longleftrightarrow> \<not> b \<and> ordinary_call q k"
| "serves h effect self (b, Locking q (From_program k)) \<longleftrightarrow> \<not> b \<and> ordinary_call q k"
| "serves h effect self (b, In_trait q (From_program k) c) \<longleftrightarrow>
     \<not> b \<and> ordinary_call q k \<and> in_progress h effect q self c"
| "serves h effect self (b, Returned q (From_program k) v) \<longleftrightarrow> \<not> b \<and> ordinary_call q k"
| "serves h effect self c \<longleftrightarrow> False"

text \<open>A serving thread's frames are those of the program, or of one call of the object above it.\<close>

lemma serves_callerE:
  assumes "serves_caller h effect self p fr"
  obtains k where "fr = From_program k" "ordinary_call p k"
  | q k c where "fr = From_trait q (From_program k) c" "ordinary_call q k"
      "\<forall>v. in_progress h effect q self (c v)"
  using assms by (cases "(h, effect, self, p, fr)" rule: serves_caller.cases) auto

definition serving :: "'s syscall_hooks \<Rightarrow> 's \<Rightarrow> ('s, 'w) hook_state \<Rightarrow> bool" where
  "serving h self s \<longleftrightarrow> hook_function s = Trait_based_hook \<and> \<not> trait_poisoned s \<and>
     trait_object s = Some (h, self)"

lemma serves_outside: "serves h effect self c \<Longrightarrow> \<not> holds c \<Longrightarrow> serves h effect self' c"
  by (cases "(h, effect, self, c)" rule: serves.cases) (auto elim!: serves_callerE)

context counting_object
begin

lemma trait_code_in_progress:
  assumes "serving hooks self s" "rax q \<noteq> 60" "rax q \<noteq> 231"
  shows "in_progress hooks effect q self (trait_code q s)"
proof -
  let ?f = "\<lambda>a. (fst a, Some (hooks, snd a))"
  have "passes (canonical_regs q) (commits hooks effect q self)
      (act_bind (dispatch_syscall_hooks hooks q self) (\<lambda>a. Done (?f a)))"
    by (rule passes_map [OF dispatch_passes [OF assms(2,3)]]) (auto simp: commits_def)
  with assms(1) show ?thesis
    by (simp add: in_progress_def trait_code_def serving_def case_prod_unfold)
qed

text \<open>One step: either the object is as before, or the call that the thread was in is completed.\<close>

lemma serving_step:
  assumes "control_step E t c s = Some (c', s')" "answering (kernel E)" "serving hooks self s"
    "serves hooks effect self c" "agrees t c s"
  shows "dispatched (emits c) = [] \<and> serving hooks self s' \<and> serves hooks effect self c' \<or>
    (\<exists>q r v. dispatched (emits c) = [(q, r)] \<and> canonical_ret (rax q) v = Some r \<and> holds c \<and>
       serving hooks (effect (rax q) v self) s' \<and> serves hooks effect (effect (rax q) v self) c')"
  using assms
proof (cases "(E, t, c, s)" rule: control_step.cases)
  case (1 E b t p s)
  then show ?thesis using assms
    by (cases p) (auto simp: serving_def ordinary_call_def counted_def
        elim!: kernel_step_answersE)
next
  case (9 E t b q fr s)
  then show ?thesis using assms trait_code_in_progress [of self s q]
    by (cases fr) (auto simp: serving_def ordinary_call_def split: if_splits)
next
  case (10 E t b q fr v obj s)
  then show ?thesis using assms
    by (cases fr) (auto simp: serving_def in_progress_simps commits_def)
qed (auto simp: serving_def ordinary_call_def counted_def get_hook_fn_def agrees_def
      in_progress_simps elim!: kernel_step_answersE serves_callerE split: if_splits)

end

lemma answers_match_snoc:
  assumes "answers_match qs vs rs" "canonical_ret (rax q) v = Some r"
  shows "answers_match (qs @ [q]) (vs @ [v]) (rs @ [r])"
  using assms by (auto simp: answers_match_def nth_append less_Suc_eq)

lemma effects_snoc:
  "length vs = length qs \<Longrightarrow>
   effects effect (zip (qs @ [q]) (vs @ [v])) self = effect (rax q) v (effects effect (zip qs vs) self)"
  by (simp add: effects_def)

text \<open>
  The state of the object after the calls completed so far, in the order of their completion, with the
  kernel's answers \<open>vs\<close>.
\<close>

definition serialised ::
  "'s syscall_hooks \<Rightarrow> (u64 \<Rightarrow> i64 \<Rightarrow> 's \<Rightarrow> 's) \<Rightarrow> 's \<Rightarrow> event list \<Rightarrow> i64 list \<Rightarrow> ('s, 'w) system \<Rightarrow> bool" where
  "serialised h effect self es vs S \<longleftrightarrow>
     answers_match (map fst (dispatched es)) vs (map snd (dispatched es)) \<and>
     (let self' = effects effect (zip (map fst (dispatched es)) vs) self in
        serving h self' (shared S) \<and> (\<forall>t. serves h effect self' (threads S t)))"

lemma serialised_length: "serialised h effect self es vs S \<Longrightarrow> length vs = length (dispatched es)"
  by (simp add: serialised_def answers_match_def)

context counting_object
begin

lemma serialised_step:
  assumes "serialised hooks effect self es vs S" "coherent S" "answering (kernel E)"
    "control_step E t (threads S t) (shared S) = Some (c, s)"
  shows "\<exists>vs'. serialised hooks effect self (es @ emits (threads S t)) vs'
    \<lparr>shared = s, threads = (threads S)(t := c)\<rparr>"
proof -
  let ?qs = "map fst (dispatched es)"
  define self' where "self' = effects effect (zip ?qs vs) self"
  have len: "length vs = length ?qs" using serialised_length [OF assms(1)] by simp
  have now: "answers_match ?qs vs (map snd (dispatched es))" "serving hooks self' (shared S)"
    "serves hooks effect self' (threads S u)" for u
    using assms(1) by (simp_all add: serialised_def self'_def Let_def)
  have "agrees t (threads S t) (shared S)" using assms(2) by (simp add: coherent_def)
  from serving_step [OF assms(4,3) now(2,3) this] show ?thesis
  proof (elim disjE exE conjE)
    assume "dispatched (emits (threads S t)) = []" "serving hooks self' s" "serves hooks effect self' c"
    with now show ?thesis by (intro exI [of _ vs]) (simp add: serialised_def self'_def [symmetric])
  next
    fix q r v
    assume d: "dispatched (emits (threads S t)) = [(q, r)]" "canonical_ret (rax q) v = Some r"
      and "holds (threads S t)" and s: "serving hooks (effect (rax q) v self') s"
        "serves hooks effect (effect (rax q) v self') c"
    have "serves hooks effect (effect (rax q) v self') (threads S u)" if "u \<noteq> t" for u
    proof (rule serves_outside [OF now(3)])
      show "\<not> holds (threads S u)"
        using holds_unique [OF assms(2) \<open>holds (threads S t)\<close>] that by auto
    qed
    with s d now(1) show ?thesis
      by (intro exI [of _ "vs @ [v]"])
        (simp add: serialised_def answers_match_snoc self'_def effects_snoc [OF len, simplified])
  qed
qed

lemma serialised_run:
  assumes "interleaving E (start_system s progs) es S" "answering (kernel E)" "at_rest s"
    "serving hooks self s" "\<And>t. ordinary (progs t)"
  shows "coherent S \<and> (\<exists>vs. serialised hooks effect self es vs S)"
  using assms(1)
proof induction
  case run_start
  have "serialised hooks effect self [] [] (start_system s progs)"
    using assms(4,5) by (simp add: serialised_def start_system_def)
  with start_coherent [OF assms(3)] assms(5) ordinary_bracketed show ?case by blast
next
  case (run_step es S t c s)
  then obtain vs where "coherent S" "serialised hooks effect self es vs S" by blast
  with serialised_step [OF _ _ assms(2) run_step.hyps(2)] coherent_step [OF _ run_step.hyps(2)]
  show ?case by blast
qed

end

subsection \<open>No call is lost\<close>

text \<open>The call of the program that a thread has made and the object has not completed.\<close>

primrec outer_call :: "syscall_regs \<Rightarrow> 's caller \<Rightarrow> syscall_regs" where
  "outer_call p (From_program k) = p"
| "outer_call p (From_code q fr c) = outer_call q fr"
| "outer_call p (From_trait q fr c) = outer_call q fr"

fun pending :: "'s thread \<Rightarrow> syscall_regs multiset" where
  "pending (b, Entered q fr) = {#outer_call q fr#}"
| "pending (b, Guarded q fr) = {#outer_call q fr#}"
| "pending (b, Trait_called q fr) = {#outer_call q fr#}"
| "pending (b, Locking q fr) = {#outer_call q fr#}"
| "pending (b, In_trait q fr c) = {#outer_call q fr#}"
| "pending c = {#}"

definition accounted :: "tid set \<Rightarrow> event list \<Rightarrow> ('s, 'w) system \<Rightarrow> bool" where
  "accounted T es S \<longleftrightarrow> (\<forall>t. t \<notin> T \<longrightarrow> threads S t = (False, Program Finished)) \<and>
     mset (called es) = mset (map fst (dispatched es)) + (\<Sum>t\<in>T. pending (threads S t))"

lemma pending_step:
  assumes "control_step E t c s = Some (c', s')" "serves h effect self c" "serving h self s"
    "agrees t c s" "answering (kernel E)"
  shows "mset (called (emits c)) + pending c = mset (map fst (dispatched (emits c))) + pending c'"
  using assms
proof (cases "(E, t, c, s)" rule: control_step.cases)
  case (1 E b t p s)
  then show ?thesis using assms by (cases p) (auto elim!: kernel_step_answersE)
qed (auto simp: agrees_def get_hook_fn_def serving_def elim!: kernel_step_answersE serves_callerE
      split: if_splits)

lemma accounted_step:
  assumes "accounted T es S" "finite T" "serialised h effect self es vs S" "coherent S"
    "answering (kernel E)" "control_step E t (threads S t) (shared S) = Some (c, s)"
  shows "accounted T (es @ emits (threads S t)) \<lparr>shared = s, threads = (threads S)(t := c)\<rparr>"
proof -
  have t: "t \<in> T" using assms(1,6) by (cases "t \<in> T") (auto simp: accounted_def)
  have step: "mset (called (emits (threads S t))) + pending (threads S t) =
      mset (map fst (dispatched (emits (threads S t)))) + pending c"
    using assms(3,4) by (intro pending_step [OF assms(6) _ _ _ assms(5)])
      (auto simp: serialised_def coherent_def Let_def)
  let ?others = "\<Sum>u\<in>T - {t}. pending (threads S u)"
  have before: "(\<Sum>u\<in>T. pending (threads S u)) = pending (threads S t) + ?others"
    using t assms(2) by (simp add: sum.remove)
  have "(\<Sum>u\<in>T. pending (((threads S)(t := c)) u)) =
      pending c + (\<Sum>u\<in>T - {t}. pending (((threads S)(t := c)) u))"
    using t assms(2) by (simp add: sum.remove)
  also have "\<dots> = pending c + ?others"
    by (intro arg_cong2 [where f = "(+)"] refl sum.cong) simp
  finally have after: "(\<Sum>u\<in>T. pending (((threads S)(t := c)) u)) = pending c + ?others" .
  have "mset (called es) + mset (called (emits (threads S t))) =
      mset (map fst (dispatched es)) + mset (map fst (dispatched (emits (threads S t)))) + (pending c + ?others)"
    using assms(1) step before by (simp add: accounted_def) (metis add.assoc add.commute)
  with assms(1) t after show ?thesis by (simp add: accounted_def)
qed

end
