(* ===== verification/HookTermination.thy ===== *)
theory HookTermination
  imports HookThreads
begin

section \<open>Runs end, and end well\<close>

text \<open>
  Hook code may make rewritten system calls itself, and a hook that the code of its own calls enters again
  would never end.  The guard of \<open>hook_entry\<close> prevents it: while a thread runs hook code its guard is set,
  so \<open>hook_entry\<close> is active for it at most twice, and the second activation goes to the kernel.  With this
  invariant every step of a thread descends in a well-founded order: it goes on in the code of the hook, to
  a later point of \<open>hook_entry\<close>, or on in its program.  So finitely many threads, whose programs and hooks
  are finite trees, make finitely many steps in any order.  With a registered object that always comes back
  and a kernel that answers, the threads that cannot step have finished: there is no deadlock.
\<close>

subsection \<open>The guard bounds the re-entrancy\<close>

text \<open>The activations of \<open>hook_entry\<close> that a thread is in, and those below the innermost that may run a hook.\<close>

fun activations :: "'s control \<Rightarrow> nat" where
  "activations (Entered q fr) = Suc (depth fr)"
| "activations (Guarded q fr) = Suc (depth fr)"
| "activations (In_code q fr c) = Suc (depth fr)"
| "activations (Trait_called q fr) = Suc (depth fr)"
| "activations (Locking q fr) = Suc (depth fr)"
| "activations (In_trait q fr c) = Suc (depth fr)"
| "activations (Returned q fr v) = Suc (depth fr)"
| "activations c = 0"

fun past_guard :: "'s control \<Rightarrow> nat" where
  "past_guard (Entered q fr) = depth fr"
| "past_guard c = activations c"

text \<open>One activation at most is past the guard, and while one is, the guard of the thread is set.\<close>

definition guard_holds :: "tid \<Rightarrow> 's thread \<Rightarrow> ('s, 'w) hook_state \<Rightarrow> bool" where
  "guard_holds t c s \<longleftrightarrow> past_guard (snd c) \<le> 1 \<and> (guarded_control (snd c) \<longrightarrow> in_hook s t)"

definition guards_hold :: "('s, 'w) system \<Rightarrow> bool" where
  "guards_hold S \<longleftrightarrow> (\<forall>t. guard_holds t (threads S t) (shared S))"

lemma past_guard_resume: "past_guard (resume fr v) = depth fr"
  by (cases fr) auto

lemma activations_bound: "activations c \<le> Suc (past_guard c)"
  by (cases c) auto

lemma program_step_guard_holds:
  assumes "program_step E t b p s = Some (c, s')"
  shows "guard_holds t c s'"
  using assms by (cases p) (auto simp: guard_holds_def elim!: kernel_step_SomeE split: if_splits)

lemma control_step_guard_holds:
  assumes "control_step E t c s = Some (c', s')" "guard_holds t c s"
  shows "guard_holds t c' s'"
  using assms
proof (cases "(E, t, c, s)" rule: control_step.cases)
  case (1 E t b p s)
  with assms program_step_guard_holds show ?thesis by (metis Pair_inject control_step.simps(1))
qed (auto simp: guard_holds_def counted_def past_guard_resume guarded_resume
    elim!: kernel_step_SomeE split: if_splits hook_fn.splits)

lemma guards_hold_step:
  assumes "control_step E t (threads S t) (shared S) = Some (c, s)" "guards_hold S"
  shows "guards_hold \<lparr>shared = s, threads = (threads S)(t := c)\<rparr>"
proof -
  have "guard_holds t c s"
    using assms by (intro control_step_guard_holds [OF assms(1)]) (simp add: guards_hold_def)
  moreover have "guard_holds u (threads S u) s" if "u \<noteq> t" for u
    using assms(2) control_step_guards [OF assms(1) that] by (simp add: guards_hold_def guard_holds_def)
  ultimately show ?thesis by (simp add: guards_hold_def)
qed

lemma start_guards_hold: "guards_hold (start_system s progs)"
  by (simp add: guards_hold_def guard_holds_def start_system_def)

lemma interleaving_guards_hold: "interleaving E (start_system s progs) es S \<Longrightarrow> guards_hold S"
  by (induction rule: interleaving.induct) (simp_all add: start_guards_hold guards_hold_step)

lemma activations_at_most_two:
  assumes "interleaving E (start_system s progs) es S"
  shows "activations (snd (threads S t)) \<le> 2"
proof -
  have "past_guard (snd (threads S t)) \<le> 1"
    using interleaving_guards_hold [OF assms] by (simp add: guards_hold_def guard_holds_def)
  with activations_bound [of "snd (threads S t)"] show ?thesis by simp
qed

subsection \<open>The order on threads\<close>

inductive_set sub_prog :: "('s prog \<times> 's prog) set" where
  sub_call: "(k v, Call q k) \<in> sub_prog"
| sub_bypass: "(k v, Bypass q k) \<in> sub_prog"
| sub_acquire: "(k prev, Acquire k) \<in> sub_prog"
| sub_assign: "(p, Assign h self p) \<in> sub_prog"
| sub_release: "(p, Release p) \<in> sub_prog"
| sub_install: "(p, Install fn p) \<in> sub_prog"

inductive_set sub_act :: "('a act \<times> 'a act) set" where
  sub_raw: "(k v, Raw q k) \<in> sub_act"
| sub_site: "(k v, Site q k) \<in> sub_act"

inductive_cases sub_progE: "(p', p) \<in> sub_prog"
inductive_cases sub_actE: "(c', c) \<in> sub_act"

lemma wf_sub_prog [simp]: "wf sub_prog"
proof (rule wfUNIVI)
  fix P :: "'s prog \<Rightarrow> bool" and p
  assume "\<forall>x. (\<forall>y. (y, x) \<in> sub_prog \<longrightarrow> P y) \<longrightarrow> P x"
  then have step: "P x" if "\<And>y. (y, x) \<in> sub_prog \<Longrightarrow> P y" for x using that by blast
  show "P p" by (induction p; rule step; erule sub_progE) auto
qed

lemma wf_sub_act [simp]: "wf sub_act"
proof (rule wfUNIVI)
  fix P :: "'a act \<Rightarrow> bool" and c
  assume "\<forall>x. (\<forall>y. (y, x) \<in> sub_act \<longrightarrow> P y) \<longrightarrow> P x"
  then have step: "P x" if "\<And>y. (y, x) \<in> sub_act \<Longrightarrow> P y" for x using that by blast
  show "P c" by (induction c; rule step; erule sub_actE) auto
qed

text \<open>
  The program a control state belongs to, its place in the outer \<open>hook_entry\<close>, and the code that is left;
  of a nested call, the code from its site on.
\<close>

primrec outer_prog :: "syscall_regs \<Rightarrow> 's caller \<Rightarrow> 's prog" where
  "outer_prog p (From_program k) = Call p k"
| "outer_prog p (From_code q fr c) = outer_prog q fr"
| "outer_prog p (From_trait q fr c) = outer_prog q fr"

fun base :: "'s control \<Rightarrow> 's prog" where
  "base (Program p) = p"
| "base (Entered q fr) = outer_prog q fr"
| "base (Guarded q fr) = outer_prog q fr"
| "base (In_code q fr c) = outer_prog q fr"
| "base (Trait_called q fr) = outer_prog q fr"
| "base (Locking q fr) = outer_prog q fr"
| "base (In_trait q fr c) = outer_prog q fr"
| "base (Returned q fr v) = outer_prog q fr"
| "base (Gone g h) = Finished"
| "base Panicked = Finished"

fun place :: "'s control \<Rightarrow> nat" where
  "place (Program p) = 7"
| "place (Entered q fr) = (if depth fr = 0 then 6 else 2)"
| "place (Guarded q fr) = 5"
| "place (Trait_called q fr) = 4"
| "place (Locking q fr) = 3"
| "place (In_code q fr c) = 2"
| "place (In_trait q fr c) = 2"
| "place (Returned q fr v) = 1"
| "place (Gone g h) = 0"
| "place Panicked = 0"

fun code_left :: "'s control \<Rightarrow> (i64 \<times> syscall_regs) act" where
  "code_left (In_code q fr c) = c"
| "code_left (Entered p (From_code q fr c)) = Site p c"
| "code_left _ = Unreachable"

fun trait_left :: "'s control \<Rightarrow> (i64 \<times> ('s syscall_hooks \<times> 's) option) act" where
  "trait_left (In_trait q fr c) = c"
| "trait_left (Entered p (From_trait q fr c)) = Site p c"
| "trait_left _ = Unreachable"

fun entering :: "'s control \<Rightarrow> nat" where
  "entering (Entered q fr) = 0"
| "entering _ = 1"

definition thread_order :: "('s thread \<times> 's thread) set" where
  "thread_order = inv_image
     (less_than <*lex*> sub_prog <*lex*> less_than <*lex*> sub_act <*lex*> sub_act <*lex*> less_than)
     (\<lambda>(b, c). (if place c = 0 then 0 else 1, base c, place c, code_left c, trait_left c, entering c))"

lemma wf_thread_order: "wf thread_order"
  by (simp add: thread_order_def wf_lex_prod)

lemmas sub_intros = sub_prog.intros sub_act.intros

lemma program_step_descends:
  "program_step E t b p s = Some (c, s') \<Longrightarrow> (c, (b, Program p)) \<in> thread_order"
  by (cases p) (auto simp: thread_order_def intro: sub_intros elim!: kernel_step_SomeE split: if_splits)

text \<open>
  A nested call returns to the hook code behind its site.  That it does not start the hook again is where
  the guard is needed.
\<close>

lemma entered_descends:
  assumes "control_step E t (b, Entered q fr) s = Some (c', s')" "guard_holds t (b, Entered q fr) s"
  shows "(c', (b, Entered q fr)) \<in> thread_order"
  using assms by (cases fr)
    (auto simp: thread_order_def guard_holds_def intro: sub_intros elim!: kernel_step_SomeE split: if_splits)

lemma control_step_descends:
  assumes "control_step E t c s = Some (c', s')" "guard_holds t c s"
  shows "(c', c) \<in> thread_order"
  using assms
proof (cases "(E, t, c, s)" rule: control_step.cases)
  case (1 E t b p s)
  with assms program_step_descends show ?thesis by fastforce
next
  case (2 E t b q fr s)
  with assms entered_descends show ?thesis by (metis Pair_inject)
qed (auto simp: thread_order_def guard_holds_def intro: sub_intros elim!: kernel_step_SomeE
    split: if_splits hook_fn.splits)

subsection \<open>Termination\<close>

definition moves :: "'w hook_env \<Rightarrow> ('s, 'w) system \<Rightarrow> ('s, 'w) system \<Rightarrow> bool" where
  "moves E S S' \<longleftrightarrow> (\<exists>t c s. control_step E t (threads S t) (shared S) = Some (c, s) \<and>
     S' = \<lparr>shared = s, threads = (threads S)(t := c)\<rparr>)"

definition idle_outside :: "tid set \<Rightarrow> ('s, 'w) system \<Rightarrow> bool" where
  "idle_outside T S \<longleftrightarrow> (\<forall>t. t \<notin> T \<longrightarrow> threads S t = (False, Program Finished))"

lemma moves_descends:
  assumes "moves E S S'" "idle_outside T S" "finite T" "guards_hold S"
  shows "idle_outside T S' \<and> guards_hold S' \<and>
    (image_mset (threads S') (mset_set T), image_mset (threads S) (mset_set T)) \<in> mult1 thread_order"
proof -
  obtain t c s where step: "control_step E t (threads S t) (shared S) = Some (c, s)"
    and S': "S' = \<lparr>shared = s, threads = (threads S)(t := c)\<rparr>"
    using assms(1) by (auto simp: moves_def)
  have t: "t \<in> T" using assms(2) step by (cases "t \<in> T") (auto simp: idle_outside_def)
  then have T: "mset_set T = add_mset t (mset_set (T - {t}))"
    using assms(3) by (simp add: mset_set.remove)
  have "image_mset (threads S') (mset_set (T - {t})) = image_mset (threads S) (mset_set (T - {t}))"
    using assms(3) by (intro image_mset_cong) (auto simp: S')
  with T have "image_mset (threads S') (mset_set T) =
      image_mset (threads S) (mset_set (T - {t})) + {#c#}"
    by (simp add: S')
  moreover have "image_mset (threads S) (mset_set T) =
      add_mset (threads S t) (image_mset (threads S) (mset_set (T - {t})))"
    using T by simp
  ultimately have "(image_mset (threads S') (mset_set T), image_mset (threads S) (mset_set T))
      \<in> mult1 thread_order"
    using control_step_descends [OF step] assms(4)
    by (intro mult1I [where K = "{#c#}"]) (auto simp: guards_hold_def)
  moreover have "guards_hold S'" using guards_hold_step [OF step assms(4)] S' by simp
  moreover have "idle_outside T S'" using assms(2) t by (auto simp: idle_outside_def S')
  ultimately show ?thesis by blast
qed

lemma moves_wf: "finite T \<Longrightarrow> wf {(S', S). moves E S S' \<and> idle_outside T S \<and> guards_hold S}"
  by (rule wf_subset [OF wf_inv_image [OF wf_mult1 [OF wf_thread_order],
          where f = "\<lambda>S. image_mset (threads S) (mset_set T)"]])
    (auto dest: moves_descends)

lemma no_infinite_run:
  assumes "finite {t. progs t \<noteq> Finished}"
    and "f 0 = start_system s progs" and "\<And>n. moves E (f n) (f (Suc n))"
  shows False
proof -
  let ?T = "{t. progs t \<noteq> Finished}"
  have "idle_outside ?T (f n) \<and> guards_hold (f n)" for n
  proof (induction n)
    case 0
    then show ?case using start_guards_hold by (auto simp: assms(2) idle_outside_def start_system_def)
  next
    case (Suc n)
    with moves_descends [OF assms(3) _ assms(1)] show ?case by blast
  qed
  with assms(3) have "\<forall>n. (f (Suc n), f n) \<in> {(S', S). moves E S S' \<and> idle_outside ?T S \<and> guards_hold S}"
    by blast
  with moves_wf [OF assms(1)] show False unfolding wf_iff_no_infinite_down_chain by blast
qed

text \<open>
  C15: every run ends, because of the guard.  For finitely many threads, whatever programs they run,
  whatever hook is installed or registered meanwhile (one whose own code makes rewritten system calls
  too) and whatever the kernel answers, \<open>hook\_entry\<close> is active at most twice in any thread, and there
  is no infinite interleaving.  A nested call goes through \<open>hook\_entry\<close> again, and would start the same
  hook again and again if the test of \<open>IN\_HOOK\<close> did not send it to the kernel.
\<close>

theorem threads_terminate:
  assumes "finite {t. progs t \<noteq> Finished}"
  shows "\<not> (\<exists>f. f 0 = start_system s progs \<and> (\<forall>n. moves E (f n) (f (Suc n)))) \<and>
    (interleaving E (start_system s progs) es S \<longrightarrow> activations (snd (threads S t)) \<le> 2)"
  using no_infinite_run [OF assms] activations_at_most_two by blast

definition four_calls :: "tid \<Rightarrow> 's prog" where
  "four_calls t = (if t = 1 \<or> t = 2
     then Call (syscall_regs_new 1 1 0x5000 7 0 0 0) (\<lambda>v. Call (syscall_regs_new 39 0 0 0 0 0 0) (\<lambda>v. Finished))
     else Finished)"

lemma four_calls_finite: "finite {t. (four_calls t :: 's prog) \<noteq> Finished}"
  by (rule finite_subset [of _ "{1, 2}"]) (auto simp: four_calls_def)

text \<open>The tracing hook prints, by a rewritten call: two activations are reached.\<close>

lemma run_into_nested:
  assumes "interleaving E S0 es S" "threads S t = (b, Program (Call q k))" "\<not> in_hook (shared S) t"
    "hook_function (shared S) = Hook_at a" "code_of E a q = Site p c"
  shows "\<exists>es' S'. interleaving E S0 es' S' \<and>
    threads S' t = (b, Entered p (From_code q (From_program k) c))"
proof -
  let ?s = "(counted (shared S))\<lparr>in_hook := (in_hook (shared S))(t := True)\<rparr>"
  let ?S = "\<lambda>c s. \<lparr>shared = s, threads = (threads S)(t := (b, c))\<rparr>"
  have "interleaving E S0 (es @ [Called q]) (?S (Entered q (From_program k)) (counted (shared S)))"
    by (rule run_to [OF assms(1), of t]) (simp_all add: assms(2))
  then have "interleaving E S0 (es @ [Called q]) (?S (Guarded q (From_program k)) ?s)"
    by (rule run_to [of _ _ _ _ t]) (simp_all add: assms(3) counted_def)
  then have "interleaving E S0 (es @ [Called q]) (?S (In_code q (From_program k) (Site p c)) ?s)"
    by (rule run_to [of _ _ _ _ t]) (simp_all add: assms(4,5) counted_def get_hook_fn_def)
  then have "interleaving E S0 (es @ [Called q])
      (?S (Entered p (From_code q (From_program k) c)) (counted ?s))"
    by (rule run_to [of _ _ _ _ t]) simp_all
  then show ?thesis by fastforce
qed

definition traced_state :: "(unit, syscall_regs list) hook_state" where
  "traced_state = (initial_state [])\<lparr>hook_function := Hook_at 0x1000\<rparr>"

theorem threads_terminate_witness:
  "\<not> (\<exists>f. f 0 = start_system traced_state four_calls \<and> (\<forall>n. moves tracing_env (f n) (f (Suc n)))) \<and>
   (\<exists>es S. interleaving tracing_env (start_system traced_state four_calls) es S \<and>
      activations (snd (threads S 1)) = 2 \<and> activations (snd (threads S 2)) \<le> 2)"
proof -
  let ?q = "syscall_regs_new 1 1 0x5000 7 0 0 0"
  let ?k = "\<lambda>v. Call (syscall_regs_new 39 0 0 0 0 0 0) (\<lambda>v. Finished)"
  have "\<exists>p c. code_of tracing_env 0x1000 ?q = Site p c"
    by (simp add: tracing_env_def trace_hook_def eprint_once_def del: lit_simps)
  then obtain p c where code: "code_of tracing_env 0x1000 ?q = Site p c" by blast
  let ?S0 = "start_system traced_state four_calls"
  have "threads ?S0 1 = (False, Program (Call ?q ?k))" "\<not> in_hook (shared ?S0) 1"
    "hook_function (shared ?S0) = Hook_at 0x1000"
    by (simp_all add: start_system_def four_calls_def traced_state_def initial_state_def)
  from run_into_nested [OF run_start this code] obtain es S where run: "interleaving tracing_env (start_system traced_state four_calls) es S"
    and in_1: "threads S 1 = (False, Entered p (From_code ?q (From_program ?k) c))"
    by blast
  note ends = threads_terminate [OF four_calls_finite]
  from in_1 have "activations (snd (threads S 1)) = 2" by simp
  with run ends [where es = es and S = S and t = 2] show ?thesis by blast
qed

text \<open>So every run can be continued to an end.\<close>

lemma run_to_end:
  assumes "finite T" "interleaving E S0 es S" "idle_outside T S" "guards_hold S"
  shows "\<exists>es' S'. interleaving E S0 (es @ es') S' \<and> (\<forall>t. \<not> can_step E t S')"
  using assms(2-4)
proof (induction S arbitrary: es rule: wf_induct_rule [OF moves_wf [OF assms(1), of E]])
  case (1 S)
  show ?case
  proof (cases "\<forall>t. \<not> can_step E t S")
    case True
    with 1 show ?thesis by (intro exI [of _ "[]"] exI [of _ S]) simp
  next
    case False
    then obtain t c s where step: "control_step E t (threads S t) (shared S) = Some (c, s)"
      by (auto simp: can_step_def)
    let ?S = "\<lparr>shared = s, threads = (threads S)(t := c)\<rparr>"
    have moves: "moves E S ?S" unfolding moves_def using step by blast
    with moves_descends [OF moves 1(3) assms(1) 1(4)] 1(1) [of ?S "es @ emits (threads S t)"]
      run_step [OF 1(2) step] 1(3,4) show ?thesis by fastforce
  qed
qed

subsection \<open>No deadlock\<close>

context counting_object
begin

lemma serves_progress:
  assumes "serves hooks effect self c" "serving hooks self s" "answering (kernel E)"
    "control_step E t c s = None"
  shows "c = (False, Program Finished) \<or>
    (\<exists>q k. c = (False, Locking q (From_program k)) \<and> trait_lock s \<noteq> None)"
  using assms
proof (cases "(E, t, c, s)" rule: control_step.cases)
  case (1 E t b p s)
  then show ?thesis using assms
    by (cases p) (auto simp: kernel_step_def answering_def split: prod.splits option.splits)
next
  case (9 E t b q fr s)
  then show ?thesis using assms by (cases fr) (auto split: if_splits)
next
  case (13 E t b q fr s)
  then show ?thesis using assms by (cases fr) (auto simp: in_progress_simps)
qed (auto simp: kernel_step_def answering_def get_hook_fn_def serving_def
      split: prod.splits option.splits if_splits)

lemma stuck_is_finished:
  assumes "serialised hooks effect self es vs S" "coherent S" "answering (kernel E)"
    "\<And>t. \<not> can_step E t S"
  shows "threads S t = (False, Program Finished)"
proof -
  define self' where "self' = effects effect (zip (map fst (dispatched es)) vs) self"
  have now: "serving hooks self' (shared S)" "serves hooks effect self' (threads S u)" for u
    using assms(1) by (simp_all add: serialised_def self'_def Let_def)
  have stuck: "control_step E u (threads S u) (shared S) = None" for u
    using assms(4) unfolding can_step_def by blast
  have "trait_lock (shared S) = None"
  proof (rule ccontr)
    assume "trait_lock (shared S) \<noteq> None"
    then obtain u where "trait_lock (shared S) = Some u" by auto
    with assms(2) have "holds (threads S u)" unfolding coherent_def agrees_def by blast
    with serves_progress [OF now(2,1) assms(3) stuck, of u] show False by auto
  qed
  with serves_progress [OF now(2,1) assms(3) stuck, of t] show ?thesis by auto
qed

lemma run_finishes:
  assumes "interleaving E (start_system s progs) es S" "answering (kernel E)" "at_rest s"
    "serving hooks self s" "\<And>t. ordinary (progs t)" "finite {t. progs t \<noteq> Finished}"
  shows "(\<exists>es' S'. interleaving E (start_system s progs) (es @ es') S' \<and> (\<forall>t. \<not> can_step E t S')) \<and>
    ((\<forall>t. \<not> can_step E t S) \<longrightarrow> (\<forall>t. threads S t = (False, Program Finished)) \<and> at_rest (shared S) \<and>
       mset (map fst (dispatched es)) = mset (called es))"
proof -
  let ?T = "{t. progs t \<noteq> Finished}"
  have acc: "accounted ?T es S"
    using assms(1)
  proof induction
    case run_start
    show ?case by (auto simp: accounted_def start_system_def sum.neutral)
  next
    case (run_step es S t c s')
    from serialised_run [OF run_step.hyps(1) assms(2-5)] obtain vs
      where "coherent S" "serialised hooks effect self es vs S" by blast
    with accounted_step [OF run_step.IH assms(6) _ _ assms(2) run_step.hyps(2)] show ?case by blast
  qed
  then have "idle_outside ?T S" by (simp add: accounted_def idle_outside_def)
  note goes_on = run_to_end [OF assms(6,1) this interleaving_guards_hold [OF assms(1)]]
  from serialised_run [OF assms(1-5)] obtain vs
    where S: "coherent S" "serialised hooks effect self es vs S" by blast
  have "(\<forall>t. threads S t = (False, Program Finished)) \<and> at_rest (shared S) \<and>
      mset (map fst (dispatched es)) = mset (called es)" if "\<forall>t. \<not> can_step E t S"
  proof -
    have fin: "threads S t = (False, Program Finished)" for t
      using stuck_is_finished [OF S(2,1) assms(2)] that by blast
    then have "\<not> in_hook (shared S) t" "trait_lock (shared S) \<noteq> Some t" for t
      using S(1) by (simp_all add: coherent_def agrees_def)
    then have "at_rest (shared S)" by (auto simp: at_rest_def)
    with fin acc show ?thesis by (simp add: accounted_def)
  qed
  with goes_on show ?thesis by blast
qed

end

lemma calls_of_mset: "mset qs = mset ps \<Longrightarrow> calls_of nr qs = calls_of nr ps"
  unfolding calls_of_def by (metis mset_filter size_mset)

text \<open>
  C13: no deadlock.  While an object serves the trait hook whose methods always come back (the
  provided methods, \<open>LoggingHook\<close>, \<open>StatsHook\<close>, \<open>StatisticsHook\<close>), with a kernel that answers and
  finitely many threads that do not exit and register nothing: every run can be continued to its end,
  and at its end every thread has finished, every guard and the mutex are free, and the object has
  served exactly the calls that were made.
\<close>

theorem threads_finish:
  assumes "counting_object h effect" and "answering (kernel E)" and "at_rest s"
    and "serving h self s" and "\<And>t. ordinary (progs t)" and "finite {t. progs t \<noteq> Finished}"
    and "interleaving E (start_system s progs) es S"
  shows "(\<exists>es' S'. interleaving E (start_system s progs) (es @ es') S' \<and> (\<forall>t. \<not> can_step E t S')) \<and>
    ((\<forall>t. \<not> can_step E t S) \<longrightarrow> (\<forall>t. threads S t = (False, Program Finished)) \<and> at_rest (shared S) \<and>
       mset (map fst (dispatched es)) = mset (called es))"
  using counting_object.run_finishes [OF assms(1,7,2-6)] .

lemma four_calls_ordinary: "ordinary (four_calls t)"
  by (simp add: four_calls_def syscall_regs_new_def)

definition logging_state :: "(logging_counters, syscall_regs list) hook_state" where
  "logging_state = (initial_state [])\<lparr>hook_function := Trait_based_hook,
     trait_object := Some (logging_hook, \<lparr>log_write_count = 0, log_read_count = 0, log_open_count = 0,
       log_getpid_count = 0\<rparr>)\<rparr>"

lemma logging_state_serves:
  "at_rest logging_state"
  "serving logging_hook \<lparr>log_write_count = 0, log_read_count = 0, log_open_count = 0,
     log_getpid_count = 0\<rparr> logging_state"
  by (simp_all add: logging_state_def at_rest_def serving_def initial_state_def)

theorem threads_finish_witness:
  "\<exists>es S. interleaving tracing_env (start_system logging_state four_calls) es S \<and>
     (\<forall>t. \<not> can_step tracing_env t S)"
  using threads_finish [OF logging.counting_object_axioms tracing_env_answers logging_state_serves
      four_calls_ordinary four_calls_finite run_start] by simp

text \<open>
  C14: no update is lost.  With \<open>StatsHook\<close> serving, in every state that the threads can reach in any
  order each counter has grown by exactly the number of its calls that have been served, and when no
  thread can step any more by the number of its calls that all threads have made (modulo 2^64).
\<close>

theorem concurrent_stats_counts:
  assumes "\<And>m. comes_back (eprint m)" and "answering (kernel E)" and "at_rest s"
    and "serving (stats_hook eprint) c s" and "\<And>t. ordinary (progs t)"
    and "finite {t. progs t \<noteq> Finished}" and "interleaving E (start_system s progs) es S"
    and "qs = map fst (dispatched es) \<or> (\<forall>t. \<not> can_step E t S) \<and> qs = called es"
  shows "trait_object (shared S) = Some (stats_hook eprint,
    \<lparr>WRITE_COUNT = WRITE_COUNT c + calls_of 1 qs, READ_COUNT = READ_COUNT c + calls_of 0 qs,
     OPEN_COUNT = OPEN_COUNT c + calls_of 2 qs, GETPID_COUNT = GETPID_COUNT c + calls_of 39 qs\<rparr>)"
proof -
  have p: "counting_object (stats_hook eprint) stats_effect"
    by (rule stderr_printer.stats_object [OF printer [OF assms(1)]])
  obtain vs where "serialised (stats_hook eprint) stats_effect c es vs S"
    using counting_object.serialised_run [OF p assms(7,2-5)] by blast
  then have "trait_object (shared S) = Some (stats_hook eprint,
      effects stats_effect (zip (map fst (dispatched es)) vs) c)" "length vs = length (dispatched es)"
    by (simp_all add: serialised_def serving_def Let_def serialised_length)
  moreover have "mset (map fst (dispatched es)) = mset qs"
    using assms(8) counting_object.run_finishes [OF p assms(7,2-6)] by auto
  ultimately show ?thesis by (simp add: stats_effects calls_of_mset [of "map fst (dispatched es)" qs])
qed

lemma stats_state_serves:
  "at_rest stats_state" "serving (stats_hook (eprint_once 0x9000)) stats_counters_zero stats_state"
  using stats_state_ready by (simp_all add: stats_state_def at_rest_def serving_def initial_state_def)

theorem concurrent_stats_counts_witness:
  "\<exists>es S. interleaving tracing_env (start_system stats_state four_calls) es S \<and>
     (\<forall>t. \<not> can_step tracing_env t S) \<and>
     trait_object (shared S) = Some (stats_hook (eprint_once 0x9000),
       \<lparr>WRITE_COUNT = calls_of 1 (called es), READ_COUNT = calls_of 0 (called es),
        OPEN_COUNT = calls_of 2 (called es), GETPID_COUNT = calls_of 39 (called es)\<rparr>)"
proof -
  have "idle_outside {t. (four_calls t :: stats_counters prog) \<noteq> Finished} (start_system stats_state four_calls)"
    by (simp add: idle_outside_def start_system_def)
  from run_to_end [OF four_calls_finite run_start this start_guards_hold, of tracing_env] obtain es S
    where run: "interleaving tracing_env (start_system stats_state four_calls) es S"
      and stuck: "\<forall>t. \<not> can_step tracing_env t S" by auto
  have "called es = map fst (dispatched es) \<or> (\<forall>t. \<not> can_step tracing_env t S) \<and> called es = called es"
    using stuck by simp
  from concurrent_stats_counts [where eprint = "eprint_once 0x9000", OF eprint_once_prints
      tracing_env_answers stats_state_serves four_calls_ordinary four_calls_finite run this] run stuck
  show ?thesis by (intro exI [of _ es] exI [of _ S]) (simp add: stats_counters_zero_def)
qed

end
