(* ===== verification/HookStatics.thy ===== *)
theory HookStatics
  imports HookThreads
begin

section \<open>The statics of the hook API between calls\<close>

text \<open>
  Which states the statics of \<open>zpoline\_hook\_api\<close> can be in between the calls of a program: started as
  the crate initialises them and changed by its public operations, each run to its return.  The theorem
  is the hypothesis under which the properties of the trait hook are stated.
\<close>

text \<open>The trait hook is installed by registration only, or by a library that has registered an object
  (\<open>get_trait_dispatch_hook\<close>).\<close>

inductive statics_reachable :: "'w hook_env \<Rightarrow> ('s, 'w) hook_state \<Rightarrow> bool" for E where
  reach_initial: "statics_reachable E (initial_state w)"
| reach_call: "statics_reachable E s \<Longrightarrow> hook_entry 2 E t q s = Value r s' \<Longrightarrow> statics_reachable E s'"
| reach_bypass: "statics_reachable E s \<Longrightarrow>
    run_act (raw_call (kernel E)) (site_call E t) (raw_syscall_bypass nr a b c d e f) s = Value v s' \<Longrightarrow>
    statics_reachable E s'"
| reach_register: "statics_reachable E s \<Longrightarrow>
    register_syscall_hooks E alloc dealloc t h self s = Value () s' \<Longrightarrow> statics_reachable E s'"
| reach_init: "statics_reachable E s \<Longrightarrow> fn = get_trait_dispatch_hook \<longrightarrow> trait_object s \<noteq> None \<Longrightarrow>
    statics_reachable E (hook_init fn s)"

definition sound_statics :: "('s, 'w) hook_state \<Rightarrow> bool" where
  "sound_statics s \<longleftrightarrow> at_rest s \<and> \<not> trait_poisoned s \<and>
     (hook_function s = Trait_based_hook \<longrightarrow> trait_object s \<noteq> None)"

text \<open>What the code of hooks and allocators keeps: everything but that they may not lose the object.\<close>

definition same_rest :: "('s, 'w) hook_state \<Rightarrow> ('s, 'w) hook_state \<Rightarrow> bool" where
  "same_rest s s' \<longleftrightarrow> in_hook s' = in_hook s \<and> trait_lock s' = trait_lock s \<and>
     trait_poisoned s' = trait_poisoned s \<and> hook_function s' = hook_function s \<and>
     (trait_object s \<noteq> None \<longrightarrow> trait_object s' \<noteq> None)"

lemma same_rest_refl [simp]: "same_rest s s"
  by (simp add: same_rest_def)

lemma same_rest_trans: "same_rest s s' \<Longrightarrow> same_rest s' s'' \<Longrightarrow> same_rest s s''"
  by (simp add: same_rest_def)

lemma quiet_same_rest: "quiet s s' \<Longrightarrow> same_rest s s'"
  by (simp add: same_rest_def quiet_fields)

lemma hook_run_same_rest: "hook_run E c s = Value a s' \<Longrightarrow> same_rest s s'"
  using hook_run_settled [of s E c] by (simp add: quiet_same_rest)

lemma trait_based_hook_object:
  assumes "trait_based_hook (kernel E) (nested_call E) t q s = Value r s'" "trait_object s \<noteq> None"
  shows "trait_object s' \<noteq> None"
proof -
  let ?s = "s\<lparr>trait_hook_call_count := trait_hook_call_count s + 1\<rparr>"
  have free: "trait_lock s = None"
    using assms(1) by (auto simp: trait_based_hook_def Let_def split: if_splits)
  obtain h self where obj: "trait_object s = Some (h, self)" using assms(2) by auto
  show ?thesis
  proof (cases "trait_poisoned s")
    case True
    with assms(1) free obj show ?thesis
      by (auto simp: trait_based_hook_def Let_def raw_call_def split: prod.splits option.splits)
  next
    case False
    with assms(1) free obj show ?thesis
      by (cases "hook_run E (dispatch_syscall_hooks h q self) (?s\<lparr>trait_lock := Some t\<rparr>)")
        (auto simp: trait_based_hook_def Let_def split: prod.splits)
  qed
qed

lemma call_hook_object:
  assumes "call_hook E (nested_call E) t fn q s = Value r s'" "trait_object s \<noteq> None"
  shows "trait_object s' \<noteq> None"
  using assms by (cases fn)
    (auto simp: call_hook_def trait_based_hook_object dest!: hook_run_same_rest simp: same_rest_def)

lemma hook_entry_object:
  assumes "hook_entry 2 E t q s = Value r s'" "trait_object s \<noteq> None"
  shows "trait_object s' \<noteq> None"
proof (cases "in_hook s t")
  case True
  with assms nested_call_settled [of s E q] show ?thesis
    by (cases "nested_call E q s")
      (auto simp: numeral_2_eq_2 hook_entry_nested quiet_fields simp del: hook_entry.simps)
next
  case False
  with assms obtain s1 where "guarded_hook E t q s = Value r s1"
    and "s' = s1\<lparr>in_hook := (in_hook s1)(t := False)\<rparr>"
    by (cases "guarded_hook E t q s")
      (auto simp: numeral_2_eq_2 hook_entry_outer simp del: hook_entry.simps)
  then have "call_hook E (nested_call E) t (hook_function s) q (s\<lparr>hook_entry_call_count :=
      hook_entry_call_count s + 1, in_hook := (in_hook s)(t := True)\<rparr>) = Value r s1"
    by (simp add: guarded_hook_def)
  from call_hook_object [OF this] assms(2) \<open>s' = _\<close> show ?thesis by simp
qed

lemma hook_entry_same_rest: "hook_entry 2 E t q s = Value r s' \<Longrightarrow> same_rest s s'"
  unfolding same_rest_def using hook_entry_clean hook_entry_object by blast

lemma site_call_same_rest:
  assumes "site_call E t q s = Value v s'"
  shows "same_rest s s'"
  using assms unfolding site_call_def
  by (cases "hook_entry 2 E t q s")
    (auto simp: site_result_def simp del: hook_entry.simps dest: hook_entry_same_rest)

text \<open>Code of the program itself, outside hooks: allocating, bypassing.\<close>

lemma program_code_same_rest:
  "run_act (raw_call (kernel E)) (site_call E t) c s = Value a s' \<Longrightarrow> same_rest s s'"
proof (induction c arbitrary: s)
  case (Raw q k)
  then obtain v s1 where "raw_call (kernel E) q s = Value v s1"
    "run_act (raw_call (kernel E)) (site_call E t) (k v) s1 = Value a s'"
    by (cases "raw_call (kernel E) q s") auto
  with Raw.IH [OF rangeI] raw_call_settled [of s "kernel E" q] show ?case
    by (auto intro: same_rest_trans quiet_same_rest)
next
  case (Site q k)
  then obtain v s1 where "site_call E t q s = Value v s1"
    "run_act (raw_call (kernel E)) (site_call E t) (k v) s1 = Value a s'"
    by (cases "site_call E t q s") auto
  with Site.IH [OF rangeI] show ?case
    by (auto intro: same_rest_trans site_call_same_rest)
qed simp_all

lemma register_sound:
  assumes "register_syscall_hooks E alloc dealloc t h self s = Value () s'" "sound_statics s"
  shows "sound_statics s' \<and> hook_function s' = Trait_based_hook \<and> trait_object s' = Some (h, self)"
proof -
  let ?run = "run_act (raw_call (kernel E)) (site_call E t)"
  let ?drop = "\<lambda>s1. if trait_object s = None then Value () s1 else ?run dealloc s1"
  have "trait_lock s = None" "\<not> trait_poisoned s" "\<And>u. \<not> in_hook s u"
    using assms(2) by (simp_all add: sound_statics_def at_rest_def)
  note start = this
  obtain s1 where s1: "?run alloc (s\<lparr>trait_lock := Some t\<rparr>) = Value () s1"
    using assms(1) start by (cases "?run alloc (s\<lparr>trait_lock := Some t\<rparr>)")
      (auto simp: register_syscall_hooks_def Let_def)
  with assms(1) start obtain s2 where s2: "?drop s1 = Value () s2"
    by (cases "?drop s1") (auto simp: register_syscall_hooks_def Let_def)
  have s': "s' = hook_init Trait_based_hook (s2\<lparr>trait_object := Some (h, self), trait_lock := None\<rparr>)"
    using assms(1) start s1 s2 by (simp add: register_syscall_hooks_def Let_def)
  have "same_rest s1 s2"
    using s2 program_code_same_rest [of E t dealloc s1] by (auto split: if_splits)
  with program_code_same_rest [OF s1] have "same_rest (s\<lparr>trait_lock := Some t\<rparr>) s2"
    by (rule same_rest_trans)
  then show ?thesis
    using start s' by (simp add: sound_statics_def at_rest_def hook_init_def same_rest_def)
qed

lemma same_rest_sound: "same_rest s s' \<Longrightarrow> sound_statics s \<Longrightarrow> sound_statics s'"
  by (auto simp: same_rest_def sound_statics_def at_rest_def)

text \<open>
  C17: the statics are well formed between calls.  In every state that the public operations reach from
  the initial one, in any order, each run to its return: no thread's guard is set, the mutex is free and
  not poisoned, and if the trait hook is installed there is an object for it to call.
\<close>

theorem statics_well_formed:
  assumes "statics_reachable E s"
  shows "(\<forall>t. \<not> in_hook s t) \<and> trait_lock s = None \<and> \<not> trait_poisoned s \<and>
    (hook_function s = Trait_based_hook \<longrightarrow> trait_object s \<noteq> None)"
proof -
  have "sound_statics s"
    using assms
  proof induction
    case (reach_initial w)
    show ?case by (simp add: sound_statics_def at_rest_def initial_state_def)
  next
    case (reach_call s t q r s')
    from hook_entry_same_rest [OF reach_call.hyps(2)] reach_call.IH show ?case
      by (rule same_rest_sound)
  next
    case (reach_bypass s t nr a b c d e f v s')
    from program_code_same_rest [OF reach_bypass.hyps(2)] reach_bypass.IH show ?case
      by (rule same_rest_sound)
  next
    case (reach_register s alloc dealloc t h self s')
    from register_sound [OF reach_register.hyps(2) reach_register.IH] show ?case ..
  next
    case (reach_init s fn)
    then show ?case
      by (auto simp: sound_statics_def at_rest_def hook_init_def get_trait_dispatch_hook_def)
  qed
  then show ?thesis by (simp add: sound_statics_def at_rest_def)
qed

theorem statics_well_formed_witness:
  "\<exists>s. statics_reachable answering_env (s :: (unit, syscall_regs list) hook_state) \<and>
     hook_function s = Trait_based_hook \<and> trait_lock s = None \<and> trait_object s \<noteq> None"
proof -
  let ?s = "initial_state [] :: (unit, syscall_regs list) hook_state"
  let ?s1 = "hook_init Trait_based_hook
      (?s\<lparr>trait_lock := Some 1, trait_object := Some (default_hooks, ()), trait_lock := None\<rparr>)"
  have "register_syscall_hooks answering_env (Done ()) (Done ()) 1 default_hooks () ?s = Value () ?s1"
    by (simp add: register_syscall_hooks_def initial_state_def)
  note reach = reach_register [OF reach_initial this]
  have "hook_function ?s1 = Trait_based_hook" by (simp add: hook_init_def)
  with statics_well_formed [OF reach] reach show ?thesis by (intro exI [of _ ?s1] conjI) blast+
qed

end
