(* ===== verification/Samples.thy ===== *)
theory Samples
  imports HookContracts
begin

section \<open>The sample programs (\<open>zpoline\_samples\<close>, \<open>test\_program.rs\<close>)\<close>

text \<open>
  The \<open>main\<close> functions: each installs or registers a hook, exercises the standard library and prints.  What
  they use of the library is the record \<open>std_lib\<close>: code that makes system calls and comes back with a
  result.  A program's state is the statics of the hook API and the lines it has printed so far.  The
  programs link the hook API, so these are the statics of their own copy; a system call of the library
  enters that copy (\<open>Site\<close>), or does not (\<open>Raw\<close>: not rewritten, or rewritten to enter another copy).
\<close>

subsection \<open>Programs\<close>

datatype line = Out rstr | Err rstr

record ('s, 'w) program =
  statics :: "('s, 'w) hook_state"
  lines :: "line list"

text \<open>An error of the library is given as its \<open>Display\<close> text.  Files are their descriptors.\<close>

record std_lib =
  print_out :: "rstr \<Rightarrow> unit act"
  print_err :: "rstr \<Rightarrow> unit act"
  process_id :: "u32 act"
  read_to_string :: "rstr \<Rightarrow> (rstr + rstr) act"
  metadata_is_dir :: "rstr \<Rightarrow> (rstr + bool) act"
  file_create :: "rstr \<Rightarrow> (rstr + i32) act"
  file_open :: "rstr \<Rightarrow> (rstr + i32) act"
  file_write_all :: "i32 \<Rightarrow> rstr \<Rightarrow> (rstr + unit) act"
  file_read_to_string :: "i32 \<Rightarrow> (rstr + usize \<times> rstr) act"
  file_drop :: "i32 \<Rightarrow> unit act"
  remove_file :: "rstr \<Rightarrow> (rstr + unit) act"
  libc_write :: "i32 \<Rightarrow> u64 \<Rightarrow> usize \<Rightarrow> i64 act"

type_synonym ('s, 'w) command = "('s, 'w) program \<Rightarrow> (unit, ('s, 'w) program) run"

text \<open>Library code on the program's thread, with the result given to \<open>k\<close>.\<close>

definition lib_call ::
  "'w hook_env \<Rightarrow> tid \<Rightarrow> 'a act \<Rightarrow> ('a \<Rightarrow> ('s, 'w) command) \<Rightarrow> ('s, 'w) command" where
  "lib_call E t c k p =
     run_bind (map_run (\<lambda>a. a) (\<lambda>s. p\<lparr>statics := s\<rparr>)
       (run_act (raw_call (kernel E)) (site_call E t) c (statics p))) k"

fun run_commands :: "('s, 'w) command list \<Rightarrow> ('s, 'w) command" where
  "run_commands [] p = Value () p"
| "run_commands (m # ms) p = run_bind (m p) (\<lambda>_. run_commands ms)"

definition println :: "'w hook_env \<Rightarrow> tid \<Rightarrow> std_lib \<Rightarrow> rstr \<Rightarrow> ('s, 'w) command" where
  "println E t L m = lib_call E t (print_out L m) (\<lambda>_ p. Value () (p\<lparr>lines := lines p @ [Out m]\<rparr>))"

definition eprintln_cmd :: "'w hook_env \<Rightarrow> tid \<Rightarrow> std_lib \<Rightarrow> rstr \<Rightarrow> ('s, 'w) command" where
  "eprintln_cmd E t L m = lib_call E t (print_err L m) (\<lambda>_ p. Value () (p\<lparr>lines := lines p @ [Err m]\<rparr>))"

text \<open>\<open>str::trim\<close>.\<close>

definition trim :: "rstr \<Rightarrow> rstr" where
  "trim s = rev (dropWhile is_whitespace (rev (dropWhile is_whitespace s)))"

definition show_u32 :: "u32 \<Rightarrow> rstr" where
  "show_u32 n = show_radix 10 (unat n)"

definition print_pid :: "'w hook_env \<Rightarrow> tid \<Rightarrow> std_lib \<Rightarrow> string \<Rightarrow> ('s, 'w) command" where
  "print_pid E t L m = lib_call E t (process_id L) (\<lambda>pid. println E t L (lit m @ show_u32 pid))"

subsection \<open>\<open>test\_program.rs\<close>\<close>

definition print_hostname :: "'w hook_env \<Rightarrow> tid \<Rightarrow> std_lib \<Rightarrow> ('s, 'w) command" where
  "print_hostname E t L = lib_call E t (read_to_string L (lit ''/etc/hostname'')) (\<lambda>r.
     case r of Inr contents \<Rightarrow> println E t L (lit ''4. Hostname: '' @ trim contents) | Inl e \<Rightarrow> Value ())"

definition test_program_main :: "'w hook_env \<Rightarrow> tid \<Rightarrow> std_lib \<Rightarrow> ('s, 'w) command" where
  "test_program_main E t L = run_commands
     [println E t L (lit ''=== Test Program Start ===''),
      println E t L (lit ''1. Hello, World!''),
      println E t L (lit ''2. This is a test message.''),
      print_pid E t L ''3. My process ID is: '',
      print_hostname E t L,
      println E t L (lit ''=== Test Program End ==='')]"

subsection \<open>\<open>src/main.rs\<close>\<close>

definition sample_main :: "'w hook_env \<Rightarrow> tid \<Rightarrow> std_lib \<Rightarrow> u64 \<Rightarrow> ('s, 'w) command" where
  "sample_main E t L trace_hook_addr = run_commands
     [(\<lambda>p. Value () (p\<lparr>statics := hook_init (Hook_at trace_hook_addr) (statics p)\<rparr>)),
      println E t L (lit ''zpoline-rs sample program''),
      println E t L (lit ''This program traces system calls made by the process.''),
      println E t L [],
      println E t L (lit ''Executing some system calls...''),
      println E t L (lit ''1. Hello from zpoline-rs!''),
      print_pid E t L ''2. Process ID: '',
      lib_call E t (read_to_string L (lit ''/proc/self/comm'')) (\<lambda>r. case r of
        Inr comm \<Rightarrow> println E t L (lit ''3. Process name: '' @ trim comm)
      | Inl e \<Rightarrow> eprintln_cmd E t L (lit ''3. Failed to read process name: '' @ e)),
      lib_call E t (metadata_is_dir L (lit ''/tmp'')) (\<lambda>r. case r of
        Inr is_dir \<Rightarrow> println E t L (lit ''4. /tmp is a directory: '' @
          (if is_dir then lit ''true'' else lit ''false''))
      | Inl e \<Rightarrow> eprintln_cmd E t L (lit ''4. Failed to stat /tmp: '' @ e)),
      println E t L [],
      println E t L (lit ''Sample completed. Check stderr for syscall trace output.'')]"

subsection \<open>\<open>examples/simple\_hooks.rs\<close>\<close>

definition register_cmd ::
  "'w hook_env \<Rightarrow> unit act \<Rightarrow> unit act \<Rightarrow> tid \<Rightarrow> 's syscall_hooks \<Rightarrow> 's \<Rightarrow> ('s, 'w) command" where
  "register_cmd E alloc dealloc t h self p =
     map_run (\<lambda>a. a) (\<lambda>s. p\<lparr>statics := s\<rparr>) (register_syscall_hooks E alloc dealloc t h self (statics p))"

definition logging_zero :: logging_counters where
  "logging_zero = \<lparr>log_write_count = 0, log_read_count = 0, log_open_count = 0, log_getpid_count = 0\<rparr>"

text \<open>The load of a counter and the line that prints it.\<close>

definition logging_counts :: "(logging_counters, 'w) hook_state \<Rightarrow> logging_counters" where
  "logging_counts s = (case trait_object s of Some (h, c) \<Rightarrow> c | None \<Rightarrow> logging_zero)"

definition print_count ::
  "'w hook_env \<Rightarrow> tid \<Rightarrow> std_lib \<Rightarrow> string \<Rightarrow> (('s, 'w) hook_state \<Rightarrow> usize) \<Rightarrow> ('s, 'w) command" where
  "print_count E t L m f p = println E t L (lit m @ show_dec (f (statics p))) p"

definition simple_hooks_main ::
  "'w hook_env \<Rightarrow> unit act \<Rightarrow> unit act \<Rightarrow> tid \<Rightarrow> std_lib \<Rightarrow> u64 \<Rightarrow> (logging_counters, 'w) command" where
  "simple_hooks_main E alloc dealloc t L msg = run_commands
     [register_cmd E alloc dealloc t logging_hook logging_zero,
      println E t L (lit ''=== zpoline-rs Simple Hooks Example ===''),
      println E t L [],
      println E t L (lit ''Hooks are registered. Performing operations...''),
      println E t L [],
      lib_call E t (libc_write L 1 msg 20) (\<lambda>_. Value ()),
      println E t L (lit ''1. Hello, World!''),
      println E t L (lit ''2. This is a test message.''),
      print_pid E t L ''3. My process ID is: '',
      print_hostname E t L,
      println E t L [],
      println E t L (lit ''=== Syscall Statistics ===''),
      print_count E t L ''write() calls: '' (\<lambda>s. log_write_count (logging_counts s)),
      print_count E t L ''read() calls: '' (\<lambda>s. log_read_count (logging_counts s)),
      print_count E t L ''open() calls: '' (\<lambda>s. log_open_count (logging_counts s)),
      print_count E t L ''getpid() calls: '' (\<lambda>s. log_getpid_count (logging_counts s)),
      println E t L [],
      println E t L (lit ''=== Debug Info ===''),
      (\<lambda>p. let hook_entry_count = get_hook_entry_call_count (statics p);
               trait_hook_count = get_trait_hook_call_count (statics p) in
        run_commands
         [println E t L (lit ''hook_entry() calls: '' @ show_dec hook_entry_count),
          println E t L (lit ''trait_based_hook() calls: '' @ show_dec trait_hook_count)] p),
      println E t L [],
      println E t L (lit ''Example completed successfully!''),
      println E t L (lit ''Note: The counts above include syscalls made by println! itself.'')]"

subsection \<open>\<open>examples/trait\_hooks.rs\<close>\<close>

definition write_test_file :: "'w hook_env \<Rightarrow> tid \<Rightarrow> std_lib \<Rightarrow> rstr \<Rightarrow> ('s, 'w) command" where
  "write_test_file E t L test_file = lib_call E t (file_create L test_file) (\<lambda>r. case r of
     Inl e \<Rightarrow> eprintln_cmd E t L (lit ''Failed to create file: '' @ e)
   | Inr file \<Rightarrow> run_commands
       [lib_call E t (file_write_all L file (lit ''Test data from zpoline-rs'' @ newline)) (\<lambda>r. case r of
          Inr u \<Rightarrow> println E t L (lit ''Successfully wrote to '' @ test_file)
        | Inl e \<Rightarrow> eprintln_cmd E t L (lit ''Failed to write: '' @ e)),
        lib_call E t (file_drop L file) (\<lambda>_. Value ())])"

definition read_test_file :: "'w hook_env \<Rightarrow> tid \<Rightarrow> std_lib \<Rightarrow> rstr \<Rightarrow> ('s, 'w) command" where
  "read_test_file E t L test_file = lib_call E t (file_open L test_file) (\<lambda>r. case r of
     Inl e \<Rightarrow> eprintln_cmd E t L (lit ''Failed to open file: '' @ e)
   | Inr file \<Rightarrow> run_commands
       [lib_call E t (file_read_to_string L file) (\<lambda>r. case r of
          Inr (bytes, buffer) \<Rightarrow> run_commands
            [println E t L (lit ''Read '' @ show_dec bytes @ lit '' bytes from '' @ test_file),
             println E t L (lit ''Content: '' @ trim buffer)]
        | Inl e \<Rightarrow> eprintln_cmd E t L (lit ''Failed to read: '' @ e)),
        lib_call E t (file_drop L file) (\<lambda>_. Value ())])"

definition perform_syscall_tests :: "'w hook_env \<Rightarrow> tid \<Rightarrow> std_lib \<Rightarrow> ('s, 'w) command" where
  "perform_syscall_tests E t L = run_commands
     ([eprintln_cmd E t L (lit ''=== Test 1: Write to stdout ===''),
       println E t L (lit ''Hello from zpoline-rs!''),
       println E t L (lit ''This message goes through our custom write() hook.''),
       eprintln_cmd E t L (newline @ lit ''=== Test 2: Get process ID ===''),
       print_pid E t L ''Process ID: '',
       eprintln_cmd E t L (newline @ lit ''=== Test 3: File operations ===''),
       write_test_file E t L (lit ''/tmp/zpoline_test.txt''),
       read_test_file E t L (lit ''/tmp/zpoline_test.txt''),
       lib_call E t (remove_file L (lit ''/tmp/zpoline_test.txt'')) (\<lambda>r. case r of
         Inr u \<Rightarrow> println E t L (lit ''Cleaned up '' @ lit ''/tmp/zpoline_test.txt'')
       | Inl e \<Rightarrow> eprintln_cmd E t L (lit ''Failed to remove file: '' @ e)),
       eprintln_cmd E t L (newline @ lit ''=== Test 4: Multiple writes ==='')] @
      map (\<lambda>i. println E t L (lit ''Message #'' @ show_radix 10 i)) [1..<6])"

text \<open>The lines of \<open>print_statistics\<close>, which prints them to standard error.\<close>

definition statistics_lines :: "statistics_hook_state \<Rightarrow> rstr list" where
  "statistics_lines self =
     [newline @ lit ''========== Syscall Statistics =========='',
      lit ''write() calls: '' @ show_dec (write_count self),
      lit ''  Total bytes written: '' @ show_dec (total_bytes_written self),
      lit ''read() calls: '' @ show_dec (read_count self),
      lit ''  Total bytes read: '' @ show_dec (total_bytes_read self),
      lit ''open() calls: '' @ show_dec (open_count self),
      lit ''========================================'' @ newline]"

lemma print_statistics_lines:
  "print_statistics eprint self = foldr (\<lambda>m c. act_bind (eprint m) (\<lambda>_. c)) (statistics_lines self) (Done ())"
  by (simp add: print_statistics_def statistics_lines_def)

text \<open>\<open>STATS\<close> is set once and read at the end; the object registered is another one.\<close>

definition trait_hooks_main ::
  "'w hook_env \<Rightarrow> unit act \<Rightarrow> unit act \<Rightarrow> tid \<Rightarrow> std_lib \<Rightarrow> (u64 \<Rightarrow> rstr) \<Rightarrow> (statistics_hook_state, 'w) command" where
  "trait_hooks_main E alloc dealloc t L c_str =
     (let STATS = Some statistics_new in
      run_commands
       [eprintln_cmd E t L (lit ''zpoline-rs trait-based hooks demo''),
        eprintln_cmd E t L (lit ''=================================='' @ newline),
        register_cmd E alloc dealloc t (statistics_hook (print_err L) c_str) statistics_new,
        eprintln_cmd E t L (lit ''[INFO] Custom hooks registered using SyscallHooks trait'' @ newline),
        perform_syscall_tests E t L,
        (case STATS of
           None \<Rightarrow> Value ()
         | Some stats \<Rightarrow> lib_call E t (print_statistics (print_err L) stats)
             (\<lambda>_ p. Value () (p\<lparr>lines := lines p @ map Err (statistics_lines stats)\<rparr>))),
        eprintln_cmd E t L (lit ''[INFO] Demo completed successfully!'')])"

end
