(* ===== verification/SampleProperties.thy ===== *)
theory SampleProperties
  imports Samples
begin

section \<open>What the sample programs report\<close>

text \<open>
  A calculus of weakest preconditions for programs run with a registered object (\<open>runs\<close>), over the
  interface \<open>counting\_object\<close>, and what it shows of \<open>simple\_hooks\<close>, whose statistics are right, and of
  \<open>trait\_hooks\<close>, whose final statistics are those of another object.
\<close>

subsection \<open>Library code whose system calls are known\<close>

text \<open>\<open>made c xs r\<close>: \<open>xs\<close> are the numbers and answers of the system calls of a run of \<open>c\<close> that returns
  \<open>r\<close>.  Code that is \<open>hooked\<close> makes only such calls, and none that ends the thread.\<close>

primrec made :: "'a act \<Rightarrow> (u64 \<times> u64) list \<Rightarrow> 'a \<Rightarrow> bool" where
  "made (Done a) = (\<lambda>xs r. xs = [] \<and> r = a)"
| "made (Raw q k) = (\<lambda>xs r. xs \<noteq> [] \<and> fst (hd xs) = rax q \<and> made (k (snd (hd xs))) (tl xs) r)"
| "made (Site q k) = (\<lambda>xs r. xs \<noteq> [] \<and> fst (hd xs) = rax q \<and> made (k (snd (hd xs))) (tl xs) r)"
| "made Unreachable = (\<lambda>xs r. False)"

primrec hooked :: "'a act \<Rightarrow> bool" where
  "hooked (Done a) \<longleftrightarrow> True"
| "hooked (Raw q k) \<longleftrightarrow> False"
| "hooked (Site q k) \<longleftrightarrow> rax q \<noteq> 60 \<and> rax q \<noteq> 231 \<and> (\<forall>v. hooked (k v))"
| "hooked Unreachable \<longleftrightarrow> False"

definition object_ready :: "'s syscall_hooks \<Rightarrow> tid \<Rightarrow> ('s, 'w) program \<Rightarrow> 's \<Rightarrow> bool" where
  "object_ready h t p self \<longleftrightarrow> trait_ready t (statics p) \<and> \<not> trait_poisoned (statics p) \<and>
     trait_object (statics p) = Some (h, self)"

text \<open>The rewritten calls of the code, with the kernel's answers to them (the hook may change an answer).\<close>

context counting_object
begin

lemma hooked_run:
  assumes "hooked c" "answering (kernel E)" "trait_ready t s" "\<not> trait_poisoned s"
    "trait_object s = Some (hooks, self)"
  shows "\<exists>xs ys r s'. made c xs r \<and> map fst ys = map fst xs \<and>
    run_act (raw_call (kernel E)) (site_call E t) c s = Value r s' \<and>
    trait_ready t s' \<and> \<not> trait_poisoned s' \<and>
    trait_object s' = Some (hooks, fold (\<lambda>(nr, v). effect nr v) ys self)"
  using assms
proof (induction c arbitrary: s self)
  case (Site q k)
  then have nr: "rax q \<noteq> 60" "rax q \<noteq> 231" "\<And>v. hooked (k v)" by simp_all
  obtain v s1 where s1: "site_call E t q s = Value v s1"
    using site_call_returns [OF Site.prems(3-5,2) nr(1,2)] by blast
  obtain a where a: "trait_ready t s1" "\<not> trait_poisoned s1"
    "trait_object s1 = Some (hooks, effect (rax q) a self)"
    using site_call_effect [OF Site.prems(3-5) s1] by metis
  from Site.IH [OF rangeI nr(3) Site.prems(2) this] obtain xs ys r s' where
    "made (k v) xs r" "run_act (raw_call (kernel E)) (site_call E t) (k v) s1 = Value r s'"
    "map fst ys = map fst xs" "trait_ready t s'" "\<not> trait_poisoned s'"
    "trait_object s' = Some (hooks, fold (\<lambda>(nr, v). effect nr v) ys (effect (rax q) a self))"
    by blast
  with s1 show ?case
    by (intro exI [of _ "(rax q, v) # xs"] exI [of _ "(rax q, a) # ys"] exI [of _ r] exI [of _ s']) simp
qed simp_all

end

subsection \<open>Commands\<close>

text \<open>From the counters \<open>c\<close> the command returns, and \<open>Q\<close> holds of the new counters and of the lines it has
  printed.  The rules are those of a weakest precondition.\<close>

definition runs ::
  "'s syscall_hooks \<Rightarrow> tid \<Rightarrow> ('s, 'w) command \<Rightarrow> 's \<Rightarrow> ('s \<Rightarrow> line list \<Rightarrow> bool) \<Rightarrow> bool" where
  "runs h t m c Q \<longleftrightarrow> (\<forall>p. object_ready h t p c \<longrightarrow>
     (\<exists>p' c' ls. m p = Value () p' \<and> object_ready h t p' c' \<and> lines p' = lines p @ ls \<and> Q c' ls))"

lemma runsE:
  assumes "runs h t m c Q" "object_ready h t p c"
  obtains p' c' ls where "m p = Value () p'" "object_ready h t p' c'" "lines p' = lines p @ ls" "Q c' ls"
  using assms unfolding runs_def by blast

lemma runs_weaken:
  assumes "runs h t m c Q" "\<And>c' ls. Q c' ls \<Longrightarrow> Q' c' ls"
  shows "runs h t m c Q'"
  using assms unfolding runs_def by blast

lemma runs_skip: "Q c [] \<Longrightarrow> runs h t (Value ()) c Q"
  by (auto simp add: runs_def)

lemma runs_nil: "Q c [] \<Longrightarrow> runs h t (run_commands []) c Q"
  by (auto simp add: runs_def)

lemma runs_bind:
  assumes "runs h t m c (\<lambda>c1 l1. runs h t m' c1 (\<lambda>c2 l2. Q c2 (l1 @ l2)))"
  shows "runs h t (\<lambda>p. run_bind (m p) (\<lambda>_. m')) c Q"
  unfolding runs_def
proof (intro allI impI)
  fix p :: "('a, 'b) program"
  assume "object_ready h t p c"
  with assms obtain p1 c1 l1 where p1: "m p = Value () p1" "object_ready h t p1 c1" "lines p1 = lines p @ l1"
    "runs h t m' c1 (\<lambda>c2 l2. Q c2 (l1 @ l2))"
    by (rule runsE)
  from p1(4,2) obtain p2 c2 l2 where "m' p1 = Value () p2" "object_ready h t p2 c2"
    "lines p2 = lines p1 @ l2" "Q c2 (l1 @ l2)"
    by (rule runsE)
  with p1 show "\<exists>p' c' ls. run_bind (m p) (\<lambda>_. m') = Value () p' \<and> object_ready h t p' c' \<and>
      lines p' = lines p @ ls \<and> Q c' ls"
    by (intro exI [of _ p2] exI [of _ c2] exI [of _ "l1 @ l2"]) simp
qed

lemma runs_cons:
  "runs h t m c (\<lambda>c1 l1. runs h t (run_commands ms) c1 (\<lambda>c2 l2. Q c2 (l1 @ l2))) \<Longrightarrow>
    runs h t (run_commands (m # ms)) c Q"
  using runs_bind [of h t m c "run_commands ms" Q] by (simp add: runs_def)

lemma run_commands_append:
  "run_commands (ms @ ms') p = run_bind (run_commands ms p) (\<lambda>_. run_commands ms')"
proof (induction ms arbitrary: p)
  case (Cons m ms)
  then show ?case by (cases "m p") simp_all
qed simp

lemma runs_append:
  "runs h t (run_commands ms) c (\<lambda>c1 l1. runs h t (run_commands ms') c1 (\<lambda>c2 l2. Q c2 (l1 @ l2))) \<Longrightarrow>
    runs h t (run_commands (ms @ ms')) c Q"
  using runs_bind [of h t "run_commands ms" c "run_commands ms'" Q] by (simp add: runs_def run_commands_append)

lemma runs_fun: "(\<And>p. runs h t (f p) c Q) \<Longrightarrow> runs h t (\<lambda>p. f p p) c Q"
  by (simp add: runs_def)

lemma runs_log: "Q c ls \<Longrightarrow> runs h t (\<lambda>p. Value () (p\<lparr>lines := lines p @ ls\<rparr>)) c Q"
  by (auto simp: runs_def object_ready_def)

context counting_object
begin

lemma runs_lib_call:
  fixes E :: "'w hook_env"
  assumes "hooked code" "answering (kernel E)"
    "\<And>xs ys r. made code xs r \<Longrightarrow> map fst ys = map fst xs \<Longrightarrow>
      runs hooks t (k r) (fold (\<lambda>(nr, v). effect nr v) ys c) Q"
  shows "runs hooks t (lib_call E t code k) c Q"
  unfolding runs_def
proof (intro allI impI)
  fix p :: "('s, 'w) program"
  assume "object_ready hooks t p c"
  then obtain xs ys r s' where s': "made code xs r" "map fst ys = map fst xs"
    "run_act (raw_call (kernel E)) (site_call E t) code (statics p) = Value r s'"
    "object_ready hooks t (p\<lparr>statics := s'\<rparr>) (fold (\<lambda>(nr, v). effect nr v) ys c)"
    using hooked_run [OF assms(1,2), of t "statics p" c] by (auto simp: object_ready_def)
  from assms(3) [OF s'(1,2)] s'(4) obtain p' c' ls where "k r (p\<lparr>statics := s'\<rparr>) = Value () p'"
    "object_ready hooks t p' c'" "lines p' = lines (p\<lparr>statics := s'\<rparr>) @ ls" "Q c' ls"
    by (rule runsE)
  with s'(3) show "\<exists>p' c' ls. lib_call E t code k p = Value () p' \<and> object_ready hooks t p' c' \<and>
      lines p' = lines p @ ls \<and> Q c' ls"
    by (auto simp: lib_call_def)
qed

end

subsection \<open>\<open>simple\_hooks\<close>\<close>

abbreviation logged :: "u64 \<Rightarrow> logging_counters \<Rightarrow> logging_counters" where
  "logged nr \<equiv> logging_effect nr 0"

lemma fold_logging: "fold (\<lambda>(nr, v). logging_effect nr v) ys c = fold logged (map fst ys) c"
  by (induction ys arbitrary: c) (auto simp: logging_effect_def)

text \<open>The library's calls enter the program's copy of the API, or none of them does.\<close>

definition routed :: "bool \<Rightarrow> 'a act \<Rightarrow> bool" where
  "routed enters c \<longleftrightarrow> (if enters then hooked c else unrewritten c \<and> comes_back c)"

definition tick :: "bool \<Rightarrow> u64 list \<Rightarrow> logging_counters \<Rightarrow> logging_counters" where
  "tick enters ns c = (if enters then fold logged ns c else c)"

lemma unrewritten_made:
  assumes "unrewritten c" "comes_back c" "answering K"
  shows "\<exists>xs r w. made c xs r \<and> run_act (raw_call K) site c s = Value r (s\<lparr>world := w\<rparr>)"
  using assms(1,2)
proof (induction c arbitrary: s)
  case (Done a)
  then show ?case by (intro exI [of _ "[]"] exI [of _ a] exI [of _ "world s"]) simp
next
  case (Raw q k)
  obtain v w where v: "raw_call K q s = Value v (s\<lparr>world := w\<rparr>)"
    using assms(3) [unfolded answering_def, rule_format, of q "world s"]
    by (cases "K q (world s)") (auto simp: raw_call_def)
  obtain xs r w' where "made (k v) xs r"
    "run_act (raw_call K) site (k v) (s\<lparr>world := w\<rparr>) = Value r (s\<lparr>world := w\<rparr>\<lparr>world := w'\<rparr>)"
    using Raw by (metis comes_back.simps(2) rangeI unrewritten.simps(2))
  with v show ?case by (intro exI [of _ "(rax q, v) # xs"] exI [of _ r] exI [of _ w']) simp
qed simp_all

lemma runs_unrewritten_call:
  fixes E :: "'w hook_env" and h :: "'s syscall_hooks"
  assumes "unrewritten code" "comes_back code" "answering (kernel E)"
    "\<And>xs r. made code xs r \<Longrightarrow> runs h t (k r) c Q"
  shows "runs h t (lib_call E t code k) c Q"
  unfolding runs_def
proof (intro allI impI)
  fix p :: "('s, 'w) program"
  assume p: "object_ready h t p c"
  obtain xs r w where run: "made code xs r"
    "run_act (raw_call (kernel E)) (site_call E t) code (statics p) = Value r ((statics p)\<lparr>world := w\<rparr>)"
    using unrewritten_made [OF assms(1-3)] by blast
  have "object_ready h t (p\<lparr>statics := (statics p)\<lparr>world := w\<rparr>\<rparr>) c"
    using p by (simp add: object_ready_def trait_ready_def)
  with assms(4) [OF run(1)] obtain p' c' ls where
    "k r (p\<lparr>statics := (statics p)\<lparr>world := w\<rparr>\<rparr>) = Value () p'" "object_ready h t p' c'"
    "lines p' = lines (p\<lparr>statics := (statics p)\<lparr>world := w\<rparr>\<rparr>) @ ls" "Q c' ls"
    by (rule runsE)
  with run(2) show "\<exists>p' c' ls. lib_call E t code k p = Value () p' \<and> object_ready h t p' c' \<and>
      lines p' = lines p @ ls \<and> Q c' ls"
    by (auto simp: lib_call_def)
qed

lemma runs_routed_call:
  assumes "routed enters code" "answering (kernel E)"
    "\<And>xs r. made code xs r \<Longrightarrow> runs logging_hook t (k r) (tick enters (map fst xs) c) Q"
  shows "runs logging_hook t (lib_call E t code k) c Q"
proof (cases enters)
  case True
  with assms show ?thesis
    by (intro logging.runs_lib_call) (simp_all add: routed_def tick_def fold_logging)
next
  case False
  with assms show ?thesis
    by (intro runs_unrewritten_call) (simp_all add: routed_def tick_def)
qed

text \<open>The library: a printed line is one \<open>write\<close>, the process id one \<open>getpid\<close>.\<close>

definition one_call :: "bool \<Rightarrow> u64 \<Rightarrow> 'a act \<Rightarrow> bool" where
  "one_call enters nr c \<longleftrightarrow> routed enters c \<and> (\<forall>xs r. made c xs r \<longrightarrow> map fst xs = [nr])"

definition plain_library :: "bool \<Rightarrow> std_lib \<Rightarrow> bool" where
  "plain_library enters L \<longleftrightarrow> (\<forall>m. one_call enters 1 (print_out L m)) \<and> one_call enters 39 (process_id L) \<and>
     (\<forall>fd buf n. one_call enters 1 (libc_write L fd buf n)) \<and> (\<forall>f. routed enters (read_to_string L f))"

lemma runs_one_call:
  assumes "one_call enters nr code" "answering (kernel E)"
    "\<And>r. runs logging_hook t (k r) (tick enters [nr] c) Q"
  shows "runs logging_hook t (lib_call E t code k) c Q"
  using assms by (intro runs_routed_call) (auto simp: one_call_def)

lemma runs_println:
  assumes "plain_library enters L" "answering (kernel E)" "Q (tick enters [1] c) [Out m]"
  shows "runs logging_hook t (println E t L m) c Q"
  unfolding println_def using assms by (intro runs_one_call runs_log) (auto simp: plain_library_def)

lemma runs_print_pid:
  assumes "plain_library enters L" "answering (kernel E)"
    "\<And>pid. Q (tick enters [1] (tick enters [39] c)) [Out (lit m @ show_u32 pid)]"
  shows "runs logging_hook t (print_pid E t L m) c Q"
proof -
  have "one_call enters 39 (process_id L)" using assms(1) by (simp add: plain_library_def)
  then show ?thesis
    unfolding print_pid_def by (rule runs_one_call [OF _ assms(2)]) (rule runs_println [OF assms(1,2)], rule assms(3))
qed

lemma runs_print_hostname:
  assumes "plain_library enters L" "answering (kernel E)"
    "\<And>xs s. made (read_to_string L (lit ''/etc/hostname'')) xs (Inr s) \<Longrightarrow>
      Q (tick enters [1] (tick enters (map fst xs) c)) [Out (lit ''4. Hostname: '' @ trim s)]"
    "\<And>xs e. made (read_to_string L (lit ''/etc/hostname'')) xs (Inl e) \<Longrightarrow> Q (tick enters (map fst xs) c) []"
  shows "runs logging_hook t (print_hostname E t L) c Q"
  unfolding print_hostname_def
proof (rule runs_routed_call [OF _ assms(2)])
  show "routed enters (read_to_string L (lit ''/etc/hostname''))"
    using assms(1) by (simp add: plain_library_def)
  fix xs r
  assume made: "made (read_to_string L (lit ''/etc/hostname'')) xs r"
  show "runs logging_hook t (case r of Inr contents \<Rightarrow> println E t L (lit ''4. Hostname: '' @ trim contents) | Inl e \<Rightarrow> Value ())
      (tick enters (map fst xs) c) Q"
  proof (cases r)
    case (Inl e)
    from runs_skip [of Q, OF assms(4) [OF made [unfolded Inl]]] show ?thesis unfolding Inl sum.case .
  next
    case (Inr s)
    from runs_println [of enters L E Q, OF assms(1,2) assms(3) [OF made [unfolded Inr]]] show ?thesis
      unfolding Inr sum.case .
  qed
qed

lemma runs_print_count:
  fixes E :: "'w hook_env"
  assumes "plain_library enters L" "answering (kernel E)" "Q (tick enters [1] c) [Out (lit m @ show_dec (f c))]"
  shows "runs logging_hook t (print_count E t L m (\<lambda>s. f (logging_counts s))) c Q"
  unfolding runs_def
proof (intro allI impI)
  fix p :: "(logging_counters, 'w) program"
  assume p: "object_ready logging_hook t p c"
  then have "f (logging_counts (statics p)) = f c" by (simp add: logging_counts_def object_ready_def)
  with runsE [OF runs_println [of enters L E Q c, OF assms] p]
  show "\<exists>p' c' ls. print_count E t L m (\<lambda>s. f (logging_counts s)) p = Value () p' \<and>
      object_ready logging_hook t p' c' \<and> lines p' = lines p @ ls \<and> Q c' ls"
    unfolding print_count_def by metis
qed

definition number_of :: "u64 \<Rightarrow> u64 list \<Rightarrow> usize" where
  "number_of nr ns = of_nat (length (filter (\<lambda>n. n = nr) ns))"

lemma fold_logged:
  "fold logged ns c = \<lparr>log_write_count = log_write_count c + number_of 1 ns,
     log_read_count = log_read_count c + number_of 0 ns, log_open_count = log_open_count c + number_of 2 ns,
     log_getpid_count = log_getpid_count c + number_of 39 ns\<rparr>"
  by (induction ns arbitrary: c) (simp_all add: number_of_def logging_effect_def)

text \<open>What a run with the given calls has counted.\<close>

definition counted_calls :: "bool \<Rightarrow> u64 list \<Rightarrow> logging_counters" where
  "counted_calls enters ns = tick enters ns logging_zero"

lemma tick_tick [simp]: "tick enters ns (tick enters ms c) = tick enters (ms @ ns) c"
  by (simp add: tick_def)

lemma counted_calls_sel:
  "log_write_count (counted_calls enters ns) = (if enters then number_of 1 ns else 0)"
  "log_read_count (counted_calls enters ns) = (if enters then number_of 0 ns else 0)"
  "log_open_count (counted_calls enters ns) = (if enters then number_of 2 ns else 0)"
  "log_getpid_count (counted_calls enters ns) = (if enters then number_of 39 ns else 0)"
  by (simp_all add: counted_calls_def tick_def fold_logged logging_zero_def)

text \<open>The calls of \<open>main\<close> between the registration and the counters, if the host name was read by \<open>ns\<close>.\<close>

definition simple_calls :: "u64 list \<Rightarrow> (rstr + rstr) \<Rightarrow> u64 list" where
  "simple_calls ns r = [1, 1, 1, 1, 1, 1, 1, 39, 1] @ ns @ (if isl r then [] else [1]) @ [1, 1]"

text \<open>\<open>main\<close> between the registration and the counters, the counters, and what follows.\<close>

abbreviation simple_operations ::
  "'w hook_env \<Rightarrow> tid \<Rightarrow> std_lib \<Rightarrow> u64 \<Rightarrow> (logging_counters, 'w) command list" where
  "simple_operations E t L msg \<equiv>
    [println E t L (lit ''=== zpoline-rs Simple Hooks Example ===''),
     println E t L [],
     println E t L (lit ''Hooks are registered. Performing operations...''),
     println E t L [],
     lib_call E t (libc_write L 1 msg 20) (\<lambda>_. Value ()),
     println E t L (lit ''1. Hello, World!''),
     println E t L (lit ''2. This is a test message.''),
     print_pid E t L ''3. My process ID is: '',
     print_hostname E t L,
     println E t L [],
     println E t L (lit ''=== Syscall Statistics ==='')]"

abbreviation simple_counts :: "'w hook_env \<Rightarrow> tid \<Rightarrow> std_lib \<Rightarrow> (logging_counters, 'w) command list" where
  "simple_counts E t L \<equiv>
    [print_count E t L ''write() calls: '' (\<lambda>s. log_write_count (logging_counts s)),
     print_count E t L ''read() calls: '' (\<lambda>s. log_read_count (logging_counts s)),
     print_count E t L ''open() calls: '' (\<lambda>s. log_open_count (logging_counts s)),
     print_count E t L ''getpid() calls: '' (\<lambda>s. log_getpid_count (logging_counts s))]"

abbreviation simple_rest :: "'w hook_env \<Rightarrow> tid \<Rightarrow> std_lib \<Rightarrow> (logging_counters, 'w) command list" where
  "simple_rest E t L \<equiv>
    [println E t L [],
     println E t L (lit ''=== Debug Info ===''),
     (\<lambda>p. let hook_entry_count = get_hook_entry_call_count (statics p);
              trait_hook_count = get_trait_hook_call_count (statics p) in
       run_commands
        [println E t L (lit ''hook_entry() calls: '' @ show_dec hook_entry_count),
         println E t L (lit ''trait_based_hook() calls: '' @ show_dec trait_hook_count)] p),
     println E t L [],
     println E t L (lit ''Example completed successfully!''),
     println E t L (lit ''Note: The counts above include syscalls made by println! itself.'')]"

lemma simple_hooks_main_parts:
  "simple_hooks_main E alloc dealloc t L msg = run_commands
     (register_cmd E alloc dealloc t logging_hook logging_zero #
        simple_operations E t L msg @ simple_counts E t L @ simple_rest E t L)"
  by (simp only: simple_hooks_main_def append.simps)

text \<open>What \<open>main\<close> prints before the counters.\<close>

definition simple_lines :: "u32 \<Rightarrow> (rstr + rstr) \<Rightarrow> line list" where
  "simple_lines pid r =
    [Out (lit ''=== zpoline-rs Simple Hooks Example ===''), Out [],
     Out (lit ''Hooks are registered. Performing operations...''), Out [],
     Out (lit ''1. Hello, World!''), Out (lit ''2. This is a test message.''),
     Out (lit ''3. My process ID is: '' @ show_u32 pid)] @
    (case r of Inr contents \<Rightarrow> [Out (lit ''4. Hostname: '' @ trim contents)] | Inl e \<Rightarrow> []) @
    [Out [], Out (lit ''=== Syscall Statistics ==='')]"

lemma simple_hooks_operations:
  fixes E :: "'w hook_env"
  assumes "plain_library enters L" "answering (kernel E)"
    and post: "\<And>pid xs r. made (read_to_string L (lit ''/etc/hostname'')) xs r \<Longrightarrow>
      Q (counted_calls enters (simple_calls (map fst xs) r)) (simple_lines pid r)"
  shows "runs logging_hook t (run_commands (simple_operations E t L msg)) logging_zero Q"
proof -
  note rules = runs_cons runs_nil runs_println [OF assms(1,2)] runs_print_pid [OF assms(1,2)]
  note parts = counted_calls_def simple_calls_def simple_lines_def
  have direct: "runs logging_hook t (lib_call E t (libc_write L 1 msg 20) (\<lambda>_. Value ())) c R"
    if "R (tick enters [1] c) []" for c R
    using assms(1,2) that by (intro runs_one_call runs_skip) (auto simp: plain_library_def)
  show ?thesis
    apply (rule rules direct runs_print_hostname [OF assms(1,2)])+
    subgoal premises prems for pid xs s
      using post [OF prems] by (simp add: parts)
    apply (rule rules)+
    subgoal premises prems for pid xs e
      using post [OF prems] by (simp add: parts)
    done
qed

lemma simple_hooks_counts:
  fixes E :: "'w hook_env"
  assumes "plain_library enters L" "answering (kernel E)"
    and post: "\<And>c'. Q c'
      [Out (lit ''write() calls: '' @ show_dec (log_write_count c)),
       Out (lit ''read() calls: '' @ show_dec (log_read_count c)),
       Out (lit ''open() calls: '' @ show_dec (log_open_count c)),
       Out (lit ''getpid() calls: '' @ show_dec (log_getpid_count c))]"
  shows "runs logging_hook t (run_commands (simple_counts E t L)) c Q"
proof -
  have kept: "log_read_count (tick enters [1] d) = log_read_count d"
    "log_open_count (tick enters [1] d) = log_open_count d"
    "log_getpid_count (tick enters [1] d) = log_getpid_count d" for d
    by (simp_all add: tick_def logging_effect_def)
  show ?thesis
    by (rule runs_cons runs_nil runs_print_count [OF assms(1,2)])+
      (simp only: kept append.simps, rule post)
qed

lemma simple_hooks_rest:
  fixes E :: "'w hook_env"
  assumes "plain_library enters L" "answering (kernel E)" and post: "\<And>c' ls. Q c' ls"
  shows "runs logging_hook t (run_commands (simple_rest E t L)) c Q"
proof -
  note rules = runs_cons runs_nil runs_println [OF assms(1,2)] post
  have both: "runs logging_hook t (\<lambda>p. run_commands [println E t L (f p), println E t L (g p)] p) c' R"
    if "\<And>c' ls. R c' ls" for f g :: "(logging_counters, 'w) program \<Rightarrow> rstr" and c' R
    by (rule runs_fun, (rule rules)+, rule that)
  show ?thesis
    unfolding Let_def by (rule rules both)+
qed

text \<open>The four lines of the counters.\<close>

definition counter_lines :: "bool \<Rightarrow> u64 list \<Rightarrow> line list" where
  "counter_lines enters ns =
     [Out (lit ''write() calls: '' @ show_dec (if enters then number_of 1 ns else 0)),
      Out (lit ''read() calls: '' @ show_dec (if enters then number_of 0 ns else 0)),
      Out (lit ''open() calls: '' @ show_dec (if enters then number_of 2 ns else 0)),
      Out (lit ''getpid() calls: '' @ show_dec (if enters then number_of 39 ns else 0))]"

lemma simple_hooks_body:
  fixes E :: "'w hook_env"
  assumes "plain_library enters L" "answering (kernel E)"
    "\<And>pid xs r after c'. made (read_to_string L (lit ''/etc/hostname'')) xs r \<Longrightarrow>
      Q c' (simple_lines pid r @ counter_lines enters (simple_calls (map fst xs) r) @ after)"
  shows "runs logging_hook t (run_commands (simple_operations E t L msg @ simple_counts E t L @ simple_rest E t L))
    logging_zero Q"
  by (rule runs_append, rule simple_hooks_operations [OF assms(1,2)], rule runs_append,
      rule simple_hooks_counts [OF assms(1,2)], rule simple_hooks_rest [OF assms(1,2)])
    (unfold counted_calls_sel counter_lines_def [symmetric], rule assms(3))

text \<open>
  C24: the statistics of the \<open>simple\_hooks\<close> example.  From a process without a hook, in which the library
  prints a line by one \<open>write\<close> and asks for the process id by one \<open>getpid\<close>, \<open>main\<close> returns, whatever the
  kernel answers.  If the library's system calls enter the program's copy of the API, the four counters
  it prints are the numbers of the \<open>write\<close>s, \<open>read\<close>s, \<open>open\<close>s and \<open>getpid\<close>s made since the registration
  (\<open>simple\_calls\<close>, with those of the read of \<open>/etc/hostname\<close>).  If they do not, as when the trampoline belongs to a
  preloaded loader with a copy of its own, the counters it prints are zero, whatever has been called.
\<close>

theorem simple_hooks_reports:
  fixes p :: "(logging_counters, 'w) program"
  assumes "plain_library enters L" and "answering (kernel E)" and "comes_back alloc" and "comes_back dealloc"
    and "hook_function (statics p) = Default_hook" and "trait_lock (statics p) = None"
    and "\<not> trait_poisoned (statics p)" and "\<not> in_hook (statics p) t"
  shows "\<exists>p' pid xs r after. simple_hooks_main E alloc dealloc t L msg p = Value () p' \<and>
    made (read_to_string L (lit ''/etc/hostname'')) xs r \<and>
    lines p' = lines p @ simple_lines pid r @ counter_lines enters (simple_calls (map fst xs) r) @ after"
proof -
  let ?Q = "\<lambda>c' ls. \<exists>pid xs r after. made (read_to_string L (lit ''/etc/hostname'')) xs r \<and>
    ls = simple_lines pid r @ counter_lines enters (simple_calls (map fst xs) r) @ after"
  have answers: "\<And>q w. fst (kernel E q w) \<noteq> None" using assms(2) by (simp add: answering_def)
  obtain s1 where reg: "register_syscall_hooks E alloc dealloc t logging_hook logging_zero (statics p) = Value () s1"
    "hook_function s1 = Trait_based_hook" "trait_object s1 = Some (logging_hook, logging_zero)"
    "trait_lock s1 = None" "in_hook s1 = in_hook (statics p)" "\<not> trait_poisoned s1"
    by (rule register_returns [OF assms(5-7,3,4) answers])
  then have ready: "object_ready logging_hook t (p\<lparr>statics := s1\<rparr>) logging_zero"
    using assms(8) by (simp add: object_ready_def trait_ready_def)
  have "runs logging_hook t (run_commands (simple_operations E t L msg @ simple_counts E t L @ simple_rest E t L)) logging_zero ?Q"
    by (rule simple_hooks_body [OF assms(1,2)]) blast
  from this ready obtain p' c' ls where p': "run_commands (simple_operations E t L msg @
      simple_counts E t L @ simple_rest E t L) (p\<lparr>statics := s1\<rparr>) = Value () p'"
    "object_ready logging_hook t p' c'" "lines p' = lines (p\<lparr>statics := s1\<rparr>) @ ls" "?Q c' ls"
    by (rule runsE)
  have out: "lines p' = lines p @ ls" using p'(3) by simp
  have main: "simple_hooks_main E alloc dealloc t L msg p = Value () p'"
    using p'(1) reg(1)
    by (simp only: simple_hooks_main_parts run_commands.simps register_cmd_def run.map run_bind_def run.case)
  show ?thesis using p'(4) main out by metis
qed

text \<open>A kernel that answers with the number of the call, and a file that is opened, read twice and closed.\<close>

definition sample_env :: "syscall_regs list hook_env" where
  "sample_env = \<lparr>kernel = (\<lambda>q w. (Some (rax q), w @ [q])), code_of = (\<lambda>_. default_hook)\<rparr>"

definition sample_call :: "u64 \<Rightarrow> (u64 \<Rightarrow> 'a act) \<Rightarrow> 'a act" where
  "sample_call nr k = Site (syscall_regs_new nr 3 0 0 0 0 0) k"

definition sample_library :: std_lib where
  "sample_library =
     \<lparr>print_out = (\<lambda>m. sample_call 1 (\<lambda>v. Done ())), print_err = (\<lambda>m. sample_call 1 (\<lambda>v. Done ())),
      process_id = sample_call 39 (\<lambda>v. Done (ucast v)),
      read_to_string = (\<lambda>f. sample_call 257 (\<lambda>fd. sample_call 0 (\<lambda>n. sample_call 0 (\<lambda>e.
        sample_call 3 (\<lambda>_. Done (Inr (lit ''host''))))))),
      metadata_is_dir = (\<lambda>f. sample_call 4 (\<lambda>v. Done (Inr True))),
      file_create = (\<lambda>f. sample_call 257 (\<lambda>v. Done (Inr (ucast v)))),
      file_open = (\<lambda>f. sample_call 257 (\<lambda>v. Done (Inr (ucast v)))),
      file_write_all = (\<lambda>fd b. sample_call 1 (\<lambda>v. Done (Inr ()))),
      file_read_to_string = (\<lambda>fd. sample_call 0 (\<lambda>v. Done (Inr (v, [])))),
      file_drop = (\<lambda>fd. sample_call 3 (\<lambda>v. Done ())),
      remove_file = (\<lambda>f. sample_call 87 (\<lambda>v. Done (Inr ()))),
      libc_write = (\<lambda>fd b n. sample_call 1 Done)\<rparr>"

lemma sample_library_plain: "plain_library True sample_library"
  by (auto simp: plain_library_def sample_library_def one_call_def routed_def sample_call_def syscall_regs_new_def
      neq_Nil_conv)

lemma sample_library_reads:
  "made (read_to_string sample_library f) xs r \<Longrightarrow> map fst xs = [257, 0, 0, 3] \<and> r = Inr (lit ''host'')"
  by (auto simp: sample_library_def sample_call_def syscall_regs_new_def neq_Nil_conv)

theorem simple_hooks_reports_witness:
  "\<exists>p' pid r after. simple_hooks_main sample_env (Done ()) (Done ()) 1 sample_library 0x5000
       \<lparr>statics = initial_state [], lines = []\<rparr> = Value () p' \<and>
     lines p' = simple_lines pid r @
       [Out (lit ''write() calls: '' @ show_dec 11), Out (lit ''read() calls: '' @ show_dec 2),
        Out (lit ''open() calls: '' @ show_dec 0), Out (lit ''getpid() calls: '' @ show_dec 1)] @ after"
proof -
  let ?p = "\<lparr>statics = initial_state [], lines = []\<rparr> :: (logging_counters, syscall_regs list) program"
  have s: "hook_function (statics ?p) = Default_hook" "trait_lock (statics ?p) = None"
    "\<not> trait_poisoned (statics ?p)" "\<not> in_hook (statics ?p) 1"
    by (simp_all add: initial_state_def)
  have e: "answering (kernel sample_env)" "comes_back (Done ())"
    by (simp_all add: answering_def sample_env_def)
  obtain p' pid xs r after where run: "simple_hooks_main sample_env (Done ()) (Done ()) 1 sample_library 0x5000 ?p = Value () p'"
    and made: "made (read_to_string sample_library (lit ''/etc/hostname'')) xs r"
    and out: "lines p' = lines ?p @ simple_lines pid r @ counter_lines True (simple_calls (map fst xs) r) @ after"
    using simple_hooks_reports [OF sample_library_plain e(1,2,2) s] by metis
  note x = sample_library_reads [OF made]
  show ?thesis
    by (intro exI [of _ p'] exI [of _ pid] exI [of _ r] exI [of _ after] conjI run)
      (use out x in \<open>simp add: number_of_def counter_lines_def simple_calls_def del: lit_simps\<close>)
qed

subsection \<open>\<open>trait\_hooks\<close>\<close>

text \<open>A command that returns from every state in which the object is registered.\<close>

definition returns_with :: "'s syscall_hooks \<Rightarrow> tid \<Rightarrow> ('s, 'w) command \<Rightarrow> bool" where
  "returns_with h t m \<longleftrightarrow> (\<forall>c. runs h t m c (\<lambda>_ _. True))"

lemma runs_returns_with: "returns_with h t m \<Longrightarrow> (\<And>c' ls. Q c' ls) \<Longrightarrow> runs h t m c Q"
  unfolding returns_with_def by (rule runs_weaken) auto

lemma returns_with_value [simp]: "returns_with h t (Value ())"
  by (simp add: returns_with_def runs_skip)

lemma returns_with_log [simp]: "returns_with h t (\<lambda>p. Value () (p\<lparr>lines := lines p @ ls\<rparr>))"
  by (simp add: returns_with_def runs_log)

lemma returns_with_commands [simp]: "list_all (returns_with h t) ms \<Longrightarrow> returns_with h t (run_commands ms)"
proof (induction ms)
  case (Cons m ms)
  then have m: "returns_with h t m" and ms: "returns_with h t (run_commands ms)" by simp_all
  show ?case
    unfolding returns_with_def
    by (rule allI, rule runs_cons, rule runs_returns_with [OF m], rule runs_returns_with [OF ms], rule TrueI)
qed (simp add: returns_with_def runs_nil)

context counting_object
begin

lemma returns_with_lib_call:
  assumes "hooked code" "answering (kernel E)" "\<And>r. returns_with hooks t (k r)"
  shows "returns_with hooks t (lib_call E t code k)"
  unfolding returns_with_def
  by (rule allI, rule runs_lib_call [OF assms(1,2)], rule runs_returns_with [OF assms(3)], rule TrueI)

end

text \<open>A library that makes its system calls through rewritten instructions only, and returns.\<close>

definition hooked_library :: "std_lib \<Rightarrow> bool" where
  "hooked_library L \<longleftrightarrow> (\<forall>m. hooked (print_out L m) \<and> hooked (print_err L m) \<and> hooked (read_to_string L m) \<and>
     hooked (metadata_is_dir L m) \<and> hooked (file_create L m) \<and> hooked (file_open L m) \<and> hooked (remove_file L m)) \<and>
     hooked (process_id L) \<and> (\<forall>fd m. hooked (file_write_all L fd m)) \<and>
     (\<forall>fd. hooked (file_read_to_string L fd) \<and> hooked (file_drop L fd))"

lemma hooked_act_bind: "hooked c \<Longrightarrow> (\<And>a. hooked (k a)) \<Longrightarrow> hooked (act_bind c k)"
  by (induction c) auto

lemma hooked_comes_back: "hooked c \<Longrightarrow> comes_back c"
  by (induction c) auto

context counting_object
begin

lemma runs_eprintln:
  assumes "hooked_library L" "answering (kernel E)" "\<And>c'. Q c' [Err m]"
  shows "runs hooks t (eprintln_cmd E t L m) c Q"
proof -
  have "hooked (print_err L m)" using assms(1) by (simp add: hooked_library_def)
  then show ?thesis
    unfolding eprintln_cmd_def by (rule runs_lib_call [OF _ assms(2)]) (rule runs_log, rule assms(3))
qed

lemma runs_print_statistics:
  assumes "hooked_library L" "answering (kernel E)" "\<And>c'. Q c' ls"
  shows "runs hooks t (lib_call E t (print_statistics (print_err L) self)
    (\<lambda>_ p. Value () (p\<lparr>lines := lines p @ ls\<rparr>))) c Q"
proof -
  have "hooked (print_err L m)" for m using assms(1) by (simp add: hooked_library_def)
  then have "hooked (print_statistics (print_err L) self)"
    unfolding print_statistics_def by (intro hooked_act_bind)
  then show ?thesis
    by (rule runs_lib_call [OF _ assms(2)]) (rule runs_log, rule assms(3))
qed

lemma perform_syscall_tests_returns:
  assumes "hooked_library L" "answering (kernel E)"
  shows "returns_with hooks t (perform_syscall_tests E t L)"
proof -
  have h: "hooked (print_out L m)" "hooked (print_err L m)" "hooked (process_id L)" "hooked (file_create L m)"
    "hooked (file_open L m)" "hooked (file_write_all L fd m)" "hooked (file_read_to_string L fd)"
    "hooked (file_drop L fd)" "hooked (remove_file L m)" for m fd
    using assms(1) by (simp_all add: hooked_library_def)
  note call = returns_with_lib_call [OF _ assms(2)]
  have out: "returns_with hooks t (println E t L m)" "returns_with hooks t (eprintln_cmd E t L m)" for m
    unfolding println_def eprintln_cmd_def by (simp_all add: call h)
  show ?thesis
    unfolding perform_syscall_tests_def write_test_file_def read_test_file_def print_pid_def
    by (simp add: call h out list_all_iff split: sum.split)
qed

end

context stderr_printer
begin

lemmas statistics_object = statistics.counting_object_axioms

end

lemma statistics_of_library:
  assumes "hooked_library L"
  shows "counting_object (statistics_hook (print_err L) c_str) statistics_effect"
proof -
  have "stderr_printer (print_err L)"
    using assms by unfold_locales (simp add: hooked_library_def hooked_comes_back)
  then show ?thesis by (rule stderr_printer.statistics_object)
qed

text \<open>A line printed while no hook is registered.\<close>

lemma eprintln_unhooked:
  assumes "hooked_library L" "answering (kernel E)" "hook_function (statics p) = Default_hook"
  obtains p' where "eprintln_cmd E t L m p = Value () p'" "quiet (statics p) (statics p')"
    "lines p' = lines p @ [Err m]"
proof -
  have "comes_back (print_err L m)" using assms(1) by (simp add: hooked_library_def hooked_comes_back)
  then obtain s' where "run_act (raw_call (kernel E)) (site_call E t) (print_err L m) (statics p) = Value () s'"
    "quiet (statics p) s'"
    using comes_back_run [OF _ assms(3)] assms(2) by (metis answering_def old.unit.exhaust)
  then show ?thesis
    by (intro that [of "p\<lparr>statics := s', lines := lines p @ [Err m]\<rparr>"]) (simp_all add: eprintln_cmd_def lib_call_def)
qed

text \<open>\<open>main\<close> behind the registration, and its last lines.\<close>

abbreviation trait_rest :: "'w hook_env \<Rightarrow> tid \<Rightarrow> std_lib \<Rightarrow> (statistics_hook_state, 'w) command list" where
  "trait_rest E t L \<equiv>
    [eprintln_cmd E t L (lit ''[INFO] Custom hooks registered using SyscallHooks trait'' @ newline),
     perform_syscall_tests E t L,
     lib_call E t (print_statistics (print_err L) statistics_new)
       (\<lambda>_ p. Value () (p\<lparr>lines := lines p @ map Err (statistics_lines statistics_new)\<rparr>)),
     eprintln_cmd E t L (lit ''[INFO] Demo completed successfully!'')]"

abbreviation trait_end :: "line list" where
  "trait_end \<equiv> map Err (statistics_lines statistics_new) @ [Err (lit ''[INFO] Demo completed successfully!'')]"

lemma trait_hooks_rest:
  assumes "hooked_library L" "answering (kernel E)"
  shows "runs (statistics_hook (print_err L) c_str) t (run_commands (trait_rest E t L)) c
    (\<lambda>c ls. \<exists>l. ls = l @ trait_end)"
proof -
  note object = statistics_of_library [OF assms(1), of c_str]
  note printed = counting_object.runs_eprintln [OF object assms]
    counting_object.runs_print_statistics [OF object assms]
    runs_returns_with [OF counting_object.perform_syscall_tests_returns [OF object assms]]
  show ?thesis
    by (rule runs_cons printed runs_nil)+
      (simp only: append_assoc append_Nil2, intro exI, rule append_assoc [symmetric])
qed

text \<open>
  C25: the final statistics of the \<open>trait\_hooks\<close> example are those of the object in \<open>STATS\<close>, which no call
  reaches: whatever the kernel answers, and however many calls the registered object counts, \<open>main\<close>
  ends by printing zeros.
\<close>

theorem trait_hooks_prints_zeros:
  assumes "hooked_library L" and "answering (kernel E)" and "comes_back alloc" and "comes_back dealloc"
    and "hook_function (statics p) = Default_hook" and "trait_lock (statics p) = None"
    and "\<not> trait_poisoned (statics p)" and "\<not> in_hook (statics p) t"
  shows "\<exists>p' c ls. trait_hooks_main E alloc dealloc t L c_str p = Value () p' \<and>
    trait_object (statics p') = Some (statistics_hook (print_err L) c_str, c) \<and>
    lines p' = lines p @ ls @ trait_end"
proof -
  let ?h = "statistics_hook (print_err L) c_str"
  obtain p1 where p1: "eprintln_cmd E t L (lit ''zpoline-rs trait-based hooks demo'') p = Value () p1"
    "quiet (statics p) (statics p1)" "lines p1 = lines p @ [Err (lit ''zpoline-rs trait-based hooks demo'')]"
    by (rule eprintln_unhooked [OF assms(1,2,5)])
  obtain p2 where p2: "eprintln_cmd E t L (lit ''=================================='' @ newline) p1 = Value () p2"
    "quiet (statics p1) (statics p2)"
    "lines p2 = lines p1 @ [Err (lit ''=================================='' @ newline)]"
    using assms(5) quiet_fields(1) [OF p1(2)] by (auto intro: eprintln_unhooked [OF assms(1,2)])
  have kept: "hook_function (statics p2) = Default_hook" "trait_lock (statics p2) = None"
    "\<not> trait_poisoned (statics p2)" "\<not> in_hook (statics p2) t"
    using quiet_fields [OF quiet_trans [OF p1(2) p2(2)]] assms(5-8) by simp_all
  have answers: "\<And>q w. fst (kernel E q w) \<noteq> None" using assms(2) by (simp add: answering_def)
  obtain s3 where s3: "register_syscall_hooks E alloc dealloc t ?h statistics_new (statics p2) = Value () s3"
    "hook_function s3 = Trait_based_hook" "trait_object s3 = Some (?h, statistics_new)"
    "trait_lock s3 = None" "in_hook s3 = in_hook (statics p2)" "\<not> trait_poisoned s3"
    by (rule register_returns [OF kept(1-3) assms(3,4) answers])
  then have "object_ready ?h t (p2\<lparr>statics := s3\<rparr>) statistics_new"
    using kept(4) by (simp add: object_ready_def trait_ready_def)
  with trait_hooks_rest [OF assms(1,2)] obtain p' c ls where
    p': "run_commands (trait_rest E t L) (p2\<lparr>statics := s3\<rparr>) = Value () p'"
      "object_ready ?h t p' c" "lines p' = lines (p2\<lparr>statics := s3\<rparr>) @ ls" "\<exists>l. ls = l @ trait_end"
    by (rule runsE)
  have main: "trait_hooks_main E alloc dealloc t L c_str p = Value () p'"
    using p1(1) p2(1) s3(1) p'(1)
    by (simp only: trait_hooks_main_def Let_def option.case run_commands.simps register_cmd_def run.map
        run_bind_def run.case)
  from p'(4) obtain l where "ls = l @ trait_end" ..
  then have "lines p' = lines p @ (Err (lit ''zpoline-rs trait-based hooks demo'') #
      Err (lit ''=================================='' @ newline) # l) @ trait_end"
    using p'(3) p2(3) p1(3) by simp
  with main p'(2) show ?thesis unfolding object_ready_def by blast
qed

theorem trait_hooks_prints_zeros_witness:
  "\<exists>p' ls. trait_hooks_main sample_env (Done ()) (Done ()) 1 sample_library (\<lambda>_. [])
       \<lparr>statics = initial_state [], lines = []\<rparr> = Value () p' \<and>
     lines p' = ls @ map Err (statistics_lines statistics_new) @ [Err (lit ''[INFO] Demo completed successfully!'')]"
proof -
  let ?p = "\<lparr>statics = initial_state [], lines = []\<rparr> :: (statistics_hook_state, syscall_regs list) program"
  have s: "hook_function (statics ?p) = Default_hook" "trait_lock (statics ?p) = None"
    "\<not> trait_poisoned (statics ?p)" "\<not> in_hook (statics ?p) 1" "lines ?p = []"
    by (simp_all add: initial_state_def)
  have e: "answering (kernel sample_env)" "comes_back (Done ())"
    by (simp_all add: answering_def sample_env_def)
  have L: "hooked_library sample_library"
    by (simp add: hooked_library_def sample_library_def sample_call_def syscall_regs_new_def)
  show ?thesis
    using trait_hooks_prints_zeros [OF L e(1,2,2) s(1-4), of "\<lambda>_. []"] unfolding s(5) append_Nil by blast
qed

end
