(* ===== verification/HookTransparency.thy ===== *)
theory HookTransparency
  imports SampleProperties
begin

section \<open>A rewritten program is the program\<close>

text \<open>
  The end of every branch of a program in a process that has been rewritten, but has no hook, is compared
  with the same program in a process that has not: the library whose rewritten system calls are replaced
  by raw ones.  They may differ in the call counter and, if the kernel does not return from a call, in
  the guard that stays set.
\<close>

primrec native :: "'a act \<Rightarrow> 'a act" where
  "native (Done a) = Done a"
| "native (Raw q k) = Raw q (\<lambda>v. native (k v))"
| "native (Site q k) = Raw q (\<lambda>v. native (k v))"
| "native Unreachable = Unreachable"

definition native_library :: "std_lib \<Rightarrow> std_lib" where
  "native_library L =
     \<lparr>print_out = (\<lambda>m. native (print_out L m)), print_err = (\<lambda>m. native (print_err L m)),
      process_id = native (process_id L), read_to_string = (\<lambda>f. native (read_to_string L f)),
      metadata_is_dir = (\<lambda>f. native (metadata_is_dir L f)), file_create = (\<lambda>f. native (file_create L f)),
      file_open = (\<lambda>f. native (file_open L f)), file_write_all = (\<lambda>fd b. native (file_write_all L fd b)),
      file_read_to_string = (\<lambda>fd. native (file_read_to_string L fd)), file_drop = (\<lambda>fd. native (file_drop L fd)),
      remove_file = (\<lambda>f. native (remove_file L f)), libc_write = (\<lambda>fd b n. native (libc_write L fd b n))\<rparr>"

definition native_state :: "('s, 'w) hook_state \<Rightarrow> ('s, 'w) hook_state" where
  "native_state s = s\<lparr>hook_entry_call_count := 0, in_hook := (\<lambda>_. False)\<rparr>"

definition native_program :: "('s, 'w) program \<Rightarrow> ('s, 'w) program" where
  "native_program p = p\<lparr>statics := native_state (statics p)\<rparr>"

subsection \<open>Runs that agree\<close>

text \<open>\<open>S\<close> relates the states of runs that return, \<open>V\<close> those of runs that do not.\<close>

definition alike :: "('st \<Rightarrow> 'st \<Rightarrow> bool) \<Rightarrow> ('st \<Rightarrow> 'st \<Rightarrow> bool) \<Rightarrow> ('a, 'st) run \<Rightarrow> ('a, 'st) run \<Rightarrow> bool" where
  "alike S V r r' \<longleftrightarrow> (case r of
       Value a s \<Rightarrow> (\<exists>s'. r' = Value a s' \<and> S s s')
     | No_return s \<Rightarrow> (\<exists>s'. r' = No_return s' \<and> V s s')
     | Undefined s \<Rightarrow> (\<exists>s'. r' = Undefined s' \<and> V s s')
     | _ \<Rightarrow> False)"

lemma alike_simps [simp]:
  "alike S V (Value a s) (Value a' s') \<longleftrightarrow> a = a' \<and> S s s'"
  "alike S V (No_return s) (No_return s') \<longleftrightarrow> V s s'"
  "alike S V (Undefined s) (Undefined s') \<longleftrightarrow> V s s'"
  by (auto simp: alike_def)

lemma alikeE:
  assumes "alike S V r r'"
  obtains (returns) a s s' where "r = Value a s" "r' = Value a s'" "S s s'"
  | (no_return) s s' where "r = No_return s" "r' = No_return s'" "V s s'"
  | (undefined) s s' where "r = Undefined s" "r' = Undefined s'" "V s s'"
  using assms by (cases r) (auto simp: alike_def)

lemma alike_bind:
  assumes "alike S V r r'" "\<And>a s s'. S s s' \<Longrightarrow> alike S V (f a s) (g a s')"
  shows "alike S V (run_bind r f) (run_bind r' g)"
  using assms(1) by (cases rule: alikeE) (simp_all add: assms(2))

lemma alike_map:
  assumes "alike S V r r'" "\<And>s s'. S s s' \<Longrightarrow> S' (f s) (g s')" "\<And>s s'. V s s' \<Longrightarrow> V' (f s) (g s')"
  shows "alike S' V' (map_run (\<lambda>a. a) f r) (map_run (\<lambda>a. a) g r')"
  using assms(1) by (cases rule: alikeE) (simp_all add: assms(2,3))

lemma alike_view:
  assumes "alike S V r r'" "\<And>s s'. S s s' \<Longrightarrow> f s = f s'" "\<And>s s'. V s s' \<Longrightarrow> f s = f s'"
  shows "map_run (\<lambda>a. a) f r = map_run (\<lambda>a. a) f r'"
  using assms(1) by (cases rule: alikeE) (simp_all add: assms(2,3))

subsection \<open>Code under the default hook\<close>

definition unhooked :: "tid \<Rightarrow> ('s, 'w) hook_state \<Rightarrow> ('s, 'w) hook_state \<Rightarrow> bool" where
  "unhooked t s s' \<longleftrightarrow> native_state s = native_state s' \<and> hook_function s = Default_hook \<and> \<not> in_hook s t"

abbreviation agree :: "('s, 'w) hook_state \<Rightarrow> ('s, 'w) hook_state \<Rightarrow> bool" where
  "agree s s' \<equiv> native_state s = native_state s'"

lemma native_state_world: "agree s s' \<Longrightarrow> world s = world s'"
  by (cases s; cases s') (simp add: native_state_def)

lemma raw_call_alike:
  assumes "unhooked t s s'"
  shows "alike (unhooked t) agree (raw_call K q s) (raw_call K q s')"
proof -
  have w: "world s = world s'" using assms native_state_world by (auto simp: unhooked_def)
  have "agree (s\<lparr>world := u\<rparr>) (s'\<lparr>world := u\<rparr>)" for u
    using assms by (cases s; cases s') (simp add: unhooked_def native_state_def)
  then show ?thesis
    using assms unfolding raw_call_def w by (auto simp: unhooked_def split: prod.split option.split)
qed

lemma site_call_alike:
  fixes E :: "'w hook_env" and s s' :: "('s, 'w) hook_state"
  assumes "unhooked t s s'"
  shows "alike (unhooked t) agree (site_call E t q s) (raw_call (kernel E) q s')"
proof -
  have w: "world s = world s'" using assms native_state_world by (auto simp: unhooked_def)
  have u: "hook_function s = Default_hook" "\<not> in_hook s t" using assms by (simp_all add: unhooked_def)
  have "agree ((counted s)\<lparr>world := u\<rparr>) (s'\<lparr>world := u\<rparr>)"
    "agree ((counted s)\<lparr>in_hook := g, world := u\<rparr>) (s'\<lparr>world := u\<rparr>)" for u g
    using assms by (cases s; cases s'; simp add: unhooked_def native_state_def counted_def)+
  then show ?thesis
    using u unfolding default_site_call [OF u] raw_call_def w
    by (auto simp: unhooked_def counted_def split: prod.split option.split)
qed

lemma native_alike:
  fixes E :: "'w hook_env"
  assumes "unhooked t s s'"
  shows "alike (unhooked t) agree (run_act (raw_call (kernel E)) (site_call E t) c s)
    (run_act (raw_call (kernel E)) (site_call E t) (native c) s')"
  using assms
proof (induction c arbitrary: s s')
  case (Raw q k)
  show ?case
    unfolding run_act.simps native.simps
    by (rule alike_bind [OF raw_call_alike [OF Raw.prems]]) (rule Raw.IH [OF rangeI])
next
  case (Site q k)
  show ?case
    unfolding run_act.simps native.simps
    by (rule alike_bind [OF site_call_alike [OF Site.prems]]) (rule Site.IH [OF rangeI])
qed (simp_all add: unhooked_def)

subsection \<open>Programs\<close>

definition same_program :: "tid \<Rightarrow> ('s, 'w) program \<Rightarrow> ('s, 'w) program \<Rightarrow> bool" where
  "same_program t p p' \<longleftrightarrow> unhooked t (statics p) (statics p') \<and> lines p = lines p'"

abbreviation same_end :: "('s, 'w) program \<Rightarrow> ('s, 'w) program \<Rightarrow> bool" where
  "same_end p p' \<equiv> native_program p = native_program p'"

lemma same_programs_end: "same_program t p p' \<Longrightarrow> same_end p p'"
  by (cases p; cases p') (simp add: same_program_def native_program_def unhooked_def)

definition same_command :: "tid \<Rightarrow> ('s, 'w) command \<Rightarrow> ('s, 'w) command \<Rightarrow> bool" where
  "same_command t m m' \<longleftrightarrow> (\<forall>p p'. same_program t p p' \<longrightarrow> alike (same_program t) same_end (m p) (m' p'))"

lemma same_value: "same_command t (Value ()) (Value ())"
  by (simp add: same_command_def)

lemma same_log: "same_command t (\<lambda>p. Value () (p\<lparr>lines := lines p @ ls\<rparr>)) (\<lambda>p. Value () (p\<lparr>lines := lines p @ ls\<rparr>))"
  by (simp add: same_command_def same_program_def)

lemma same_nil: "same_command t (run_commands []) (run_commands [])"
  by (simp add: same_command_def)

lemma same_cons:
  assumes "same_command t m m'" "same_command t (run_commands ms) (run_commands ms')"
  shows "same_command t (run_commands (m # ms)) (run_commands (m' # ms'))"
  using assms by (auto simp: same_command_def intro: alike_bind)

lemma same_lib_call:
  fixes E :: "'w hook_env"
  assumes "\<And>r. same_command t (k r) (k' r)"
  shows "same_command t (lib_call E t c k) (lib_call E t (native c) k')"
  unfolding same_command_def
proof (intro allI impI)
  fix p p' :: "('b, 'w) program"
  assume same: "same_program t p p'"
  then have "unhooked t (statics p) (statics p')" "lines p = lines p'" by (simp_all add: same_program_def)
  moreover have "same_program t (p\<lparr>statics := s\<rparr>) (p'\<lparr>statics := s'\<rparr>)" if "unhooked t s s'" for s s'
    using that calculation(2) by (simp add: same_program_def)
  moreover have "same_end (p\<lparr>statics := s\<rparr>) (p'\<lparr>statics := s'\<rparr>)" if "agree s s'" for s s'
    using that calculation(2) by (cases p; cases p') (simp add: native_program_def)
  ultimately have "alike (same_program t) same_end
      (map_run (\<lambda>a. a) (\<lambda>s. p\<lparr>statics := s\<rparr>) (run_act (raw_call (kernel E)) (site_call E t) c (statics p)))
      (map_run (\<lambda>a. a) (\<lambda>s. p'\<lparr>statics := s\<rparr>) (run_act (raw_call (kernel E)) (site_call E t) (native c) (statics p')))"
    by (intro alike_map [OF native_alike])
  then show "alike (same_program t) same_end (lib_call E t c k p) (lib_call E t (native c) k' p')"
    unfolding lib_call_def by (rule alike_bind) (use assms in \<open>simp add: same_command_def\<close>)
qed

lemma same_print:
  "same_command t (println E t L m) (println E t (native_library L) m)"
  "same_command t (print_pid E t L n) (print_pid E t (native_library L) n)"
  by (simp_all add: println_def print_pid_def native_library_def same_lib_call same_log)

lemma same_print_hostname: "same_command t (print_hostname E t L) (print_hostname E t (native_library L))"
proof -
  have result: "same_command t (case r of Inr c \<Rightarrow> println E t L (m c) | Inl e \<Rightarrow> Value ())
      (case r of Inr c \<Rightarrow> println E t (native_library L) (m c) | Inl e \<Rightarrow> Value ())" for r :: "rstr + rstr" and m
    by (cases r) (simp_all add: same_print same_value)
  have read: "read_to_string (native_library L) f = native (read_to_string L f)" for f
    by (simp add: native_library_def)
  show ?thesis
    unfolding print_hostname_def read by (rule same_lib_call) (rule result)
qed

text \<open>
  C23: rewriting a program changes nothing it does.  In a rewritten process without a registered hook,
  \<open>test\_program\<close> ends as it does in a process that has not been rewritten, for every library, every
  kernel, and every end (it returns, or a system call does not): the same lines in the same order, the same
  system calls with the same answers, hence the same state of the kernel.  Only the call counter, and the
  guard of a call that does not return, differ.
\<close>

theorem test_program_transparent:
  assumes "hook_function (statics p) = Default_hook" and "\<not> in_hook (statics p) t"
  shows "map_run (\<lambda>_. ()) native_program (test_program_main E t L p) =
    map_run (\<lambda>_. ()) native_program (test_program_main E t (native_library L) p)"
proof -
  have "same_command t (test_program_main E t L) (test_program_main E t (native_library L))"
    unfolding test_program_main_def
    by (intro same_cons same_nil same_print same_print_hostname)
  moreover have "same_program t p p" using assms by (simp add: same_program_def unhooked_def)
  ultimately have "alike (same_program t) same_end (test_program_main E t L p)
      (test_program_main E t (native_library L) p)"
    unfolding same_command_def by blast
  from alike_view [OF this, of native_program] show ?thesis
    using same_programs_end by fastforce
qed

definition sample_start :: "(unit, syscall_regs list) program" where
  "sample_start = \<lparr>statics = initial_state [], lines = []\<rparr>"

theorem test_program_transparent_witness:
  "map_run (\<lambda>_. ()) native_program (test_program_main sample_env 1 sample_library sample_start) =
    map_run (\<lambda>_. ()) native_program (test_program_main sample_env 1 (native_library sample_library) sample_start)"
proof -
  have "hook_function (statics sample_start) = Default_hook" "\<not> in_hook (statics sample_start) 1"
    by (simp_all add: sample_start_def initial_state_def)
  then show ?thesis by (rule test_program_transparent)
qed

end
