(* ===== verification/HookCopies.thy ===== *)
theory HookCopies
  imports HookLibraryProperties HookLoading
begin

section \<open>Two copies of the hook API\<close>

text \<open>
  The hook library is loaded into a namespace of its own and has its own copy of \<open>zpoline\_hook\_api\<close>: the
  trampoline enters the loader's copy (\<open>near\<close>), whose hook pointer, guard and entry counter are used, while
  the hook the library returns from \<open>get\_trait\_dispatch\_hook\<close> uses the mutex, the object and the counter
  of the library's copy (\<open>far\<close>).  The library is loaded behind the rewriting, so its own system calls
  are not rewritten.  The two copies share the kernel.
\<close>

record ('s, 'r, 'w) copies =
  near :: "('s, 'w) hook_state"
  far :: "('r, 'w) hook_state"

definition in_near ::
  "(('s, 'w) hook_state \<Rightarrow> ('a, ('s, 'w) hook_state) run) \<Rightarrow> ('s, 'r, 'w) copies \<Rightarrow> ('a, ('s, 'r, 'w) copies) run" where
  "in_near f c = map_run (\<lambda>a. a) (\<lambda>s. c\<lparr>near := s, far := (far c)\<lparr>world := world s\<rparr>\<rparr>) (f (near c))"

definition in_far ::
  "(('r, 'w) hook_state \<Rightarrow> ('a, ('r, 'w) hook_state) run) \<Rightarrow> ('s, 'r, 'w) copies \<Rightarrow> ('a, ('s, 'r, 'w) copies) run" where
  "in_far f c = map_run (\<lambda>a. a) (\<lambda>s. c\<lparr>near := (near c)\<lparr>world := world s\<rparr>, far := s\<rparr>) (f (far c))"

text \<open>\<open>a\<close> is the address of the library's \<open>trait\_based\_hook\<close>.\<close>

definition call_hook_copies ::
  "'w hook_env \<Rightarrow> u64 \<Rightarrow> tid \<Rightarrow> hook_fn \<Rightarrow> syscall_regs \<Rightarrow> ('s, 'r, 'w) copies \<Rightarrow>
   (i64 \<times> syscall_regs, ('s, 'r, 'w) copies) run" where
  "call_hook_copies E a t fn q c =
     (if fn = Hook_at a then in_far (trait_based_hook (kernel E) (raw_call (kernel E)) t q) c
      else in_near (call_hook E (\<lambda>q s. site_result (hook_entry 1 E t q s)) t fn q) c)"

definition hook_entry_copies ::
  "'w hook_env \<Rightarrow> u64 \<Rightarrow> tid \<Rightarrow> syscall_regs \<Rightarrow> ('s, 'r, 'w) copies \<Rightarrow>
   (i64 \<times> syscall_regs, ('s, 'r, 'w) copies) run" where
  "hook_entry_copies E a t q c =
     (let c = c\<lparr>near := (near c)\<lparr>hook_entry_call_count := hook_entry_call_count (near c) + 1\<rparr>\<rparr> in
      if in_hook (near c) t then run_bind (in_near (raw_call (kernel E) q) c) (\<lambda>v. Value (v, q))
      else
        run_bind
          (call_hook_copies E a t (get_hook_fn (near c)) q
             (c\<lparr>near := (near c)\<lparr>in_hook := (in_hook (near c))(t := True)\<rparr>\<rparr>))
          (\<lambda>r c. Value r (c\<lparr>near := (near c)\<lparr>in_hook := (in_hook (near c))(t := False)\<rparr>\<rparr>)))"

definition site_call_copies ::
  "'w hook_env \<Rightarrow> u64 \<Rightarrow> tid \<Rightarrow> syscall_regs \<Rightarrow> ('s, 'r, 'w) copies \<Rightarrow> (i64, ('s, 'r, 'w) copies) run" where
  "site_call_copies E a t q c = site_result (hook_entry_copies E a t q c)"

fun run_calls_copies ::
  "'w hook_env \<Rightarrow> u64 \<Rightarrow> tid \<Rightarrow> syscall_regs list \<Rightarrow> ('s, 'r, 'w) copies \<Rightarrow> (i64 list, ('s, 'r, 'w) copies) run" where
  "run_calls_copies E a t [] c = Value [] c"
| "run_calls_copies E a t (q # qs) c =
     run_bind (site_call_copies E a t q c) (\<lambda>r c.
     run_bind (run_calls_copies E a t qs c) (\<lambda>rs. Value (r # rs)))"

subsection \<open>Code that is not rewritten\<close>

definition object_unrewritten :: "'s syscall_hooks \<Rightarrow> bool" where
  "object_unrewritten h \<longleftrightarrow> (\<forall>q self. unrewritten (dispatch_syscall_hooks h q self))"

lemma unrewritten_site: "unrewritten c \<Longrightarrow> run_act raw site c s = run_act raw site' c s"
proof (induction c arbitrary: s)
  case (Raw q k)
  then show ?case by (auto intro: run_bind_cong)
qed simp_all

text \<open>Statics the trait hook does not use: \<open>outer f g n\<close> sets them.\<close>

definition outer ::
  "hook_fn \<Rightarrow> (tid \<Rightarrow> bool) \<Rightarrow> usize \<Rightarrow> ('s, 'w) hook_state \<Rightarrow> ('s, 'w) hook_state" where
  "outer f g n s = s\<lparr>hook_function := f, in_hook := g, hook_entry_call_count := n\<rparr>"

lemma raw_call_outer: "raw_call K q (outer f g n s) = map_run (\<lambda>a. a) (outer f g n) (raw_call K q s)"
  by (simp add: raw_call_def outer_def split: prod.split option.split)

lemma commute_bind:
  assumes "r' = map_run (\<lambda>a. a) F r" "\<And>a s. f' a (F s) = map_run (\<lambda>a. a) F (f a s)"
  shows "run_bind r' f' = map_run (\<lambda>a. a) F (run_bind r f)"
  using assms by (cases r) simp_all

lemma unrewritten_outer:
  assumes "unrewritten c"
  shows "run_act (raw_call K) site c (outer f g n s) = map_run (\<lambda>a. a) (outer f g n) (run_act (raw_call K) site' c s)"
  using assms
proof (induction c arbitrary: s)
  case (Raw q k)
  then show ?case
    unfolding run_act.simps by (intro commute_bind [OF raw_call_outer]) auto
qed simp_all

lemma trait_based_hook_outer:
  assumes "\<And>h self. trait_object s = Some (h, self) \<Longrightarrow> object_unrewritten h"
  shows "trait_based_hook K site t q (outer f g n s) =
    map_run (\<lambda>a. a) (outer f g n) (trait_based_hook K site' t q s)"
proof -
  let ?s = "s\<lparr>trait_hook_call_count := trait_hook_call_count s + 1, trait_lock := Some t\<rparr>"
  have o: "(outer f g n s)\<lparr>trait_hook_call_count := trait_hook_call_count (outer f g n s) + 1\<rparr> =
      outer f g n (s\<lparr>trait_hook_call_count := trait_hook_call_count s + 1\<rparr>)"
    "(outer f g n (s\<lparr>trait_hook_call_count := trait_hook_call_count s + 1\<rparr>))\<lparr>trait_lock := Some t\<rparr> = outer f g n ?s"
    by (cases s; simp add: outer_def)+
  have raw: "run_bind (raw_call K q (outer f g n ?s)) (\<lambda>v s. Value (v, q) (s\<lparr>trait_lock := None\<rparr>)) =
      map_run (\<lambda>a. a) (outer f g n) (run_bind (raw_call K q ?s) (\<lambda>v s. Value (v, q) (s\<lparr>trait_lock := None\<rparr>)))"
    by (rule commute_bind [OF raw_call_outer]) (simp add: outer_def)
  have object: "run_bind (run_act (raw_call K) site (dispatch_syscall_hooks h q self) (outer f g n ?s))
        (\<lambda>(v, self) s. Value (v, q) (s\<lparr>trait_object := Some (h, self), trait_lock := None\<rparr>)) =
      map_run (\<lambda>a. a) (outer f g n) (run_bind (run_act (raw_call K) site' (dispatch_syscall_hooks h q self) ?s)
        (\<lambda>(v, self) s. Value (v, q) (s\<lparr>trait_object := Some (h, self), trait_lock := None\<rparr>)))"
    if "trait_object s = Some (h, self)" for h self
    by (rule commute_bind, rule unrewritten_outer)
      (use assms [OF that] in \<open>simp_all add: object_unrewritten_def outer_def split: prod.split\<close>)
  have sel: "trait_lock (outer f g n u) = trait_lock u" "trait_poisoned (outer f g n u) = trait_poisoned u"
    "trait_object (outer f g n u) = trait_object u" for u :: "('s, 'w) hook_state"
    by (simp_all add: outer_def)
  show ?thesis
    using raw object
    by (simp add: trait_based_hook_def Let_def o sel split: option.split prod.split)
qed

subsection \<open>Two copies act as one\<close>

definition one_world :: "('s, 'r, 'w) copies \<Rightarrow> bool" where
  "one_world c \<longleftrightarrow> world (near c) = world (far c)"

text \<open>The single copy that two copies make up, and the way back.\<close>

definition joined :: "('s, 'r, 'w) copies \<Rightarrow> ('r, 'w) hook_state" where
  "joined c = outer Trait_based_hook (in_hook (near c)) (hook_entry_call_count (near c)) (far c)"

definition parted :: "('s, 'r, 'w) copies \<Rightarrow> ('r, 'w) hook_state \<Rightarrow> ('s, 'r, 'w) copies" where
  "parted c s = c
     \<lparr>near := (near c)\<lparr>in_hook := in_hook s, hook_entry_call_count := hook_entry_call_count s, world := world s\<rparr>,
      far := outer (hook_function (far c)) (in_hook (far c)) (hook_entry_call_count (far c)) s\<rparr>"

lemma parted_parted [simp]: "parted (parted c s) s' = parted c s'"
  by (simp add: parted_def outer_def)

lemma joined_parted [simp]: "hook_function s = Trait_based_hook \<Longrightarrow> joined (parted c s) = s"
  by (cases s) (simp add: joined_def parted_def outer_def)

lemma parted_joined: "one_world c \<Longrightarrow> parted c (joined c) = c"
  by (cases c; cases "near c"; cases "far c") (simp add: joined_def parted_def outer_def one_world_def)

lemma one_world_parted [simp]: "one_world (parted c s)"
  by (simp add: one_world_def parted_def outer_def)

lemma near_parted [simp]: "hook_function (near (parted c s)) = hook_function (near c)"
  by (simp add: parted_def)

abbreviation far_unrewritten :: "('s, 'r, 'w) copies \<Rightarrow> bool" where
  "far_unrewritten c \<equiv> \<forall>h self. trait_object (far c) = Some (h, self) \<longrightarrow> object_unrewritten h"

lemma hook_entry_copies_nested:
  assumes "one_world c" "in_hook (near c) t"
  shows "hook_entry_copies E a t q c = map_run (\<lambda>a. a) (parted c) (hook_entry 2 E t q (joined c))"
proof -
  have j: "in_hook (joined c) t" "world (joined c) = world (near c)"
    using assms by (simp_all add: joined_def outer_def one_world_def)
  have "c\<lparr>near := (near c)\<lparr>hook_entry_call_count := hook_entry_call_count (near c) + 1, world := w\<rparr>,
      far := (far c)\<lparr>world := w\<rparr>\<rparr> = parted c ((counted (joined c))\<lparr>world := w\<rparr>)" for w
    by (cases c; cases "near c"; cases "far c") (simp add: parted_def joined_def counted_def outer_def)
  then show ?thesis
    using assms(2) j unfolding numeral_2_eq_2 hook_entry_nested [OF j(1)]
    by (simp add: hook_entry_copies_def in_near_def nested_call_def raw_call_def counted_def
        split: prod.split option.split)
qed

lemma hook_entry_copies_outer:
  fixes c :: "('s, 'r, 'w) copies"
  assumes "hook_function (near c) = Hook_at a" "one_world c" "\<not> in_hook (near c) t" "far_unrewritten c"
  shows "hook_entry_copies E a t q c = map_run (\<lambda>a. a) (parted c) (hook_entry 2 E t q (joined c))"
proof -
  let ?n = "hook_entry_call_count (near c) + 1" and ?g = "(in_hook (near c))(t := True)"
  let ?own = "outer (hook_function (far c)) (in_hook (far c)) (hook_entry_call_count (far c))"
  let ?c = "c\<lparr>near := (near c)\<lparr>hook_entry_call_count := ?n, in_hook := ?g\<rparr>\<rparr>"
  let ?hook = "trait_based_hook (kernel E) (raw_call (kernel E)) t q (far c)"
  have own: "map_run (\<lambda>a. a) F ?hook = map_run (\<lambda>a. a) (\<lambda>s. F (?own s)) ?hook"
    for F :: "_ \<Rightarrow> ('s, 'r, 'w) copies"
  proof -
    have "?own (far c) = far c" by (cases "far c") (simp add: outer_def)
    with trait_based_hook_outer [of "far c"] assms(4) have "?hook = map_run (\<lambda>a. a) ?own ?hook" by metis
    then have "map_run (\<lambda>a. a) F ?hook = map_run (\<lambda>a. a) F (map_run (\<lambda>a. a) ?own ?hook)" by (rule arg_cong)
    then show ?thesis by (cases ?hook) simp_all
  qed
  have "\<not> in_hook (joined c) t" using assms(3) by (simp add: joined_def outer_def)
  moreover have "guarded_hook E t q (joined c) =
      map_run (\<lambda>a. a) (outer Trait_based_hook ?g ?n) ?hook"
  proof -
    have "(joined c)\<lparr>hook_entry_call_count := hook_entry_call_count (joined c) + 1,
        in_hook := (in_hook (joined c))(t := True)\<rparr> = outer Trait_based_hook ?g ?n (far c)"
      "hook_function (joined c) = Trait_based_hook"
      by (simp_all add: joined_def outer_def)
    with trait_based_hook_outer [of "far c"] assms(4) show ?thesis
      by (simp add: guarded_hook_def call_hook_def)
  qed
  ultimately have joined: "hook_entry 2 E t q (joined c) =
      run_bind (map_run (\<lambda>a. a) (outer Trait_based_hook ?g ?n) ?hook)
        (\<lambda>r s. Value r (s\<lparr>in_hook := (in_hook s)(t := False)\<rparr>))"
    by (simp add: numeral_2_eq_2 hook_entry_outer del: hook_entry.simps)
  have "hook_entry_copies E a t q c =
      run_bind (map_run (\<lambda>a. a) (\<lambda>s. ?c\<lparr>near := (near ?c)\<lparr>world := world s\<rparr>, far := s\<rparr>) ?hook)
        (\<lambda>r c. Value r (c\<lparr>near := (near c)\<lparr>in_hook := (in_hook (near c))(t := False)\<rparr>\<rparr>))"
    using assms(1,3)
    by (simp add: hook_entry_copies_def call_hook_copies_def in_far_def get_hook_fn_def)
  then show ?thesis
    unfolding joined
    by (subst (asm) own, cases ?hook) (simp_all add: parted_def outer_def)
qed

lemma hook_entry_copies_joined:
  assumes "hook_function (near c) = Hook_at a" "one_world c" "far_unrewritten c"
  shows "hook_entry_copies E a t q c = map_run (\<lambda>a. a) (parted c) (hook_entry 2 E t q (joined c))"
  using hook_entry_copies_nested [OF assms(2)] hook_entry_copies_outer [OF assms(1,2) _ assms(3)] by blast

text \<open>
  C6: the copies act as one.  When the loader's hook pointer is the trait hook of the library's copy, and
  the registered object's code is not rewritten, \<open>hook\_entry\<close> over the two copies does, on every branch and
  for every outcome, what it does over a single copy that has the loader's guard and entry counter and the
  library's mutex, object and trait counter: everything proved of one copy holds of the deployed system.
\<close>

theorem copies_act_as_one:
  assumes "hook_function (near c) = Hook_at a" and "one_world c"
    and "\<And>h self. trait_object (far c) = Some (h, self) \<Longrightarrow> object_unrewritten h"
  shows "hook_entry_copies E a t q c = map_run (\<lambda>a. a) (parted c) (hook_entry 2 E t q (joined c))"
  by (rule hook_entry_copies_joined [OF assms(1,2)]) (blast intro: assms(3))

text \<open>With any other hook in the loader's copy, the library's copy is not touched.\<close>

lemma hook_entry_near:
  assumes "hook_function (near c) \<noteq> Hook_at a"
  shows "hook_entry_copies E a t q c = in_near (hook_entry 2 E t q) c"
proof -
  have two: "(2 :: nat) = Suc 1" by simp
  let ?F = "\<lambda>s. c\<lparr>near := s, far := (far c)\<lparr>world := world s\<rparr>\<rparr>"
  let ?s = "(near c)\<lparr>hook_entry_call_count := hook_entry_call_count (near c) + 1\<rparr>"
  let ?site = "\<lambda>q s. site_result (hook_entry 1 E t q s)"
  have raw: "run_bind (map_run (\<lambda>a. a) ?F (raw_call (kernel E) q ?s)) (\<lambda>v. Value (v, q)) =
      map_run (\<lambda>a. a) ?F (run_bind (raw_call (kernel E) q ?s) (\<lambda>v. Value (v, q)))"
    by (rule commute_bind [OF refl]) simp
  have call: "run_bind (map_run (\<lambda>a. a) ?F r)
        (\<lambda>r c. Value r (c\<lparr>near := (near c)\<lparr>in_hook := (in_hook (near c))(t := False)\<rparr>\<rparr>)) =
      map_run (\<lambda>a. a) ?F (run_bind r (\<lambda>r s. Value r (s\<lparr>in_hook := (in_hook s)(t := False)\<rparr>)))"
    for r :: "(i64 \<times> syscall_regs, _) run"
    by (rule commute_bind [OF refl]) simp
  show ?thesis
    using assms raw call [of "call_hook E ?site t (hook_function (near c)) q (?s\<lparr>in_hook := (in_hook ?s)(t := True)\<rparr>)"]
    unfolding hook_entry_copies_def call_hook_copies_def in_near_def two hook_entry.simps(2) Let_def
    by (simp add: get_hook_fn_def del: hook_entry.simps)
qed

text \<open>An implementation that overrides four methods by code that is not rewritten.\<close>

lemma stats_unrewritten:
  assumes "\<And>m. unrewritten (eprint m)"
  shows "object_unrewritten (stats_hook eprint)"
proof -
  have "unrewritten (dispatch_syscall_hooks default_hooks q self)" for q and self :: stats_counters
    by (simp add: dispatch_canonical split: option.split)
  with assms show ?thesis
    unfolding object_unrewritten_def dispatch_overrides [OF stats_hook_def]
    by (auto simp: stats_simps override_simps stats_log_def)
qed

text \<open>A printer that is not rewritten, and the copies of a process that has loaded the library at \<open>0x7000\<close>.\<close>

definition eprint_raw :: "u64 \<Rightarrow> printer" where
  "eprint_raw buf m = Raw (syscall_regs_new 1 2 buf (of_nat (utf8_len m + 1)) 0 0 0) (\<lambda>_. Done ())"

definition loader_copy :: "(unit, syscall_regs list) hook_state" where
  "loader_copy = hook_init (Hook_at 0x7000) (initial_state [])"

definition loaded_copies :: "(unit, stats_counters, syscall_regs list) copies" where
  "loaded_copies = \<lparr>near = loader_copy, far = (initial_state [])\<lparr>hook_function := Trait_based_hook,
     trait_object := Some (stats_hook (eprint_raw 0x9000), stats_counters_zero)\<rparr>\<rparr>"

lemma loaded_copies:
  "hook_function (near loaded_copies) = Hook_at 0x7000" "one_world loaded_copies"
  "trait_object (far loaded_copies) = Some (h, self) \<Longrightarrow> object_unrewritten h"
  using stats_unrewritten [of "eprint_raw 0x9000"]
  by (auto simp: loaded_copies_def loader_copy_def hook_init_def initial_state_def one_world_def eprint_raw_def)

theorem copies_act_as_one_witness:
  "hook_entry_copies tracing_env 0x7000 1 example_regs loaded_copies =
    map_run (\<lambda>a. a) (parted loaded_copies) (hook_entry 2 tracing_env 1 example_regs (joined loaded_copies))"
  by (rule copies_act_as_one [OF loaded_copies])

subsection \<open>The life of a trait library\<close>

text \<open>Its constructor registers the object in the library's copy.\<close>

lemma init_hooks_registers:
  assumes "\<And>m. comes_back (eprint m)" "\<And>m. unrewritten (eprint m)" "comes_back alloc" "comes_back dealloc"
    "answering (kernel E)"
  obtains h where "init_hooks E eprint alloc dealloc t counters (initial_state w) = Value () h"
    "trait_object h = Some (stats_hook eprint, counters)" "trait_lock h = None" "\<not> trait_poisoned h"
proof -
  let ?s = "initial_state w :: (stats_counters, 'a) hook_state"
  have answers: "\<And>q w. fst (kernel E q w) \<noteq> None" using assms(5) by (simp add: answering_def)
  note print = unrewritten_run [OF assms(2,1,5)]
  obtain u1 w1 where p1: "run_act (raw_call (kernel E)) (site_call E t)
      (eprint (lit ''[zpoline_hook_trait_example] Initializing trait-based hooks...'')) ?s = Value u1 (?s\<lparr>world := w1\<rparr>)"
    using print by blast
  have s: "hook_function (?s\<lparr>world := w1\<rparr>) = Default_hook" "trait_lock (?s\<lparr>world := w1\<rparr>) = None"
    "\<not> trait_poisoned (?s\<lparr>world := w1\<rparr>)"
    by (simp_all add: initial_state_def)
  obtain s2 where s2: "register_syscall_hooks E alloc dealloc t (stats_hook eprint) counters (?s\<lparr>world := w1\<rparr>) = Value () s2"
    "trait_object s2 = Some (stats_hook eprint, counters)" "trait_lock s2 = None" "\<not> trait_poisoned s2"
    by (rule register_returns [OF s assms(3,4) answers, of t "stats_hook eprint" counters])
  obtain u3 w3 where p3: "run_act (raw_call (kernel E)) (site_call E t)
      (eprint (lit ''[zpoline_hook_trait_example] Hooks registered successfully'')) s2 = Value u3 (s2\<lparr>world := w3\<rparr>)"
    using print by blast
  have "init_hooks E eprint alloc dealloc t counters ?s = Value () (s2\<lparr>world := w3\<rparr>)"
    unfolding init_hooks_def Let_def p1 run_bind_simps s2(1) p3 by simp
  with s2 show ?thesis by (intro that [of "s2\<lparr>world := w3\<rparr>"]) simp_all
qed

lemma site_call_copies_joined:
  assumes "hook_function (near c) = Hook_at a" "one_world c" "far_unrewritten c"
  shows "site_call_copies E a t q c = map_run (\<lambda>a. a) (parted c) (site_call E t q (joined c))"
  unfolding site_call_copies_def site_call_def hook_entry_copies_joined [OF assms]
  by (cases "hook_entry 2 E t q (joined c)") (simp_all add: site_result_def split: prod.split)

context counting_object
begin

lemma run_calls_copies_joined:
  assumes "trait_ready t (joined c)" "\<not> trait_poisoned (joined c)" "trait_object (joined c) = Some (hooks, self)"
    "hook_function (near c) = Hook_at a" "one_world c" "object_unrewritten hooks"
  shows "run_calls_copies E a t qs c = map_run (\<lambda>a. a) (parted c) (run_calls E t qs (joined c))"
  using assms(1-5)
proof (induction qs arbitrary: c self)
  case Nil
  then show ?case by (simp add: parted_joined)
next
  case (Cons q qs)
  have obj: "trait_object (far c) = Some (hooks, self)" using Cons.prems(3) by (simp add: joined_def outer_def)
  with assms(6) have site: "site_call_copies E a t q c = map_run (\<lambda>a. a) (parted c) (site_call E t q (joined c))"
    by (intro site_call_copies_joined Cons.prems) simp
  show ?case
  proof (cases "site_call E t q (joined c)")
    case (Value r s)
    then have s: "trait_ready t s" "\<not> trait_poisoned s" "\<exists>self. trait_object s = Some (hooks, self)"
      using site_call_effect [OF Cons.prems(1-3)] by blast+
    then have j: "joined (parted c s) = s" by (simp add: trait_ready_def)
    from s(3) obtain self' where "trait_object s = Some (hooks, self')" ..
    with Cons.IH [of "parted c s" self'] s(1,2) j Cons.prems(4)
    have "run_calls_copies E a t qs (parted c s) = map_run (\<lambda>a. a) (parted c) (run_calls E t qs s)"
      by (simp add: parted_parted [abs_def])
    with Value site show ?thesis by (cases "run_calls E t qs s") simp_all
  qed (simp_all add: site)
qed

end

text \<open>
  C5: a trait library at work, from its file to its counters.  Its constructor registers \<open>StatsHook\<close> in
  the library's copy of the API; the loader, having chosen and loaded the library, installs the address
  that \<open>zpoline\_hook\_init\<close> returned in its own copy.  From then on every sequence of rewritten calls that
  does not exit returns, and the library's counters have grown by exactly the calls made.
\<close>

theorem trait_library_counts:
  assumes "\<And>m. comes_back (eprint m)" and "\<And>m. unrewritten (eprint m)" and "comes_back alloc" and "comes_back dealloc"
    and "answering (kernel E)" and "chosen_library env = Some lib" and "gives_hook env lib (proc s) a p'"
    and "no_exit qs"
  shows "\<exists>h. init_hooks E eprint alloc dealloc u stats_counters_zero (initial_state w) = Value () h \<and>
    (\<forall>L :: ('s, 'w) hook_state. hook_function L = installed_hook (init_hook_library env s) \<and> \<not> in_hook L t \<longrightarrow>
      (\<exists>rs c'. run_calls_copies E a t qs \<lparr>near = L, far = h\<lparr>world := world L\<rparr>\<rparr> = Value rs c' \<and>
         trait_object (far c') = Some (stats_hook eprint,
           \<lparr>WRITE_COUNT = calls_of 1 qs, READ_COUNT = calls_of 0 qs,
            OPEN_COUNT = calls_of 2 qs, GETPID_COUNT = calls_of 39 qs\<rparr>)))"
proof -
  obtain h where h: "init_hooks E eprint alloc dealloc u stats_counters_zero (initial_state w) = Value () h"
    "trait_object h = Some (stats_hook eprint, stats_counters_zero)" "trait_lock h = None" "\<not> trait_poisoned h"
    by (rule init_hooks_registers [OF assms(1-5)])
  have "\<exists>rs c'. run_calls_copies E a t qs \<lparr>near = L, far = h\<lparr>world := world L\<rparr>\<rparr> = Value rs c' \<and>
       trait_object (far c') = Some (stats_hook eprint,
         \<lparr>WRITE_COUNT = calls_of 1 qs, READ_COUNT = calls_of 0 qs,
          OPEN_COUNT = calls_of 2 qs, GETPID_COUNT = calls_of 39 qs\<rparr>)"
    if L: "hook_function L = installed_hook (init_hook_library env s)" "\<not> in_hook L t" for L :: "('s, 'w) hook_state"
  proof -
    let ?c = "\<lparr>near = L, far = h\<lparr>world := world L\<rparr>\<rparr>"
    have ready: "trait_ready t (joined ?c)" "\<not> trait_poisoned (joined ?c)"
      "trait_object (joined ?c) = Some (stats_hook eprint, stats_counters_zero)"
      using L(2) h(2-4) by (simp_all add: joined_def outer_def trait_ready_def)
    have near: "hook_function (near ?c) = Hook_at a" "one_world ?c"
      using L(1) chosen_library_installed [OF assms(6,7)] by (simp_all add: one_world_def)
    obtain rs s' where run: "run_calls E t qs (joined ?c) = Value rs s'"
      "trait_object s' = Some (stats_hook eprint, \<lparr>WRITE_COUNT = calls_of 1 qs, READ_COUNT = calls_of 0 qs,
         OPEN_COUNT = calls_of 2 qs, GETPID_COUNT = calls_of 39 qs\<rparr>)"
      using stats_hook_counts [OF assms(1,5) ready assms(8)] by (auto simp: stats_counters_zero_def)
    have "run_calls_copies E a t qs ?c = Value rs (parted ?c s')"
      using counting_object.run_calls_copies_joined [OF stderr_printer.stats_object [OF printer [OF assms(1)]]
        ready near stats_unrewritten [OF assms(2)], of E qs] run(1)
      by simp
    with run(2) show ?thesis by (intro exI [of _ rs] exI [of _ "parted ?c s'"]) (simp add: parted_def outer_def)
  qed
  with h(1) show ?thesis by blast
qed

theorem trait_library_counts_witness:
  "\<exists>rs h c'. init_hooks tracing_env (eprint_raw 0x9000) (Done ()) (Done ()) 1 stats_counters_zero (initial_state []) = Value () h \<and>
     run_calls_copies tracing_env 0x7000 1 two_writes \<lparr>near = loader_copy, far = h\<lparr>world := []\<rparr>\<rparr> = Value rs c' \<and>
     trait_object (far c') = Some (stats_hook (eprint_raw 0x9000),
       \<lparr>WRITE_COUNT = 2, READ_COUNT = 0, OPEN_COUNT = 0, GETPID_COUNT = 1\<rparr>)"
proof -
  have print: "comes_back (eprint_raw 0x9000 m)" "unrewritten (eprint_raw 0x9000 m)" for m
    by (simp_all add: eprint_raw_def)
  have code: "comes_back (Done ())" by simp
  note lib = hook_env_vars_library(1) [of test_env] hook_env_vars_library(2) [of test_env "proc test_loader_state"]
  have near: "hook_function loader_copy = installed_hook (init_hook_library (hook_env_vars test_env) test_loader_state)"
    "\<not> in_hook loader_copy 1" "world loader_copy = []"
    by (simp_all add: loader_copy_def hook_init_def initial_state_def chosen_library_installed [OF lib])
  have counts: "calls_of 1 two_writes = 2" "calls_of 0 two_writes = 0" "calls_of 2 two_writes = 0" "calls_of 39 two_writes = 1"
    by (simp_all add: two_writes_def syscall_regs_new_def)
  obtain h where "init_hooks tracing_env (eprint_raw 0x9000) (Done ()) (Done ()) 1 stats_counters_zero (initial_state []) = Value () h"
    "\<forall>L :: (unit, syscall_regs list) hook_state.
      hook_function L = installed_hook (init_hook_library (hook_env_vars test_env) test_loader_state) \<and> \<not> in_hook L 1 \<longrightarrow>
      (\<exists>rs c'. run_calls_copies tracing_env 0x7000 1 two_writes \<lparr>near = L, far = h\<lparr>world := world L\<rparr>\<rparr> = Value rs c' \<and>
        trait_object (far c') = Some (stats_hook (eprint_raw 0x9000),
          \<lparr>WRITE_COUNT = 2, READ_COUNT = 0, OPEN_COUNT = 0, GETPID_COUNT = 1\<rparr>))"
    using trait_library_counts [where t = 1 and u = 1 and w = "[]" and eprint = "eprint_raw 0x9000",
      OF print code code tracing_env_answers lib two_writes_calls(1)]
    unfolding counts by blast
  with near show ?thesis by metis
qed

end
