(* ===== verification/UnitTests.thy ===== *)
theory UnitTests
  imports Loader
begin

section \<open>The repository's unit tests, on the model\<close>

text \<open>
  Every \<^verbatim>\<open>#[test]\<close> of the crates as a definition, its assertions a conjunction over the model's
  operations, and the proof that they hold.  A test that unwraps fails on \<open>None\<close>.
\<close>

subsection \<open>\<open>maps.rs\<close>\<close>

definition test_parse_maps_line :: bool where
  "test_parse_maps_line \<longleftrightarrow>
     (case parse_maps_line (lit ''7f8b4c000000-7f8b4c021000 r-xp 00000000 08:01 1234 /lib/x86_64-linux-gnu/libc.so.6'') of
        None \<Rightarrow> False
      | Some region \<Rightarrow>
          mr_start region = 0x7f8b4c000000 \<and> mr_end region = 0x7f8b4c021000 \<and>
          readable region = True \<and> writable region = False \<and> executable region = True \<and>
          is_private region = True \<and> mr_offset region = 0 \<and> device region = lit ''08:01'' \<and>
          inode region = 1234 \<and>
          (case pathname region of
             None \<Rightarrow> False
           | Some p \<Rightarrow> path_eq p (lit ''/lib/x86_64-linux-gnu/libc.so.6'')))"

definition test_parse_anonymous_mapping :: bool where
  "test_parse_anonymous_mapping \<longleftrightarrow>
     (case parse_maps_line (lit ''7ffd1234000-7ffd1235000 rw-p 00000000 00:00 0'') of
        None \<Rightarrow> False
      | Some region \<Rightarrow>
          mr_start region = 0x7ffd1234000 \<and> mr_end region = 0x7ffd1235000 \<and>
          readable region = True \<and> writable region = True \<and> executable region = False \<and>
          pathname region = None)"

lemma maps_tests: "test_parse_maps_line" "test_parse_anonymous_mapping"
  by (simp_all add: test_parse_maps_line_def test_parse_anonymous_mapping_def parse_maps_line_def
      parse_eval path_eq_def)

subsection \<open>\<open>rewriter.rs\<close>\<close>

definition test_config_builder :: bool where
  "test_config_builder \<longleftrightarrow>
     (let config = set_dry_run True
        (exclude_range 0x1000 0x2000 (exclude_path (lit ''/lib/libc.so'') new_config)) in
      list_ex (path_eq (lit ''/lib/libc.so'')) (exclude_paths config) \<and>
      length (exclude_ranges config) = 1 \<and> dry_run config)"

text \<open>\<open>mov rax, 1\<close>; \<open>syscall\<close>; \<open>ret\<close>.\<close>

definition test_code :: "u8 list" where
  "test_code = [0x48, 0xc7, 0xc0, 0x01, 0x00, 0x00, 0x00, 0x0f, 0x05, 0xc3]"

definition test_find_syscall_in_code :: "decoder \<Rightarrow> bool" where
  "test_find_syscall_in_code dec \<longleftrightarrow>
     (case find_syscalls dec 0x1000 test_code of
        None \<Rightarrow> False
      | Some replacements \<Rightarrow>
          length replacements = 1 \<and> fst (replacements ! 0) = 7 \<and> snd (replacements ! 0) = Syscall)"

lemma config_test: "test_config_builder"
  by (simp add: test_config_builder_def set_dry_run_def exclude_range_def exclude_path_def
      new_config_def default_config_def path_eq_def)

lemma find_syscall_test:
  assumes "decoder_x86 dec" "dec 0x1000 test_code = (7, MOther)" "dec 0x1009 [0xc3] = (1, MOther)"
  shows "test_find_syscall_in_code dec"
proof -
  have "dec 0x1007 [0x0f, 0x05, 0xc3] = (2, MSyscall)"
    using assms(1) by (simp add: decoder_x86_def)
  with assms(2,3) show ?thesis
    by (simp add: test_find_syscall_in_code_def find_syscalls_def test_code_def find_loop.simps
        type_of_mnemonic_def)
qed

subsection \<open>\<open>zpoline\_hook\_api\<close>\<close>

definition test_syscall_regs :: bool where
  "test_syscall_regs \<longleftrightarrow>
     (let regs = syscall_regs_new 1 2 3 4 5 6 7 in rax regs = 1 \<and> rdi regs = 2 \<and> rsi regs = 3)"

text \<open>\<open>test_hook\<close>, at the address \<open>a\<close>, is installed and called.\<close>

definition test_hook_function_ptr :: "'w hook_env \<Rightarrow> u64 \<Rightarrow> tid \<Rightarrow> ('s, 'w) hook_state \<Rightarrow> bool" where
  "test_hook_function_ptr E a t s \<longleftrightarrow>
     (let E = E\<lparr>code_of := (code_of E)(a := (\<lambda>regs. Done (42, regs)))\<rparr>;
          s = hook_init (Hook_at a) s in
      case call_hook E (site_call E t) t (get_hook_fn s) syscall_regs_zero s of
        Value (result, q) s \<Rightarrow> result = 42
      | _ \<Rightarrow> False)"

definition test_reentry_guard :: "tid \<Rightarrow> ('s, 'w) hook_state \<Rightarrow> bool" where
  "test_reentry_guard t s \<longleftrightarrow>
     \<not> is_in_hook t s \<and>
     (let s = s\<lparr>in_hook := (in_hook s)(t := True)\<rparr> in is_in_hook t s \<and>
     (let s = s\<lparr>in_hook := (in_hook s)(t := False)\<rparr> in \<not> is_in_hook t s))"

lemma api_tests:
  "test_syscall_regs" "test_hook_function_ptr E a t s" "test_reentry_guard t (initial_state w)"
  by (simp_all add: test_syscall_regs_def syscall_regs_new_def test_hook_function_ptr_def
      call_hook_def get_hook_fn_def hook_init_def test_reentry_guard_def is_in_hook_def
      initial_state_def Let_def)

subsection \<open>\<open>zpoline\_loader\<close>\<close>

definition test_trampoline_constants :: bool where
  "test_trampoline_constants \<longleftrightarrow> MAX_SYSCALL_NR > 400 \<and> TRAMPOLINE_SIZE > MAX_SYSCALL_NR"

definition test_build_config :: "('os, 'e) loader_env \<Rightarrow> bool" where
  "test_build_config env \<longleftrightarrow> length (exclude_ranges (build_rewrite_config env)) > 0"

definition test_get_hook_library_path :: "('os, 'e) loader_env \<Rightarrow> 'os loader_state \<Rightarrow> bool" where
  "test_get_hook_library_path env s \<longleftrightarrow>
     (let path = fst (get_hook_library_path env s) in path = None \<or> path \<noteq> None)"

definition test_version :: bool where
  "test_version \<longleftrightarrow> starts_with_list (takeWhile (\<lambda>c. c \<noteq> 0) zpoline_get_version) (lit ''zpoline-rs'')"

lemma exclude_paths_keep_ranges:
  "exclude_ranges (fold (\<lambda>path config. if path \<noteq> [] then exclude_path path config else config) ps c) =
   exclude_ranges c"
  by (induction ps arbitrary: c) (simp_all add: exclude_path_def)

lemma loader_tests:
  "test_trampoline_constants" "test_build_config env" "test_get_hook_library_path env s" "test_version"
proof -
  show "test_get_hook_library_path env s"
    unfolding test_get_hook_library_path_def Let_def by blast
  show "test_build_config env"
    by (simp add: test_build_config_def build_rewrite_config_def Let_def exclude_paths_keep_ranges
        exclude_range_def split: option.splits)
qed (simp_all add: test_trampoline_constants_def MAX_SYSCALL_NR_def TRAMPOLINE_SIZE_def
    test_version_def zpoline_get_version_def)

text \<open>
  The repository's unit tests hold on the model, for every environment of the loader, every state
  in which the hook API may be (the guard test: the initial one) and every decoder that decodes the
  instructions of the test's code.
\<close>

lemma unit_tests_pass:
  assumes "decoder_x86 dec" and "dec 0x1000 test_code = (7, MOther)" and "dec 0x1009 [0xc3] = (1, MOther)"
  shows "test_parse_maps_line \<and> test_parse_anonymous_mapping \<and> test_config_builder \<and>
    test_find_syscall_in_code dec \<and> test_syscall_regs \<and> test_hook_function_ptr E a t s \<and>
    test_reentry_guard t (initial_state w) \<and> test_trampoline_constants \<and> test_build_config env \<and>
    test_get_hook_library_path env ls \<and> test_version"
  by (intro conjI maps_tests config_test find_syscall_test [OF assms] api_tests loader_tests)

text \<open>A decoder of a few instructions.\<close>

definition test_decoder :: decoder where
  "test_decoder ip bs =
     (if take 2 bs = [0x0f, 0x05] then (2, MSyscall)
      else if take 2 bs = [0x0f, 0x34] then (2, MSysenter)
      else if take 2 bs = [0xff, 0xd0] then (2, MOther)
      else if take 3 bs = [0x48, 0xc7, 0xc0] then (7, MOther) else (1, MOther))"

definition silent_env :: "unit hook_env" where
  "silent_env = \<lparr>kernel = (\<lambda>q w. (Some 0, w)), code_of = (\<lambda>_. default_hook)\<rparr>"

lemma unit_tests_pass_instance:
  "test_find_syscall_in_code test_decoder \<and> test_parse_maps_line \<and>
   test_hook_function_ptr silent_env 0x7000 1 (initial_state () :: (unit, unit) hook_state)"
proof -
  have "decoder_x86 test_decoder" by (simp add: decoder_x86_def test_decoder_def)
  have "test_decoder 0x1000 test_code = (7, MOther)" "test_decoder 0x1009 [0xc3] = (1, MOther)"
    by (simp_all add: test_decoder_def test_code_def)
  note holds = unit_tests_pass [where dec = test_decoder and E = silent_env and a = "0x7000" and t = 1 and
        s = "initial_state () :: (unit, unit) hook_state", OF \<open>decoder_x86 test_decoder\<close> this]
  show ?thesis by (simp only: holds simp_thms)
qed

end
