(* ===== verification/Spec2Isabelle.thy ===== *)
theory Spec2Isabelle
  imports HookLoading HookTermination HookStatics HookTransparency HookCopies UnitTests
begin

text \<open>
  zpoline-rs intercepts the system calls of a Linux process on x86-64.  A preloaded library
  (\<^verbatim>\<open>zpoline_loader\<close>) maps a trampoline at address 0, replaces every \<^verbatim>\<open>syscall\<close> and \<^verbatim>\<open>sysenter\<close>
  instruction of the process by \<^verbatim>\<open>call rax\<close> (two bytes each), and loads a hook library.  A replaced
  instruction then calls the address that is the system call's number, slides through \<^verbatim>\<open>nop\<close>s into a stub,
  and the stub calls \<^verbatim>\<open>hook_entry\<close> of \<^verbatim>\<open>zpoline_hook_api\<close>, which runs the installed hook under a
  per-thread guard.  This library models all of that and proves what it promises.

  \<^bold>\<open>Theories and sources.\<close>
  \<^item> \<open>Prelude\<close>, \<open>StdPath\<close>: what the code uses of Rust's strings, slices, integers (words of 64, 32 and 8 bits)
    and \<^verbatim>\<open>std::path\<close>.
  \<^item> \<open>ProcMaps\<close>: \<^verbatim>\<open>zpoline_rewriter/src/maps.rs\<close>, the parser of \<^verbatim>\<open>/proc/self/maps\<close>, with its round trip.
  \<^item> \<open>RewriteConfig\<close>, \<open>Decoding\<close>, \<open>Rewriter\<close>, \<open>RewriterProperties\<close>: \<^verbatim>\<open>rewriter.rs\<close>: the exclusions, the linear
    sweep (\<open>find_syscalls\<close>), \<open>rewrite_region\<close> with its two \<^verbatim>\<open>mprotect\<close> calls and its statistics.  The memory is a
    function from addresses to bytes (record \<open>process\<close>).
  \<^item> \<open>X86\<close>, \<open>SyscallRegs\<close>, \<open>Trampoline\<close>, \<open>TrampolineExecution\<close>: \<^verbatim>\<open>zpoline_loader/src/trampoline.rs\<close>: the
    generator byte by byte, and an executable subset of x86-64 (\<open>decode_instr\<close>, \<open>step\<close>) that runs what it generates.
  \<^item> \<open>HookCode\<close>, \<open>SyscallHooks\<close>: hook code as trees of system calls; the trait of
    \<^verbatim>\<open>zpoline_hook_api/src/syscall_hooks.rs\<close> with its 28 methods, 28 default functions and the dispatch, each
    cast at its width, against one table of signatures.
  \<^item> \<open>HookApi\<close>, \<open>HookProperties\<close>, \<open>HookStatics\<close>: \<^verbatim>\<open>zpoline_hook_api/src/lib.rs\<close>: its statics as one record, its
    functions as state passing, each run to its end by one thread.
  \<^item> \<open>HookConcurrency\<close>, \<open>HookThreads\<close>, \<open>HookTermination\<close>: the same functions cut into atomic steps, the agreement of
    the two models, and interleaved threads.  A thread's control state is the stack of its activations of
    \<^verbatim>\<open>hook_entry\<close>: a rewritten call made by hook code enters \<^verbatim>\<open>hook_entry\<close> again and meets the test of the guard there.
  \<^item> \<open>HookLibraries\<close>, \<open>HookContracts\<close>, \<open>HookLibraryProperties\<close>: the hooks of \<^verbatim>\<open>zpoline_hook_impl\<close>,
    \<^verbatim>\<open>zpoline_hook_trait_example\<close> and \<^verbatim>\<open>zpoline_samples\<close>; the contracts they fulfil, as locales interpreted on them;
    what they compute.
  \<^item> \<open>Loader\<close>, \<open>LoaderProperties\<close>, \<open>HookLoading\<close>: \<^verbatim>\<open>zpoline_loader/src/{lib,init,dlmopen}.rs\<close>, the constructor.
  \<^item> \<open>HookCopies\<close>: the deployed system, with the loader's copy of the hook API and the one in the hook library's
    namespace; two copies act as one, so the theories above speak of one.
  \<^item> \<open>Samples\<close>, \<open>SampleProperties\<close>, \<open>HookTransparency\<close>: the \<open>main\<close> functions of \<^verbatim>\<open>zpoline_samples\<close> and
    \<^verbatim>\<open>test_program.rs\<close> as commands over the hook API's statics and the lines printed, what their statistics are,
    and the agreement of a rewritten program with itself unrewritten.
  \<^item> \<open>UnitTests\<close>: every unit test of the crates, on the model.
  \<^item> this theory: the way from a rewritten instruction to the kernel and back, across all components.

  \<^bold>\<open>What the lemmas show.\<close>  Rewriting is exact (all and only the decoded, unprefixed instructions outside the
  exclusions change), idempotent, confined to its regions, and total; its error paths leave what they say.
  The trampoline hands \<^verbatim>\<open>hook_entry\<close> the registers of the site and restores all but the result; what it
  overwrites (80 bytes of the red zone) is stated.  \<^verbatim>\<open>hook_entry\<close> nests at most twice, restores what it
  takes, and is transparent under the default hook, under an object that overrides nothing (for calls that
  the C types of the trait represent), and under the tracing hooks.  In any interleaving the guards and the mutex
  mean what they should, threads that do not exit inside the trait hook never deadlock, and no update of a
  counting hook is lost.  A program in a rewritten process without a hook does what it does unrewritten; the
  statistics that \<^verbatim>\<open>simple_hooks\<close> prints are the calls it made, those of \<^verbatim>\<open>trait_hooks\<close> are always zero.  The known ways to deadlock (exiting inside the trait hook, registering again) are
  theorems too.

  \<^bold>\<open>Parameters.\<close>  Code that is not in the repository is an argument with named hypotheses: the instruction decoder
  (\<open>decoder_progress\<close>, \<open>decoder_x86\<close>, \<open>decoder_local\<close>), \<^verbatim>\<open>mmap\<close> (\<open>mmap_documented\<close>), \<^verbatim>\<open>mprotect\<close> and the page
  size (\<open>good_platform\<close>, \<open>sound_machine\<close>), the kernel (a function of the registers and its own state that may
  not return; \<open>answering\<close> where it must), \<^verbatim>\<open>dlmopen\<close>, \<^verbatim>\<open>dlsym\<close> and the library's constructor
  (\<open>linker_documented\<close>), the format of \<^verbatim>\<open>/proc/self/maps\<close> (\<open>maps_documented\<close>), the standard library the samples use (record
  \<open>std_lib\<close>; \<open>plain_library\<close>, \<open>hooked_library\<close>), printing and allocating (any
  code that makes system calls, \<open>comes_back\<close> where it must return).  The compiled \<^verbatim>\<open>hook_entry\<close> is tied to its model by
  \<open>implements_hook_entry\<close>: it returns by the C convention with the function's result.

  \<^bold>\<open>Bounds.\<close>  \<open>hook_entry\<close> takes a bound on its nesting; 2 is always enough (\<open>hook_entry_depth\<close>).  The sweep is a
  partial function, shown to return for every decoder that consumes bytes.  The trampoline needs
  \<open>entry_steps\<close> = 1 + (512 - nr) + 11 instructions on the way in and 9 on the way back.  Programs and hook code are
  finite trees, and the guard keeps a hook from starting again inside itself (\<open>threads_terminate\<close>: at most two
  activations of \<^verbatim>\<open>hook_entry\<close> in a thread), so threads terminate by a well-founded order.

  \<^bold>\<open>Not modelled.\<close>  Flags, vector registers (which the stub does not save) and segment state; signals; failures of
  writing to standard output and standard error; panics inside hook code and
  hooks that register hooks (so the mutex is never poisoned by a modelled operation, though every function says
  what it does on a poisoned one); the flushing of buffers by the standard library; the crate
  root of \<^verbatim>\<open>zpoline_rewriter\<close> (re-exports).  The atomics of the counting hooks are part of the
  object's state, which only the owner of the mutex uses.
\<close>

section \<open>From the rewritten instruction to the kernel and back\<close>

subsection \<open>The loader's process\<close>

lemma rewritten_site_bytes:
  assumes "region_code s' region = rewritten_code P region s" "p \<in> replaceable P region s"
  shows "mem s' (mr_start region + of_nat p) = 0xff" "mem s' (mr_start region + of_nat p + 1) = 0xd0"
proof -
  have site: "is_site (region_code s region) p" and len: "Suc p < unat (region_size region)"
    using assms(2) replaceable_in_region [OF assms(2)] by (simp_all add: replaceable_def)
  have "region_code s' region ! p = 0xff" "region_code s' region ! Suc p = 0xd0"
    using assms site len is_site_neighbour(1) [OF site] by (simp_all add: rewritten_code_def)
  then show "mem s' (mr_start region + of_nat p) = 0xff" "mem s' (mr_start region + of_nat p + 1) = 0xd0"
    using len by (simp_all add: add.assoc add.commute [of 1])
qed

text \<open>
  C1: what the loader sets up works.  After the trampoline has been mapped and the process rewritten,
  on a machine where nothing fails: a processor that reaches any of the replaced instructions with a
  system call number up to 512 in \<open>rax\<close>, its stack outside the trampoline's pages, is at \<open>hook\_entry\<close>
  after \<open>entry\_steps\<close> instructions, with \<open>rdi\<close> pointing to the registers it had.
\<close>

theorem replaced_instruction_calls_hook_entry:
  assumes "sound_machine env" and "mmap_documented (mmap_of env)" and "maps_documented env"
    and "init_trampoline env s = (Ended (), s1)" and "init_rewrite env s1 = (Ended (), s2)"
    and "parse_proc_maps (open_file env (proc s1)) = Inr regions" and "disjoint_regions regions"
    and "region \<in> set regions" and "eligible env region"
    and "p \<in> replaceable (platform_of env) region (proc s1)"
    and "cmem c = mem (proc s2)" and "rip c = mr_start region + of_nat p"
    and "unat (regs c RAX) \<le> 512" and "642 \<le> unat (regs c RSP)"
  shows "at_site (hook_entry_at env) c \<and>
    (\<exists>c1. steps (entry_steps c) c = Some c1 \<and> rip c1 = hook_entry_at env \<and>
       regs_at (cmem c1) (regs c1 RDI) = regs_of_cpu c)"
proof -
  have proper: "proper_regions regions"
    using assms(3,6) by (simp add: maps_documented_def)
  obtain st s2' where w: "rewrite_syscalls env s1 = (Ended (Inr st), s2')"
    and code: "region_code (proc s2') region = rewritten_code (platform_of env) region (proc s1)"
    using rewrite_syscalls_result [OF assms(1,6) proper assms(7)] assms(8,9) by blast
  have s2: "mem (proc s2) = mem (proc s2')"
    using assms(5) w by (auto simp: init_rewrite_def)
  have "trampoline_at (mem (proc s1)) (hook_entry_at env)"
    using init_trampoline_result [OF assms(2,4)] by auto
  then have "trampoline_at (cmem c) (hook_entry_at env)"
    unfolding assms(11) using init_rewrite_keeps_low [OF assms(3,5)] by (auto intro: trampoline_at_cong)
  moreover have "code_at (cmem c) (rip c) [0xff, 0xd0]"
    using rewritten_site_bytes [OF code assms(10)] by (simp add: assms(11,12) s2)
  ultimately have site: "at_site (hook_entry_at env) c"
    using assms(13,14) by (simp add: at_site_def MAX_SYSCALL_NR_def)
  then show ?thesis using site_to_hook_entry [OF site] hook_entry_view [OF site] by blast
qed

text \<open>The example process, initialised.\<close>

lemma example_trampoline:
  "\<exists>s1. init_trampoline test_env test_loader_state = (Ended (), s1) \<and>
     region_code (proc s1) code_region = [0x90, 0x0f, 0x05, 0x0f, 0x34]"
proof -
  let ?s = "proc test_loader_state"
  obtain q p where q: "setup_trampoline zero_mmap 0x9000000 ?s = (q, p)" by fastforce
  then have "q = Some (Inr ())"
    by (auto simp: setup_trampoline_def zero_mmap_def setup_trampoline_code)
  moreover have "mmap_documented (zero_mmap :: mprotect_log mmap)"
    using test_env_documented(1) by (simp add: test_env_def)
  ultimately have bytes: "mem p a = code_memory a" if "4608 \<le> unat a" for a
    using setup_trampoline_result [OF _ q] that by (auto simp: test_loader_state_def)
  have "region_code p code_region = [0x90, 0x0f, 0x05, 0x0f, 0x34]"
    by (simp add: region_code_def read_slice_def region_size_def code_region_def upt_rec bytes)
      (simp add: code_memory_def)
  then show ?thesis
    using q \<open>q = Some (Inr ())\<close> by (simp add: init_trampoline_def test_env_def)
qed

lemma example_replaceable:
  assumes "region_code s code_region = [0x90, 0x0f, 0x05, 0x0f, 0x34]"
  shows "1 \<in> replaceable (platform_of test_env) code_region s"
proof -
  have P: "platform_of test_env = test_platform (\<lambda>_. None)" by (simp add: test_env_def)
  obtain reps where reps:
    "find_syscalls (decode (platform_of test_env)) (mr_start code_region) (region_code s code_region) = Some reps"
    "\<And>p t. (p, t) \<in> set reps \<longleftrightarrow> region_decoded (platform_of test_env) code_region s p t"
    using region_replacements [of "platform_of test_env"] unfolding P by (metis test_platform_good(1))
  have "find_syscalls (decode (platform_of test_env)) (mr_start code_region) (region_code s code_region) =
      Some [(1, Syscall), (3, Sysenter)]"
    unfolding P assms
    by (simp add: find_syscalls_def find_loop.simps small_decoder_def type_of_mnemonic_def
        test_platform_def code_region_def)
  with reps(1) have "reps = [(1, Syscall), (3, Sysenter)]" by simp
  then have "(1, Syscall) \<in> set reps" by simp
  then have "region_decoded (platform_of test_env) code_region s 1 Syscall" using reps(2) by blast
  then show ?thesis by (auto simp: replaceable_def assms is_site_def)
qed

theorem replaced_instruction_calls_hook_entry_witness:
  "\<exists>s1 s2 c c1. init_trampoline test_env test_loader_state = (Ended (), s1) \<and>
     init_rewrite test_env s1 = (Ended (), s2) \<and> cmem c = mem (proc s2) \<and> rip c = 0x20001 \<and>
     steps (entry_steps c) c = Some c1 \<and> rip c1 = 0x9000000"
proof -
  obtain s1 where s1: "init_trampoline test_env test_loader_state = (Ended (), s1)"
    and code: "region_code (proc s1) code_region = [0x90, 0x0f, 0x05, 0x0f, 0x34]"
    using example_trampoline by blast
  obtain s2 where s2: "init_rewrite test_env s1 = (Ended (), s2)"
    using rewrite_syscalls_result [OF test_env_sound test_env_maps test_env_regions, of s1]
    by (auto simp: init_rewrite_def)
  let ?c = "\<lparr>rip = 0x20001, regs = (\<lambda>r. if r = RSP then 0x8000 else 39), cmem = mem (proc s2)\<rparr>"
  have c: "cmem ?c = mem (proc s2)" "rip ?c = mr_start code_region + of_nat 1"
    "unat (regs ?c RAX) \<le> 512" "642 \<le> unat (regs ?c RSP)" "hook_entry_at test_env = 0x9000000"
    by (simp_all add: code_region_def test_env_def)
  have "code_region \<in> set [code_region]" by simp
  from replaced_instruction_calls_hook_entry [OF test_env_sound test_env_documented(1,2) s1 s2
      test_env_maps test_env_regions(2) this code_region_eligible(1) example_replaceable [OF code] c(1-4)]
  obtain c1 where "steps (entry_steps ?c) ?c = Some c1" "rip c1 = 0x9000000"
    using c(5) by auto
  then show ?thesis using s1 s2 by (intro exI [of _ s1] exI [of _ s2] exI [of _ ?c] exI [of _ c1]) simp
qed

subsection \<open>The system call at the rewritten instruction\<close>

text \<open>
  The machine code at the address of \<open>hook_entry\<close> implements the function: called with \<open>rdi\<close> pointing to
  a \<open>SyscallRegs\<close>, it returns by the C convention with the function's result in \<open>rax\<close> and the
  structure as the function leaves it, whenever the function returns.
\<close>

definition implements_hook_entry ::
  "'w hook_env \<Rightarrow> tid \<Rightarrow> u64 \<Rightarrow> (cpu \<Rightarrow> cpu) \<Rightarrow> ('s, 'w) hook_state \<Rightarrow> bool" where
  "implements_hook_entry E t addr callee st \<longleftrightarrow>
     (\<forall>c v q st'. hook_entry 2 E t (regs_at (cmem c) (regs c RDI)) st = Value (v, q) st' \<longrightarrow>
        c_return addr c (callee c) \<and> regs (callee c) RAX = v \<and>
        regs_at (cmem (callee c)) (regs c RDI) = q)"

lemma intercepted_call:
  assumes "at_site addr c" "implements_hook_entry E t addr callee st"
    "hook_entry 2 E t (regs_of_cpu c) st = Value (v, q) st'"
  shows "\<exists>c1 c2. steps (entry_steps c) c = Some c1 \<and> rip c1 = addr \<and> steps 9 (callee c1) = Some c2 \<and>
    rip c2 = rip c + 2 \<and> regs c2 RSP = regs c RSP \<and> regs_of_cpu c2 = q\<lparr>rax := v\<rparr> \<and>
    map (regs c2) [RBX, RBP, R12, R13, R14, R15] = map (regs c) [RBX, RBP, R12, R13, R14, R15]"
proof -
  have impl: "c_return addr c1 (callee c1) \<and> regs (callee c1) RAX = v \<and>
      regs_at (cmem (callee c1)) (regs c1 RDI) = q" if "steps (entry_steps c) c = Some c1" for c1
    using assms(2,3) hook_entry_view(4) [OF assms(1) that] unfolding implements_hook_entry_def by metis
  then have "c_return addr c1 (callee c1)" if "steps (entry_steps c) c = Some c1" for c1
    using that by blast
  from trampoline_round_trip [OF assms(1) this] obtain c1 c2 where
    run: "steps (entry_steps c) c = Some c1" "rip c1 = addr" "steps 9 (callee c1) = Some c2"
      "rip c2 = rip c + 2" "regs c2 RSP = regs c RSP"
      "regs_of_cpu c2 = (regs_at (cmem (callee c1)) (regs c1 RDI))\<lparr>rax := regs (callee c1) RAX\<rparr>"
      "map (regs c2) [RBX, RBP, R12, R13, R14, R15] = map (regs c) [RBX, RBP, R12, R13, R14, R15]"
    by blast
  with impl [OF run(1)] show ?thesis by metis
qed

text \<open>
  C2: without a hook, a rewritten instruction is the system call it replaced.  The kernel is called
  exactly once, with the registers of the site; then the processor is behind the instruction with the
  kernel's answer in \<open>rax\<close>, and the six argument registers, the stack pointer and the callee-saved
  registers are as they were.
\<close>

theorem default_interception_is_syscall:
  assumes "at_site addr c" and "implements_hook_entry E t addr callee st"
    and "hook_function st = Default_hook" and "\<not> in_hook st t"
    and "kernel E (regs_of_cpu c) (world st) = (Some v, w)"
  shows "\<exists>c1 c2 st'. steps (entry_steps c) c = Some c1 \<and> rip c1 = addr \<and>
    hook_entry 2 E t (regs_at (cmem c1) (regs c1 RDI)) st = Value (v, regs_of_cpu c) st' \<and>
    world st' = w \<and> steps 9 (callee c1) = Some c2 \<and>
    rip c2 = rip c + 2 \<and> regs_of_cpu c2 = (regs_of_cpu c)\<lparr>rax := v\<rparr> \<and>
    map (regs c2) [RSP, RBX, RBP, R12, R13, R14, R15] = map (regs c) [RSP, RBX, RBP, R12, R13, R14, R15]"
proof -
  obtain st' where st': "hook_entry 2 E t (regs_of_cpu c) st = Value (v, regs_of_cpu c) st'" "world st' = w"
    using assms(5) unfolding entry_default [OF assms(3,4)] by (simp add: raw_call_def)
  obtain c1 c2 where run: "steps (entry_steps c) c = Some c1" "rip c1 = addr" "steps 9 (callee c1) = Some c2"
    "rip c2 = rip c + 2" "regs c2 RSP = regs c RSP" "regs_of_cpu c2 = (regs_of_cpu c)\<lparr>rax := v\<rparr>"
    "map (regs c2) [RBX, RBP, R12, R13, R14, R15] = map (regs c) [RBX, RBP, R12, R13, R14, R15]"
    using intercepted_call [OF assms(1,2) st'(1)] by blast
  have "regs_at (cmem c1) (regs c1 RDI) = regs_of_cpu c" by (rule hook_entry_view(4) [OF assms(1) run(1)])
  with st' run show ?thesis by (intro exI [of _ c1] exI [of _ c2] exI [of _ st']) simp
qed

text \<open>Compiled code for the default hook over \<open>log_kernel\<close>, in a fresh process.\<close>

definition log_callee :: "cpu \<Rightarrow> cpu" where
  "log_callee c = c\<lparr>rip := load64 (cmem c) (regs c RSP),
     regs := (regs c)(RAX := rax (regs_at (cmem c) (regs c RDI)) + 1000, RSP := regs c RSP + 8)\<rparr>"

lemma log_callee_implements:
  "implements_hook_entry log_env 1 addr log_callee (initial_state [] :: (unit, _) hook_state)"
proof -
  have s: "hook_function (initial_state [] :: (unit, _) hook_state) = Default_hook"
    "\<not> in_hook (initial_state [] :: (unit, _) hook_state) 1"
    by (simp_all add: initial_state_def)
  show ?thesis
    unfolding implements_hook_entry_def entry_default [OF s]
    by (auto simp: raw_call_def log_kernel_def log_callee_def c_return_def split: if_splits)
qed

theorem default_interception_is_syscall_witness:
  "\<exists>c1 c2. steps (entry_steps site_cpu) site_cpu = Some c1 \<and> steps 9 (log_callee c1) = Some c2 \<and>
     rip c2 = 0x5002 \<and> regs_of_cpu c2 = syscall_regs_new 1039 7 0 0 0 0 0"
proof -
  let ?st = "initial_state [] :: (unit, syscall_regs list) hook_state"
  have h: "hook_function ?st = Default_hook" "\<not> in_hook ?st 1"
    "kernel log_env (regs_of_cpu site_cpu) (world ?st) = (Some 1039, [regs_of_cpu site_cpu])"
    by (simp_all add: initial_state_def log_kernel_def regs_of_cpu_def site_cpu_def)
  have "(regs_of_cpu site_cpu)\<lparr>rax := 1039\<rparr> = syscall_regs_new 1039 7 0 0 0 0 0" "rip site_cpu = 0x5000"
    by (simp_all add: regs_of_cpu_def site_cpu_def syscall_regs_new_def)
  with default_interception_is_syscall [OF site_cpu_at_site log_callee_implements h] show ?thesis
    by auto
qed

subsection \<open>A loaded hook library at work\<close>

text \<open>
  C4: the default set-up, from the library's file to the processor.  When the chosen library loads and its
  \<open>zpoline\_hook\_init\<close> returns the address of \<open>zpoline\_hook\_function\<close>, a rewritten instruction prints a
  trace line, by any system calls, and is otherwise the system call it replaced: the kernel is called
  with the registers of the site, its answer to that call is in \<open>rax\<close> behind the instruction, and the
  argument registers, the stack pointer and the callee-saved registers are as they were.
\<close>

theorem traced_interception_is_syscall:
  assumes "chosen_library env = Some lib" and "gives_hook env lib (proc s) a p'"
    and "hook_function st = installed_hook (init_hook_library env s)"
    and "code_of E a = zpoline_hook_function eprint" and "\<And>m. comes_back (eprint m)"
    and "answering (kernel E)" and "\<not> in_hook st t"
    and "at_site addr c" and "implements_hook_entry E t addr callee st"
  shows "\<exists>c1 c2 v w w'. steps (entry_steps c) c = Some c1 \<and> rip c1 = addr \<and>
    kernel E (regs_of_cpu c) w = (Some v, w') \<and> steps 9 (callee c1) = Some c2 \<and>
    rip c2 = rip c + 2 \<and> regs_of_cpu c2 = (regs_of_cpu c)\<lparr>rax := v\<rparr> \<and>
    map (regs c2) [RSP, RBX, RBP, R12, R13, R14, R15] = map (regs c) [RSP, RBX, RBP, R12, R13, R14, R15]"
proof -
  have hook: "hook_function st = Hook_at a"
    by (simp add: assms(3) chosen_library_installed [OF assms(1,2)])
  obtain v st' w w' where st': "hook_entry 2 E t (regs_of_cpu c) st = Value (v, regs_of_cpu c) st'"
    and v: "kernel E (regs_of_cpu c) w = (Some v, w')"
    using stderr_printer.impl_answers [OF printer [OF assms(5)] hook assms(4,7,6)] by blast
  obtain c1 c2 where run: "steps (entry_steps c) c = Some c1" "rip c1 = addr" "steps 9 (callee c1) = Some c2"
    "rip c2 = rip c + 2" "regs c2 RSP = regs c RSP" "regs_of_cpu c2 = (regs_of_cpu c)\<lparr>rax := v\<rparr>"
    "map (regs c2) [RBX, RBP, R12, R13, R14, R15] = map (regs c) [RBX, RBP, R12, R13, R14, R15]"
    using intercepted_call [OF assms(8,9) st'] by blast
  with v show ?thesis
    by (intro exI [of _ c1] exI [of _ c2] exI [of _ v] exI [of _ w] exI [of _ w']) simp
qed

definition traced_state :: "(unit, syscall_regs list) hook_state" where
  "traced_state = hook_init (Hook_at 0x7000) (initial_state [])"

lemma log_callee_implements_traced: "implements_hook_entry tracing_env 1 addr log_callee traced_state"
proof -
  have s: "hook_function traced_state = Hook_at 0x7000" "\<not> in_hook traced_state 1"
    by (simp_all add: traced_state_def hook_init_def initial_state_def)
  have code: "code_of tracing_env 0x7000 = zpoline_hook_function (eprint_once 0x9000)"
    by (simp add: tracing_env_def)
  have "v = rax q + 1000 \<and> q' = q" if "hook_entry 2 tracing_env 1 q traced_state = Value (v, q') st'" for v q q' st'
    using stderr_printer.impl_answers [OF printer [OF eprint_once_prints] s(1) code s(2) tracing_env_answers, of q] that
    by (auto simp: tracing_env_def)
  then show ?thesis
    unfolding implements_hook_entry_def by (auto simp: log_callee_def c_return_def split: if_splits)
qed

theorem traced_interception_is_syscall_witness:
  "\<exists>c1 c2. steps (entry_steps site_cpu) site_cpu = Some c1 \<and> steps 9 (log_callee c1) = Some c2 \<and>
     rip c2 = 0x5002 \<and> rax (regs_of_cpu c2) = 1039"
proof -
  let ?env = "hook_env_vars test_env"
  note lib = hook_env_vars_library(1) [of test_env] hook_env_vars_library(2) [of test_env "proc test_loader_state"]
  have st: "hook_function traced_state = installed_hook (init_hook_library ?env test_loader_state)"
    by (simp add: traced_state_def hook_init_def chosen_library_installed [OF lib])
  have code: "code_of tracing_env 0x7000 = zpoline_hook_function (eprint_once 0x9000)"
    "\<not> in_hook traced_state 1" "rip site_cpu = 0x5000" "rax (regs_of_cpu site_cpu) = 39"
    by (simp_all add: tracing_env_def traced_state_def hook_init_def initial_state_def regs_of_cpu_def site_cpu_def)
  from traced_interception_is_syscall [OF lib st code(1) eprint_once_prints tracing_env_answers code(2)
      site_cpu_at_site log_callee_implements_traced] code(3,4) show ?thesis
    by (auto simp: tracing_env_def)
qed

end
